(* ===== verification/Prelude.thy ===== *)
theory Prelude
  imports Main "HOL-Library.Sublist"
begin

text \<open>
  Shared vocabulary of the development: Go errors and result pairs, the metric calls the
  service makes, collections of rewrite rules, and the generic facts on lists that more than
  one component uses. Nothing here models a particular source file.
\<close>

section \<open>Errors and results\<close>

text \<open>
  Go's error values. Two of them are sentinels the code compares against
  (\<open>store.ErrNotFound\<close>, \<open>executor.ErrQueueFull\<close>); every other one is only tested for
  nil, so it carries just its text. A Go result \<open>(v, err)\<close> is a sum, \<open>Inl\<close> the error; a
  bare \<open>err\<close> result is an option, \<open>None\<close> for nil.
\<close>

datatype err = ErrNotFound | ErrQueueFull | ErrMsg string

type_synonym 'a res = "err + 'a"

section \<open>Metric calls\<close>

text \<open>
  A call on a Prometheus collector (a third-party package): which collector, which operation
  and with which label values. Observed durations and sizes are dropped; a gauge keeps the
  value it is set to.
\<close>

datatype metric =
    Inc string "string list"
  | Observe string "string list"
  | SetGauge string int

section \<open>Rule collections\<close>

named_theorems state_simps \<open>unfolds the small state-passing helpers of a component\<close>
named_theorems frame_simps \<open>what an operation leaves unchanged\<close>

section \<open>Lists\<close>

lemma prefix_append_same [simp]: "prefix (xs @ ys) (xs @ zs) \<longleftrightarrow> prefix ys zs"
  by (induction xs) auto

lemma takeWhile_append_stop:
  "\<not> P x \<Longrightarrow> (\<And>y. y \<in> set xs \<Longrightarrow> P y) \<Longrightarrow> takeWhile P (xs @ x # ys) = xs"
  by (induction xs) auto

lemma dropWhile_append_stop:
  "\<not> P x \<Longrightarrow> (\<And>y. y \<in> set xs \<Longrightarrow> P y) \<Longrightarrow> dropWhile P (xs @ x # ys) = x # ys"
  by (induction xs) auto

text \<open>Two texts cut at the first separator agree on both sides of it.\<close>

lemma append_sep_inject:
  assumes "xs @ c # ys = xs' @ c # ys'" and "c \<notin> set xs" and "c \<notin> set xs'"
  shows "xs = xs' \<and> ys = ys'"
  using assms
proof (induction xs arbitrary: xs')
  case Nil
  then show ?case by (cases xs') auto
next
  case (Cons x xs)
  then show ?case by (cases xs') auto
qed

lemma append_sep_prefix:
  assumes "prefix (xs @ [c]) (xs' @ c # ys')" and "c \<notin> set xs" and "c \<notin> set xs'"
  shows "xs = xs'"
proof -
  from assms(1) obtain zs where "xs' @ c # ys' = xs @ c # zs"
    by (auto simp: prefix_def)
  with assms(2,3) show ?thesis
    using append_sep_inject by metis
qed

lemma sum_list_map_filter_length:
  "sum_list (map (\<lambda>x. if P x then 1 else 0) xs) = int (length (filter P xs))"
  by (induction xs) auto

lemma map_of_distinct_filter:
  "distinct (map f xs) \<Longrightarrow> x \<in> set xs \<Longrightarrow> filter (\<lambda>y. f y = f x) xs = [x]"
proof (induction xs)
  case Nil
  then show ?case by simp
next
  case (Cons y ys)
  then show ?case
    by (auto simp: filter_empty_conv image_iff)
qed

lemma map_zip_snd: "length ns = length ps \<Longrightarrow> map (\<lambda>x. f (snd x)) (zip ns ps) = map f ps"
  by (induction ns ps rule: list_induct2) simp_all

text \<open>Replacing one element changes a sum by that element's share.\<close>

lemma sum_list_replace:
  "i < length xs \<Longrightarrow> sum_list (map f (xs[i := y])) + f (xs ! i) = sum_list (map f xs) + (f y :: 'b::comm_monoid_add)"
proof (induction xs arbitrary: i)
  case Nil
  then show ?case by simp
next
  case (Cons x xs)
  then show ?case by (cases i) (auto simp: ac_simps)
qed

lemma sum_list_member:
  "i < length xs \<Longrightarrow> f (xs ! i) \<le> sum_list (map f xs :: nat list)"
  by (simp add: member_le_sum_list)

lemma list_update_same: "xs ! i = x \<Longrightarrow> xs[i := x] = xs"
  by (metis list_update_id)

text \<open>A number that every step lowers bounds the number of steps.\<close>

lemma relpowp_rank:
  assumes "\<And>x y. R x y \<Longrightarrow> f y < (f x :: nat)"
  shows "(R ^^ n) x y \<Longrightarrow> f y + n \<le> f x"
proof (induction n arbitrary: y)
  case 0
  then show ?case by simp
next
  case (Suc n)
  then obtain z where "(R ^^ n) x z" "R z y" by auto
  with Suc.IH [of z] assms [of z y] show ?case by simp
qed

end
