(* ===== verification/Go_Strings.thy ===== *)
theory Go_Strings
  imports Prelude "HOL-Library.List_Lexorder" "HOL-Library.Char_ord"
begin

text \<open>
  What the sources use of Go's strings: a Go string is a sequence of bytes, here a HOL
  \<open>string\<close> (\<open>char\<close> is a byte). This theory holds \<open>strings.TrimSpace\<close>, \<open>strings.Trim\<close>,
  \<open>strings.Split\<close>, \<open>strings.Index\<close>, \<open>strings.EqualFold\<close>, the decimal formatting of
  \<open>fmt\<close> and \<open>strconv\<close>, \<open>strconv.ParseInt\<close> and the wrap-around of \<open>int64\<close>. Byte-wise
  lexicographic order, which \<open>sort.Strings\<close> uses, is the order of \<open>List_Lexorder\<close> over
  \<open>Char_ord\<close>.
\<close>

section \<open>int64\<close>

text \<open>Go's 64-bit two's-complement wrap-around.\<close>

definition i64 :: "int \<Rightarrow> int" where
  "i64 x = (x + 2 ^ 63) mod 2 ^ 64 - 2 ^ 63"

definition in_i64 :: "int \<Rightarrow> bool" where
  "in_i64 x \<longleftrightarrow> - (2 ^ 63) \<le> x \<and> x < 2 ^ 63"

lemma i64_id: "in_i64 x \<Longrightarrow> i64 x = x"
  by (simp add: i64_def in_i64_def)

lemma in_i64_i64: "in_i64 (i64 x)"
proof -
  have "0 \<le> (x + 2 ^ 63) mod 2 ^ 64" "(x + 2 ^ 63) mod 2 ^ 64 < 2 ^ 64"
    by simp_all
  then show ?thesis by (simp add: i64_def in_i64_def)
qed

section \<open>White space\<close>

text \<open>
  The UTF-8 encodings of the code points with \<open>unicode.IsSpace\<close>. Since each is matched whole
  at an end of the string, this is what the rune-wise loops of \<open>strings.TrimSpace\<close> do.
\<close>

definition white_space :: "string list" where
  "white_space =
     [[CHR 0x09], [CHR 0x0A], [CHR 0x0B], [CHR 0x0C], [CHR 0x0D], [CHR 0x20],
      [CHR 0xC2, CHR 0x85], [CHR 0xC2, CHR 0xA0], [CHR 0xE1, CHR 0x9A, CHR 0x80],
      [CHR 0xE2, CHR 0x80, CHR 0x80], [CHR 0xE2, CHR 0x80, CHR 0x81],
      [CHR 0xE2, CHR 0x80, CHR 0x82], [CHR 0xE2, CHR 0x80, CHR 0x83],
      [CHR 0xE2, CHR 0x80, CHR 0x84], [CHR 0xE2, CHR 0x80, CHR 0x85],
      [CHR 0xE2, CHR 0x80, CHR 0x86], [CHR 0xE2, CHR 0x80, CHR 0x87],
      [CHR 0xE2, CHR 0x80, CHR 0x88], [CHR 0xE2, CHR 0x80, CHR 0x89],
      [CHR 0xE2, CHR 0x80, CHR 0x8A], [CHR 0xE2, CHR 0x80, CHR 0xA8],
      [CHR 0xE2, CHR 0x80, CHR 0xA9], [CHR 0xE2, CHR 0x80, CHR 0xAF],
      [CHR 0xE2, CHR 0x81, CHR 0x9F], [CHR 0xE3, CHR 0x80, CHR 0x80]]"

function strip_any :: "string list \<Rightarrow> string \<Rightarrow> string" where
  "strip_any ws s =
     (case find (\<lambda>w. w \<noteq> [] \<and> prefix w s) ws of
        None \<Rightarrow> s
      | Some w \<Rightarrow> strip_any ws (drop (length w) s))"
  by pat_completeness auto
termination
  by (relation "measure (\<lambda>(ws, s). length s)") (auto simp: find_Some_iff prefix_def)

declare strip_any.simps [simp del]

definition TrimSpace :: "string \<Rightarrow> string" where
  "TrimSpace s = rev (strip_any (map rev white_space) (rev (strip_any white_space s)))"

definition trim_char :: "char \<Rightarrow> string \<Rightarrow> string" where
  "trim_char c s = rev (dropWhile ((=) c) (rev (dropWhile ((=) c) s)))"

text \<open>A text that neither starts nor ends with a white-space encoding is left alone.\<close>

definition no_margin :: "string \<Rightarrow> bool" where
  "no_margin s \<longleftrightarrow> list_all (\<lambda>w. \<not> prefix w s \<and> \<not> suffix w s) white_space"

lemma strip_any_id: "list_all (\<lambda>w. \<not> prefix w s) ws \<Longrightarrow> strip_any ws s = s"
proof -
  assume "list_all (\<lambda>w. \<not> prefix w s) ws"
  then have "find (\<lambda>w. w \<noteq> [] \<and> prefix w s) ws = None"
    by (auto simp: find_None_iff list_all_iff)
  then show ?thesis by (simp add: strip_any.simps)
qed

lemma TrimSpace_id: "no_margin s \<Longrightarrow> TrimSpace s = s"
  by (simp add: TrimSpace_def no_margin_def strip_any_id list_all_iff suffix_to_prefix)

lemma strip_any_stops: "list_all (\<lambda>w. w = [] \<or> \<not> prefix w (strip_any ws s)) ws"
proof (induction ws s rule: strip_any.induct)
  case (1 ws s)
  show ?case
  proof (cases "find (\<lambda>w. w \<noteq> [] \<and> prefix w s) ws")
    case None
    then show ?thesis
      by (simp add: strip_any.simps [of ws s]) (auto simp: find_None_iff list_all_iff)
  next
    case (Some w)
    with 1 show ?thesis by (simp add: strip_any.simps [of ws s])
  qed
qed

lemma trim_char_id:
  assumes "c \<notin> {hd s, last s}"
  shows "trim_char c s = s"
proof (cases s rule: rev_cases)
  case Nil
  then show ?thesis by (simp add: trim_char_def)
next
  case (snoc ys y)
  with assms have "dropWhile ((=) c) (rev s) = rev s" by simp
  moreover from assms snoc have "dropWhile ((=) c) s = s" by (cases ys) simp_all
  ultimately show ?thesis by (simp add: trim_char_def)
qed

section \<open>Splitting\<close>

fun split_on :: "char \<Rightarrow> string \<Rightarrow> string list" where
  "split_on c [] = [[]]"
| "split_on c (x # xs) =
     (if x = c then [] # split_on c xs
      else (case split_on c xs of [] \<Rightarrow> [[x]] | w # ws \<Rightarrow> (x # w) # ws))"

fun join_with :: "char \<Rightarrow> string list \<Rightarrow> string" where
  "join_with c [] = []"
| "join_with c [w] = w"
| "join_with c (w # ws) = w @ c # join_with c ws"

lemma split_on_Nil [simp]: "split_on c s \<noteq> []"
  by (cases s) (auto split: list.splits)

lemma split_on_no_sep: "c \<notin> set s \<Longrightarrow> split_on c s = [s]"
  by (induction s) auto

lemma split_on_append: "c \<notin> set w \<Longrightarrow> split_on c (w @ c # s) = w # split_on c s"
  by (induction w) auto

lemma split_on_pieces: "w \<in> set (split_on c s) \<Longrightarrow> c \<notin> set w"
proof (induction s arbitrary: w)
  case Nil
  then show ?case by simp
next
  case (Cons x xs)
  then show ?case by (cases "split_on c xs") (auto split: if_splits)
qed

lemma join_split: "join_with c (split_on c s) = s"
proof (induction s)
  case Nil
  then show ?case by simp
next
  case (Cons x xs)
  then show ?case
    by (cases "(c, split_on c xs)" rule: join_with.cases) auto
qed

lemma split_join: "ws \<noteq> [] \<Longrightarrow> list_all (\<lambda>w. c \<notin> set w) ws \<Longrightarrow> split_on c (join_with c ws) = ws"
  by (induction c ws rule: join_with.induct) (auto simp: split_on_no_sep split_on_append)

text \<open>\<open>strings.Index(s, c)\<close> for a one-byte \<open>c\<close>: \<open>None\<close> where Go returns -1.\<close>

fun index_of :: "char \<Rightarrow> string \<Rightarrow> nat option" where
  "index_of c [] = None"
| "index_of c (x # xs) = (if x = c then Some 0 else map_option Suc (index_of c xs))"

lemma index_of_append: "c \<notin> set w \<Longrightarrow> index_of c (w @ c # s) = Some (length w)"
  by (induction w) auto

lemma index_of_None: "index_of c s = None \<longleftrightarrow> c \<notin> set s"
  by (induction s) auto

section \<open>Case folding\<close>

text \<open>
  \<open>strings.EqualFold\<close> against an ASCII text without the letters k and s: no other code
  point folds to such a letter, so the comparison is ASCII case-insensitive.
\<close>

definition ascii_lower :: "char \<Rightarrow> char" where
  "ascii_lower c =
     (if 65 \<le> (of_char c :: nat) \<and> (of_char c :: nat) \<le> 90
      then char_of ((of_char c :: nat) + 32) else c)"

definition EqualFold_ascii :: "string \<Rightarrow> string \<Rightarrow> bool" where
  "EqualFold_ascii s t \<longleftrightarrow> map ascii_lower s = map ascii_lower t"

section \<open>Decimal numbers\<close>

definition digit :: "nat \<Rightarrow> char" where
  "digit n = char_of (48 + n)"

fun show_nat :: "nat \<Rightarrow> string" where
  "show_nat n = (if n < 10 then [digit n] else show_nat (n div 10) @ [digit (n mod 10)])"

declare show_nat.simps [simp del]

definition show_int :: "int \<Rightarrow> string" where
  "show_int x = (if x < 0 then CHR ''-'' # show_nat (nat (- x)) else show_nat (nat x))"

definition pad_left :: "nat \<Rightarrow> string \<Rightarrow> string" where
  "pad_left n s = replicate (n - length s) (CHR ''0'') @ s"

text \<open>The verb \<open>%03d\<close>.\<close>

definition fmt_03d :: "int \<Rightarrow> string" where
  "fmt_03d x = (if x < 0 then CHR ''-'' # pad_left 2 (show_nat (nat (- x)))
                else pad_left 3 (show_nat (nat x)))"

definition is_digit :: "char \<Rightarrow> bool" where
  "is_digit c \<longleftrightarrow> 48 \<le> (of_char c :: nat) \<and> (of_char c :: nat) \<le> 57"

definition digit_val :: "char \<Rightarrow> nat" where
  "digit_val c = of_char c - 48"

definition dec_val :: "string \<Rightarrow> nat" where
  "dec_val s = foldl (\<lambda>n c. 10 * n + digit_val c) 0 s"

lemma of_char_digit: "n < 10 \<Longrightarrow> (of_char (digit n) :: nat) = 48 + n"
  by (simp add: digit_def)

lemma is_digit_digit [simp]: "n < 10 \<Longrightarrow> is_digit (digit n)"
  by (simp add: is_digit_def of_char_digit)

lemma digit_val_digit [simp]: "n < 10 \<Longrightarrow> digit_val (digit n) = n"
  by (simp add: digit_val_def of_char_digit)

lemma show_nat_nonempty [simp]: "show_nat n \<noteq> []"
  by (subst show_nat.simps) simp

lemma show_nat_digits: "list_all is_digit (show_nat n)"
proof (induction n rule: show_nat.induct)
  case (1 n)
  then show ?case by (subst show_nat.simps) auto
qed

lemma dec_val_snoc: "dec_val (s @ [c]) = 10 * dec_val s + digit_val c"
  by (simp add: dec_val_def)

lemma dec_val_show_nat [simp]: "dec_val (show_nat n) = n"
proof (induction n rule: show_nat.induct)
  case (1 n)
  then show ?case
    by (subst show_nat.simps) (auto simp: dec_val_snoc, simp add: dec_val_def)
qed

lemma show_nat_inject [simp]: "show_nat m = show_nat n \<longleftrightarrow> m = n"
  by (metis dec_val_show_nat)

lemma is_digit_neq:
  "is_digit c \<Longrightarrow> (of_char d :: nat) < 48 \<or> 57 < (of_char d :: nat) \<Longrightarrow> c \<noteq> d"
  by (auto simp: is_digit_def)

lemma show_nat_no: "(of_char d :: nat) < 48 \<or> 57 < (of_char d :: nat) \<Longrightarrow> d \<notin> set (show_nat n)"
  using show_nat_digits [of n] is_digit_neq by (auto simp: list_all_iff)

lemma dec_val_pad [simp]: "dec_val (pad_left k s) = dec_val s"
proof -
  have "foldl (\<lambda>n c. 10 * n + digit_val c) 0 (replicate m (CHR ''0'')) = 0" for m
    by (induction m) (auto simp: digit_val_def)
  then show ?thesis by (simp add: dec_val_def pad_left_def)
qed

lemma pad_left_digits: "list_all is_digit s \<Longrightarrow> list_all is_digit (pad_left k s)"
  by (auto simp: pad_left_def list_all_iff is_digit_def)

lemma fmt_03d_inject: "0 \<le> x \<Longrightarrow> 0 \<le> y \<Longrightarrow> fmt_03d x = fmt_03d y \<longleftrightarrow> x = y"
  by (metis fmt_03d_def dec_val_pad dec_val_show_nat eq_nat_nat_iff not_less)

subsection \<open>strconv.ParseInt in base 10\<close>

text \<open>
  \<open>ParseInt s\<close> is the pair of the returned value and whether an error came with it. A syntax
  error returns 0, a value out of range the nearest bound of \<open>int64\<close>; callers that drop the
  error see that value. \<open>strconv.Atoi\<close> and \<open>json.Number.Int64\<close> are this function.
\<close>

definition parse_digits :: "string \<Rightarrow> nat option" where
  "parse_digits s = (if s \<noteq> [] \<and> list_all is_digit s then Some (dec_val s) else None)"

definition ParseInt :: "string \<Rightarrow> int \<times> bool" where
  "ParseInt s =
     (let neg = (s \<noteq> [] \<and> hd s = CHR ''-'');
          body = (if s \<noteq> [] \<and> (hd s = CHR ''-'' \<or> hd s = CHR ''+'') then tl s else s)
      in case parse_digits body of
           None \<Rightarrow> (0, True)
         | Some n \<Rightarrow>
             if \<not> neg \<and> 2 ^ 63 \<le> int n then (2 ^ 63 - 1, True)
             else if neg \<and> 2 ^ 63 < int n then (- (2 ^ 63), True)
             else (if neg then - int n else int n, False))"

lemma show_nat_hd: "is_digit (hd (show_nat n))"
  using show_nat_digits [of n] by (cases "show_nat n") auto

lemma show_nat_not_sign: "hd (show_nat n) \<noteq> CHR ''-''" "hd (show_nat n) \<noteq> CHR ''+''"
  using show_nat_hd [of n] by (auto simp: is_digit_def)

lemma parse_digits_show [simp]: "parse_digits (show_nat n) = Some n"
  by (simp add: parse_digits_def show_nat_digits)

lemma ParseInt_show_int: "in_i64 x \<Longrightarrow> ParseInt (show_int x) = (x, False)"
proof (cases "x < 0")
  case True
  moreover assume "in_i64 x"
  ultimately have "\<not> 2 ^ 63 < nat (- x)" by (simp add: in_i64_def)
  with True show ?thesis by (simp add: ParseInt_def show_int_def)
next
  case False
  moreover assume "in_i64 x"
  ultimately have "\<not> 2 ^ 63 \<le> nat x" by (simp add: in_i64_def)
  with False show ?thesis by (simp add: ParseInt_def show_int_def show_nat_not_sign)
qed

lemma ParseInt_in_i64: "in_i64 (fst (ParseInt s))"
  by (auto simp: ParseInt_def in_i64_def Let_def split: option.splits)

subsection \<open>Evaluation on integers\<close>

text \<open>
  Code equations that stay on binary integers, so that evaluating a concrete call does not
  count through the naturals.
\<close>

function show_pos :: "int \<Rightarrow> string" where
  "show_pos n = (if n < 10 then [digit (nat n)] else show_pos (n div 10) @ [digit (nat (n mod 10))])"
  by pat_completeness auto
termination
  by (relation "measure nat") auto

declare show_pos.simps [simp del]

lemma show_pos_nat: "show_pos (int n) = show_nat n"
proof (induction n rule: show_nat.induct)
  case (1 n)
  have "int n div 10 = int (n div 10)" "nat (int n mod 10) = n mod 10"
    by (simp_all add: zdiv_int nat_mod_distrib)
  with 1 show ?case
    by (subst show_pos.simps, subst show_nat.simps) auto
qed

lemma show_int_code [code]:
  "show_int x = (if x < 0 then CHR ''-'' # show_pos (- x) else show_pos x)"
  using show_pos_nat [of "nat (- x)"] show_pos_nat [of "nat x"]
  by (cases "x < 0") (simp_all add: show_int_def)

definition dec_int :: "string \<Rightarrow> int" where
  "dec_int s = foldl (\<lambda>n c. 10 * n + int (digit_val c)) 0 s"

lemma dec_int_val: "int (dec_val s) = dec_int s"
  by (induction s rule: rev_induct) (simp_all add: dec_val_def dec_int_def)

text \<open>Reading characters as integers evaluates faster than as natural numbers.\<close>

lemma of_char_le:
  "(of_char c :: nat) \<le> n \<longleftrightarrow> (of_char c :: int) \<le> int n"
  "n \<le> (of_char c :: nat) \<longleftrightarrow> int n \<le> (of_char c :: int)"
  "(of_char c :: nat) < n \<longleftrightarrow> (of_char c :: int) < int n"
  using of_nat_of_char [of c, where 'a = int] by linarith+

lemma is_digit_code [code]: "is_digit c \<longleftrightarrow> 48 \<le> (of_char c :: int) \<and> (of_char c :: int) \<le> 57"
  by (simp add: is_digit_def of_char_le)

lemma dec_int_code [code]: "dec_int s = foldl (\<lambda>n c. 10 * n + max 0 (of_char c - 48)) 0 s"
proof -
  have "int (digit_val c) = max 0 (of_char c - 48)" for c
    unfolding digit_val_def using of_nat_of_char [of c, where 'a = int] by linarith
  then show ?thesis by (simp add: dec_int_def)
qed

lemma ParseInt_code [code]:
  "ParseInt s =
     (let neg = (s \<noteq> [] \<and> hd s = CHR ''-'');
          body = (if s \<noteq> [] \<and> (hd s = CHR ''-'' \<or> hd s = CHR ''+'') then tl s else s);
          n = dec_int body
      in if body = [] \<or> \<not> list_all is_digit body then (0, True)
         else if \<not> neg \<and> 2 ^ 63 \<le> n then (2 ^ 63 - 1, True)
         else if neg \<and> 2 ^ 63 < n then (- (2 ^ 63), True)
         else (if neg then - n else n, False))"
  by (simp add: ParseInt_def parse_digits_def Let_def flip: dec_int_val)

end
