(* ===== verification/Config.thy ===== *)
theory Config
  imports Go_Strings
begin

text \<open>
  \<open>internal/config/config.go\<close>: the configuration read from environment variables, its
  defaults and its checks, and the table of caller tokens.
\<close>

section \<open>Data\<close>

record OSConfig =
  oc_Endpoints :: "string list"
  oc_IndexName :: string
  oc_Username :: string
  oc_Password :: string
  oc_InsecureSkipVerify :: bool
  oc_MaxConns :: int
  oc_PITKeepAlive :: int

record MySQLConfig =
  mc_DSN :: string

record ConfigS3 =
  cs_Endpoint :: string
  cs_Bucket :: string
  cs_Region :: string
  cs_AccessKey :: string
  cs_SecretKey :: string
  cs_UsePathStyle :: bool
  cs_PresignTTL :: int
  cs_KeyPrefix :: string

text \<open>The map from tokens to callers is an association list without duplicate keys.\<close>

type_synonym tokens = "(string \<times> string) list"

record AuthConfig =
  ac_Enabled :: bool
  ac_CallerTokens :: tokens

record ExecConfig =
  xc_Workers :: int
  xc_QueueBuffer :: int
  xc_PartDecompressedMax :: int
  xc_PartMaxRows :: int

record ProtectConfig =
  pc_GlobalInflightMax :: int
  pc_SubmitWait :: int
  pc_MaxTaskHits :: int
  pc_PerChannelHardCap :: int

record GCConfig =
  gc_TaskRetentionDays :: int
  gc_AuditLocalPath :: string

record Config =
  cf_HTTPAddr :: string
  cf_DrainGraceMS :: int
  cf_OS :: OSConfig
  cf_MySQL :: MySQLConfig
  cf_S3 :: ConfigS3
  cf_Auth :: AuthConfig
  cf_Exec :: ExecConfig
  cf_Protect :: ProtectConfig
  cf_GC :: GCConfig

section \<open>Parsers of the standard library\<close>

text \<open>\<open>strconv.ParseBool\<close>, \<open>None\<close> for a syntax error.\<close>

definition ParseBool :: "string \<Rightarrow> bool option" where
  "ParseBool s =
     (if s \<in> set [''1'', ''t'', ''T'', ''true'', ''TRUE'', ''True''] then Some True
      else if s \<in> set [''0'', ''f'', ''F'', ''false'', ''FALSE'', ''False''] then Some False
      else None)"

text \<open>
  \<open>time.ParseDuration\<close>: an optional sign, then "0" or numbers with a unit each, in
  nanoseconds. A fraction is truncated; the library rounds through a \<open>float64\<close> there.
\<close>

definition unit_ns :: "string \<Rightarrow> int option" where
  "unit_ns u = map_of
     [(''ns'', 1), (''us'', 1000), ([CHR 0xC2, CHR 0xB5, CHR ''s''], 1000),
      ([CHR 0xCE, CHR 0xBC, CHR ''s''], 1000), (''ms'', 1000000), (''s'', 1000000000),
      (''m'', 60000000000), (''h'', 3600000000000)] u"

definition is_unit_char :: "char \<Rightarrow> bool" where
  "is_unit_char c \<longleftrightarrow> c \<noteq> CHR ''.'' \<and> \<not> is_digit c"

text \<open>One number with its unit: the nanoseconds and the rest.\<close>

definition duration_term :: "string \<Rightarrow> (int \<times> string) option" where
  "duration_term s =
     (let whole = takeWhile is_digit s;
          s1 = drop (length whole) s;
          frac = (if s1 \<noteq> [] \<and> hd s1 = CHR ''.'' then takeWhile is_digit (tl s1) else []);
          s2 = (if s1 \<noteq> [] \<and> hd s1 = CHR ''.'' then drop (length frac) (tl s1) else s1);
          u = takeWhile is_unit_char s2
      in if whole = [] \<and> frac = [] \<or> u = [] then None
         else case unit_ns u of
                None \<Rightarrow> None
              | Some n \<Rightarrow> Some (dec_int whole * n + dec_int frac * n div 10 ^ length frac,
                             drop (length u) s2))"

function duration_terms :: "string \<Rightarrow> int \<Rightarrow> int option" where
  "duration_terms s acc =
     (if s = [] then Some acc
      else case duration_term s of
             None \<Rightarrow> None
           | Some (n, r) \<Rightarrow>
               if length r < length s \<and> acc + n \<le> 2 ^ 63 then duration_terms r (acc + n) else None)"
  by pat_completeness auto
termination
  by (relation "measure (\<lambda>(s, acc). length s)") auto

declare duration_terms.simps [simp del]

definition ParseDuration :: "string \<Rightarrow> int option" where
  "ParseDuration s =
     (let neg = (s \<noteq> [] \<and> hd s = CHR ''-'');
          body = (if s \<noteq> [] \<and> (hd s = CHR ''-'' \<or> hd s = CHR ''+'') then tl s else s)
      in if body = ''0'' then Some 0
         else if body = [] then None
         else case duration_terms body 0 of
                None \<Rightarrow> None
              | Some d \<Rightarrow> if neg then Some (- d) else if d < 2 ^ 63 then Some d else None)"

section \<open>Environment\<close>

type_synonym env = "string \<Rightarrow> string option"

definition getEnv :: "env \<Rightarrow> string \<Rightarrow> string \<Rightarrow> string" where
  "getEnv env key def0 = (case env key of Some v \<Rightarrow> if v \<noteq> [] then v else def0 | None \<Rightarrow> def0)"

definition getEnvInt :: "env \<Rightarrow> string \<Rightarrow> int \<Rightarrow> int" where
  "getEnvInt env key def0 =
     (case env key of
        Some v \<Rightarrow>
          if v \<noteq> [] then (case ParseInt (TrimSpace v) of (n, e) \<Rightarrow> if e then def0 else n) else def0
      | None \<Rightarrow> def0)"

definition getEnvBool :: "env \<Rightarrow> string \<Rightarrow> bool \<Rightarrow> bool" where
  "getEnvBool env key def0 =
     (case env key of
        Some v \<Rightarrow>
          if v \<noteq> [] then (case ParseBool (TrimSpace v) of Some b \<Rightarrow> b | None \<Rightarrow> def0) else def0
      | None \<Rightarrow> def0)"

definition getEnvDuration :: "env \<Rightarrow> string \<Rightarrow> int \<Rightarrow> int" where
  "getEnvDuration env key def0 =
     (case env key of
        Some v \<Rightarrow>
          if v \<noteq> [] then (case ParseDuration (TrimSpace v) of Some d \<Rightarrow> d | None \<Rightarrow> def0) else def0
      | None \<Rightarrow> def0)"

definition splitCSV :: "string \<Rightarrow> string list" where
  "splitCSV raw = filter (\<lambda>s. s \<noteq> []) (map TrimSpace (split_on (CHR '','') raw))"

text \<open>\<open>out[k] = v\<close> on the association list.\<close>

definition put_token :: "string \<Rightarrow> string \<Rightarrow> tokens \<Rightarrow> tokens" where
  "put_token k v m = filter (\<lambda>p. fst p \<noteq> k) m @ [(k, v)]"

definition add_item :: "string \<Rightarrow> tokens \<Rightarrow> tokens" where
  "add_item item0 out =
     (let item = TrimSpace item0
      in if item = [] then out
         else case index_of (CHR ''='') item of
                Some i \<Rightarrow>
                  (let name0 = TrimSpace (take i item);
                       token = TrimSpace (drop (i + 1) item);
                       name = (if name0 = [] then ''default'' else name0)
                   in if token \<noteq> [] then put_token token name out else out)
              | None \<Rightarrow> put_token item ''default'' out)"

definition parseCallerTokens :: "string \<Rightarrow> tokens" where
  "parseCallerTokens raw = fold add_item (split_on (CHR '','') raw) []"

section \<open>Loading\<close>

text \<open>The seconds of a setting as a duration; the product wraps at 64 bits.\<close>

definition seconds :: "int \<Rightarrow> int" where
  "seconds n = i64 (n * 1000000000)"

definition read_config :: "env \<Rightarrow> Config" where
  "read_config env =
     \<lparr>cf_HTTPAddr = getEnv env ''HTTP_ADDR'' '':8080'',
      cf_DrainGraceMS = getEnvInt env ''DRAIN_GRACE_MS'' 5000,
      cf_OS = \<lparr>oc_Endpoints = splitCSV (getEnv env ''OS_ENDPOINTS'' []),
               oc_IndexName = getEnv env ''OS_INDEX_NAME'' ''messages'',
               oc_Username = getEnv env ''OS_USERNAME'' [],
               oc_Password = getEnv env ''OS_PASSWORD'' [],
               oc_InsecureSkipVerify = getEnvBool env ''OS_INSECURE_SKIP_VERIFY'' False,
               oc_MaxConns = getEnvInt env ''OS_MAX_CONNS'' 200,
               oc_PITKeepAlive = getEnvDuration env ''PIT_KEEP_ALIVE'' (5 * 60000000000)\<rparr>,
      cf_MySQL = \<lparr>mc_DSN = getEnv env ''MYSQL_DSN'' []\<rparr>,
      cf_S3 = \<lparr>cs_Endpoint = getEnv env ''S3_ENDPOINT'' [],
               cs_Bucket = getEnv env ''S3_BUCKET'' [],
               cs_Region = getEnv env ''S3_REGION'' [],
               cs_AccessKey = getEnv env ''S3_ACCESS_KEY'' [],
               cs_SecretKey = getEnv env ''S3_SECRET_KEY'' [],
               cs_UsePathStyle = getEnvBool env ''S3_USE_PATH_STYLE'' False,
               cs_PresignTTL = seconds (getEnvInt env ''S3_PRESIGN_TTL_SEC'' 3600),
               cs_KeyPrefix = getEnv env ''S3_KEY_PREFIX'' []\<rparr>,
      cf_Auth = \<lparr>ac_Enabled = getEnvBool env ''AUTH_ENABLED'' True,
                 ac_CallerTokens = parseCallerTokens (getEnv env ''AUTH_S2S_TOKENS'' [])\<rparr>,
      cf_Exec = \<lparr>xc_Workers = getEnvInt env ''EXECUTOR_WORKERS'' 16,
                 xc_QueueBuffer = getEnvInt env ''EXECUTOR_QUEUE_BUFFER'' 50,
                 xc_PartDecompressedMax = getEnvInt env ''PART_DECOMPRESSED_MAX_BYTES'' 524288000,
                 xc_PartMaxRows = getEnvInt env ''PART_MAX_ROWS'' 30000\<rparr>,
      cf_Protect = \<lparr>pc_GlobalInflightMax = getEnvInt env ''PROTECT_GLOBAL_INFLIGHT_MAX'' 50,
                    pc_SubmitWait = seconds (getEnvInt env ''PROTECT_SUBMIT_WAIT_SEC'' 10),
                    pc_MaxTaskHits = getEnvInt env ''PROTECT_MAX_TASK_HITS'' 300000,
                    pc_PerChannelHardCap = getEnvInt env ''PER_CHANNEL_HARD_CAP'' 100000\<rparr>,
      cf_GC = \<lparr>gc_TaskRetentionDays = getEnvInt env ''TASK_RETENTION_DAYS'' 7,
               gc_AuditLocalPath = getEnv env ''AUDIT_LOCAL_PATH''
                 ''/var/log/octo-message-export-api/audit.jsonl''\<rparr>\<rparr>"

text \<open>The message of the first failed check.\<close>

definition Config_validate :: "Config \<Rightarrow> string option" where
  "Config_validate c =
     (if oc_Endpoints (cf_OS c) = [] then Some ''OS_ENDPOINTS is required''
      else if mc_DSN (cf_MySQL c) = [] then Some ''MYSQL_DSN is required''
      else if cs_Bucket (cf_S3 c) = [] then Some ''S3_BUCKET is required''
      else if cs_KeyPrefix (cf_S3 c) = [] then Some ''S3_KEY_PREFIX is required''
      else if ac_Enabled (cf_Auth c) \<and> ac_CallerTokens (cf_Auth c) = []
      then Some ''AUTH_S2S_TOKENS is required when AUTH_ENABLED=true''
      else if xc_Workers (cf_Exec c) \<le> 0 then Some ''EXECUTOR_WORKERS must be > 0''
      else None)"

definition Load :: "env \<Rightarrow> string + Config" where
  "Load env =
     (let c = read_config env
      in case Config_validate c of Some e \<Rightarrow> Inl e | None \<Rightarrow> Inr c)"

section \<open>Caller tokens\<close>

text \<open>The table never holds the empty token, nor an empty caller.\<close>

definition tokens_ok :: "tokens \<Rightarrow> bool" where
  "tokens_ok m \<longleftrightarrow> distinct (map fst m) \<and> (\<forall>(k, v) \<in> set m. k \<noteq> [] \<and> v \<noteq> [])"

lemma put_token_ok: "tokens_ok m \<Longrightarrow> k \<noteq> [] \<Longrightarrow> v \<noteq> [] \<Longrightarrow> tokens_ok (put_token k v m)"
  by (auto simp: tokens_ok_def put_token_def distinct_map_filter)

lemma add_item_ok: "tokens_ok m \<Longrightarrow> tokens_ok (add_item item m)"
  by (auto simp: add_item_def Let_def put_token_ok split: option.splits)

lemma parseCallerTokens_ok: "tokens_ok (parseCallerTokens raw)"
proof -
  have "tokens_ok m \<Longrightarrow> tokens_ok (fold add_item items m)" for items m
    by (induction items arbitrary: m) (simp_all add: add_item_ok)
  moreover have "tokens_ok []" by (simp add: tokens_ok_def)
  ultimately show ?thesis by (simp add: parseCallerTokens_def)
qed

lemma map_of_put_token: "map_of (put_token k v m) = (map_of m)(k \<mapsto> v)"
  by (induction m) (auto simp: put_token_def fun_eq_iff map_add_def split: option.splits)

text \<open>
  Reading back a list of callers written in the documented format gives each token its
  caller, the last one for a token that occurs twice.
\<close>

definition plain :: "string \<Rightarrow> bool" where
  "plain s \<longleftrightarrow> s \<noteq> [] \<and> no_margin s \<and> CHR '','' \<notin> set s"

definition show_tokens :: "(string \<times> string) list \<Rightarrow> string" where
  "show_tokens xs = join_with (CHR '','') (map (\<lambda>(n, t). n @ ''='' @ t) xs)"

lemma prefix_before: "prefix w (n @ c # t) \<Longrightarrow> c \<notin> set w \<Longrightarrow> prefix w n"
proof (induction w arbitrary: n)
  case Nil
  then show ?case by simp
next
  case (Cons x w)
  show ?case
  proof (cases n)
    case Nil
    with Cons.prems show ?thesis by simp
  next
    case (Cons y n')
    with Cons.prems Cons.IH [of n'] show ?thesis by simp
  qed
qed

lemma white_space_no_eq: "w \<in> set white_space \<Longrightarrow> CHR ''='' \<notin> set w"
proof -
  have "list_all (\<lambda>w. list_all (\<lambda>c. c \<noteq> CHR ''='') w) white_space" by code_simp
  then show "w \<in> set white_space \<Longrightarrow> CHR ''='' \<notin> set w" by (auto simp: list_all_iff)
qed

lemma no_margin_eq: "no_margin n \<Longrightarrow> no_margin t \<Longrightarrow> no_margin (n @ CHR ''='' # t)"
proof -
  assume a: "no_margin n" "no_margin t"
  have "\<not> prefix w (n @ CHR ''='' # t) \<and> \<not> suffix w (n @ CHR ''='' # t)" if w: "w \<in> set white_space" for w
  proof
    show "\<not> prefix w (n @ CHR ''='' # t)"
      using prefix_before [of w n "CHR ''=''" t] white_space_no_eq [OF w] a(1) w
      by (auto simp: no_margin_def list_all_iff)
    have "prefix (rev w) (rev t @ CHR ''='' # rev n) \<Longrightarrow> prefix (rev w) (rev t)"
      using prefix_before [of "rev w" "rev t" "CHR ''=''" "rev n"] white_space_no_eq [OF w] by simp
    then show "\<not> suffix w (n @ CHR ''='' # t)"
      using a(2) w by (auto simp: suffix_to_prefix no_margin_def list_all_iff)
  qed
  then show ?thesis by (simp add: no_margin_def list_all_iff)
qed

lemma add_item_pair:
  assumes "plain n" and "plain t" and "CHR ''='' \<notin> set n"
  shows "add_item (n @ CHR ''='' # t) out = put_token t n out"
proof -
  have "TrimSpace (n @ CHR ''='' # t) = n @ CHR ''='' # t"
    using assms by (intro TrimSpace_id no_margin_eq) (simp_all add: plain_def)
  moreover have "TrimSpace n = n" "TrimSpace t = t" "n \<noteq> []" "t \<noteq> []"
    using assms by (simp_all add: plain_def TrimSpace_id)
  ultimately show ?thesis
    using assms(3) by (simp add: add_item_def index_of_append Let_def)
qed

lemma parse_show_tokens:
  assumes "xs \<noteq> []" and "list_all (\<lambda>(n, t). plain n \<and> plain t \<and> CHR ''='' \<notin> set n) xs"
  shows "map_of (parseCallerTokens (show_tokens xs)) = map_of (rev (map (\<lambda>(n, t). (t, n)) xs))"
proof -
  let ?item = "\<lambda>(n, t). n @ ''='' @ t"
  have "list_all (\<lambda>w. CHR '','' \<notin> set w) (map ?item xs)"
    using assms(2) by (auto simp: list_all_iff plain_def)
  then have sp: "split_on (CHR '','') (show_tokens xs) = map ?item xs"
    using assms(1) by (simp add: show_tokens_def split_join)
  have "fold add_item (map ?item xs) m = fold (\<lambda>(n, t). put_token t n) xs m" for m
    using assms(2) by (induction xs arbitrary: m) (auto simp: add_item_pair)
  moreover have "map_of (fold (\<lambda>(n, t). put_token t n) xs m)
      = map_of m ++ map_of (rev (map (\<lambda>(n, t). (t, n)) xs))" for m
    by (induction xs arbitrary: m) (auto simp: map_of_put_token fun_eq_iff map_add_def split: option.splits)
  ultimately show ?thesis by (simp add: parseCallerTokens_def sp)
qed

lemma Load_ok:
  assumes "Load env = Inr c"
  shows "oc_Endpoints (cf_OS c) \<noteq> [] \<and> mc_DSN (cf_MySQL c) \<noteq> [] \<and> cs_Bucket (cf_S3 c) \<noteq> [] \<and>
    cs_KeyPrefix (cf_S3 c) \<noteq> [] \<and> 0 < xc_Workers (cf_Exec c) \<and>
    (ac_Enabled (cf_Auth c) \<longrightarrow> ac_CallerTokens (cf_Auth c) \<noteq> []) \<and>
    tokens_ok (ac_CallerTokens (cf_Auth c))"
proof -
  have "c = read_config env" and "Config_validate c = None"
    using assms by (auto simp: Load_def Let_def split: option.splits)
  then show ?thesis
    using parseCallerTokens_ok
    by (auto simp: Config_validate_def read_config_def split: if_splits)
qed

end
