(* ===== verification/Go_Json.thy ===== *)
theory Go_Json
  imports Complex_Main Go_Strings
begin

text \<open>
  What the sources use of \<open>encoding/json\<close>: the dynamic values of type \<open>any\<close> that decoding
  yields, the lookups and type assertions made on them, and the string encoder with its HTML
  and invalid-UTF-8 escapes. A reference decoder for encoded strings is given to state the
  round trip; it is not part of the program.
\<close>

section \<open>Dynamic values\<close>

text \<open>
  The values an \<open>any\<close> can hold in this program. A \<open>map[string]any\<close> is an association list
  read with \<open>map_of\<close>; a decoded number is its source text (\<open>json.Number\<close>), because the
  decoder runs with \<open>UseNumber\<close>. A finite \<open>float64\<close> is its rational value.
\<close>

datatype gval =
    GNil
  | GBool bool
  | GFloat64 rat
  | GInt int
  | GInt64 int
  | GNumber string
  | GString string
  | GSlice "gval list"
  | GMap "(string \<times> gval) list"

type_synonym gmap = "(string \<times> gval) list"

text \<open>\<open>m[key]\<close> on a map: the zero value nil when the key is missing.\<close>

definition gget :: "gmap \<Rightarrow> string \<Rightarrow> gval" where
  "gget m k = (case map_of m k of None \<Rightarrow> GNil | Some v \<Rightarrow> v)"

text \<open>The type assertions \<open>v.(map[string]any)\<close> and \<open>v.(string)\<close> in their comma-ok form.\<close>

fun as_map :: "gval \<Rightarrow> gmap option" where
  "as_map (GMap m) = Some m"
| "as_map _ = None"

fun as_string :: "gval \<Rightarrow> string option" where
  "as_string (GString s) = Some s"
| "as_string _ = None"

text \<open>
  The conversion \<open>int64(x)\<close> of a \<open>float64\<close>: truncation towards zero; out of range the Go
  specification leaves the value to the implementation, and the 64-bit Intel code generator
  gives the least integer.
\<close>

definition float_to_i64 :: "rat \<Rightarrow> int" where
  "float_to_i64 x =
     (let t = (if 0 \<le> x then \<lfloor>x\<rfloor> else \<lceil>x\<rceil>)
      in if in_i64 t then t else - (2 ^ 63))"

section \<open>UTF-8\<close>

definition byte_in :: "nat \<Rightarrow> nat \<Rightarrow> char \<Rightarrow> bool" where
  "byte_in lo hi c \<longleftrightarrow> lo \<le> (of_char c :: nat) \<and> (of_char c :: nat) \<le> hi"

text \<open>The well-formed byte sequences of two, three and four bytes.\<close>

definition two_bytes :: "char \<Rightarrow> char \<Rightarrow> bool" where
  "two_bytes a b \<longleftrightarrow> byte_in 194 223 a \<and> byte_in 128 191 b"

definition three_bytes :: "char \<Rightarrow> char \<Rightarrow> char \<Rightarrow> bool" where
  "three_bytes a b c \<longleftrightarrow>
     (byte_in 224 224 a \<and> byte_in 160 191 b
      \<or> (byte_in 225 236 a \<or> byte_in 238 239 a) \<and> byte_in 128 191 b
      \<or> byte_in 237 237 a \<and> byte_in 128 159 b) \<and> byte_in 128 191 c"

definition four_bytes :: "char \<Rightarrow> char \<Rightarrow> char \<Rightarrow> char \<Rightarrow> bool" where
  "four_bytes a b c d \<longleftrightarrow>
     (byte_in 240 240 a \<and> byte_in 144 191 b
      \<or> byte_in 241 243 a \<and> byte_in 128 191 b
      \<or> byte_in 244 244 a \<and> byte_in 128 143 b) \<and> byte_in 128 191 c \<and> byte_in 128 191 d"

text \<open>
  The length of the well-formed multi-byte rune at the head of a byte sequence, 0 where
  \<open>utf8.DecodeRuneInString\<close> reports an invalid encoding.
\<close>

fun rune_size :: "string \<Rightarrow> nat" where
  "rune_size (a # b # cs) =
     (if two_bytes a b then 2
      else (case cs of
              [] \<Rightarrow> 0
            | c # ds \<Rightarrow>
                if three_bytes a b c then 3
                else (case ds of
                        [] \<Rightarrow> 0
                      | d # _ \<Rightarrow> if four_bytes a b c d then 4 else 0)))"
| "rune_size _ = 0"

definition ascii :: "char \<Rightarrow> bool" where
  "ascii c \<longleftrightarrow> (of_char c :: nat) < 128"

lemma ascii_code [code]: "ascii c \<longleftrightarrow> (of_char c :: int) < 128"
  by (simp add: ascii_def of_char_le)

text \<open>A reading of a byte sequence as runes: each item is one ASCII byte, one well-formed
  multi-byte rune, or one invalid byte.\<close>

datatype rune = RAscii char | RMulti string | RBad

function runes :: "string \<Rightarrow> rune list" where
  "runes [] = []"
| "runes (c # cs) =
     (if ascii c then RAscii c # runes cs
      else if rune_size (c # cs) = 0 then RBad # runes cs
      else RMulti (take (rune_size (c # cs)) (c # cs))
             # runes (drop (rune_size (c # cs) - 1) cs))"
  by pat_completeness auto
termination
  by (relation "measure length") auto

definition valid_utf8 :: "string \<Rightarrow> bool" where
  "valid_utf8 s \<longleftrightarrow> RBad \<notin> set (runes s)"

section \<open>Encoding a string\<close>

definition bs :: char where "bs = CHR 0x5C"
definition dq :: char where "dq = CHR 0x22"
definition lf :: char where "lf = CHR 0x0A"

definition hex_digit :: "nat \<Rightarrow> char" where
  "hex_digit n = (if n < 10 then char_of (48 + n) else char_of (87 + n))"

text \<open>\<open>appendString\<close> of \<open>encoding/json\<close> with HTML escaping on, as \<open>json.Marshal\<close> runs it.\<close>

definition escape_ascii :: "char \<Rightarrow> string" where
  "escape_ascii c =
     (let n = (of_char c :: nat) in
      if c = bs \<or> c = dq then [bs, c]
      else if c = CHR 0x08 then [bs, CHR ''b'']
      else if c = CHR 0x0C then [bs, CHR ''f'']
      else if c = CHR 0x0A then [bs, CHR ''n'']
      else if c = CHR 0x0D then [bs, CHR ''r'']
      else if c = CHR 0x09 then [bs, CHR ''t'']
      else if n < 32 \<or> c = CHR ''<'' \<or> c = CHR ''>'' \<or> c = CHR ''&''
        then [bs, CHR ''u'', CHR ''0'', CHR ''0'', hex_digit (n div 16), hex_digit (n mod 16)]
      else [c])"

lemma escape_ascii_code [code]:
  "escape_ascii c =
     (if c = bs \<or> c = dq then [bs, c]
      else if c = CHR 0x08 then [bs, CHR ''b'']
      else if c = CHR 0x0C then [bs, CHR ''f'']
      else if c = CHR 0x0A then [bs, CHR ''n'']
      else if c = CHR 0x0D then [bs, CHR ''r'']
      else if c = CHR 0x09 then [bs, CHR ''t'']
      else if (of_char c :: int) < 32 \<or> c = CHR ''<'' \<or> c = CHR ''>'' \<or> c = CHR ''&''
        then [bs, CHR ''u'', CHR ''0'', CHR ''0'', hex_digit (of_char c div 16), hex_digit (of_char c mod 16)]
      else [c])"
  by (simp add: escape_ascii_def Let_def of_char_le)

fun escape_rune :: "rune \<Rightarrow> string" where
  "escape_rune (RAscii c) = escape_ascii c"
| "escape_rune RBad = bs # ''ufffd''"
| "escape_rune (RMulti w) =
     (if w = [CHR 0xE2, CHR 0x80, CHR 0xA8] then bs # ''u2028''
      else if w = [CHR 0xE2, CHR 0x80, CHR 0xA9] then bs # ''u2029''
      else w)"

definition json_escape :: "string \<Rightarrow> string" where
  "json_escape s = concat (map escape_rune (runes s))"

definition json_string :: "string \<Rightarrow> string" where
  "json_string s = dq # json_escape s @ [dq]"


section \<open>A reference decoder\<close>

definition hex_val :: "char \<Rightarrow> nat option" where
  "hex_val c =
     (let n = (of_char c :: nat) in
      if 48 \<le> n \<and> n \<le> 57 then Some (n - 48)
      else if 97 \<le> n \<and> n \<le> 102 then Some (n - 87)
      else if 65 \<le> n \<and> n \<le> 70 then Some (n - 55)
      else None)"

definition utf8_encode :: "nat \<Rightarrow> string" where
  "utf8_encode n =
     (if n < 128 then [char_of n]
      else if n < 2048 then [char_of (192 + n div 64), char_of (128 + n mod 64)]
      else [char_of (224 + n div 4096), char_of (128 + n div 64 mod 64), char_of (128 + n mod 64)])"

text \<open>The text after a backslash: the bytes it stands for and what follows.\<close>

fun decode_esc :: "string \<Rightarrow> (string \<times> string) option" where
  "decode_esc (c # cs) =
     (if c = bs \<or> c = dq \<or> c = CHR ''/'' then Some ([c], cs)
      else if c = CHR ''b'' then Some ([CHR 0x08], cs)
      else if c = CHR ''f'' then Some ([CHR 0x0C], cs)
      else if c = CHR ''n'' then Some ([CHR 0x0A], cs)
      else if c = CHR ''r'' then Some ([CHR 0x0D], cs)
      else if c = CHR ''t'' then Some ([CHR 0x09], cs)
      else if c = CHR ''u'' then
        (case cs of
           h1 # h2 # h3 # h4 # r \<Rightarrow>
             (case (hex_val h1, hex_val h2, hex_val h3, hex_val h4) of
                (Some a, Some b, Some c, Some d) \<Rightarrow>
                  Some (utf8_encode (4096 * a + 256 * b + 16 * c + d), r)
              | _ \<Rightarrow> None)
         | _ \<Rightarrow> None)
      else None)"
| "decode_esc [] = None"

lemma decode_esc_shorter: "decode_esc cs = Some (w, r) \<Longrightarrow> length r < length cs"
  by (cases cs) (auto split: if_splits list.splits option.splits)

text \<open>\<open>unquote\<close> reads up to the closing quote: the decoded text and what follows the quote.\<close>

function unquote :: "string \<Rightarrow> (string \<times> string) option" where
  "unquote [] = None"
| "unquote (c # cs) =
     (if c = dq then Some ([], cs)
      else if c = bs then
        (case decode_esc cs of
           None \<Rightarrow> None
         | Some (w, r) \<Rightarrow> map_option (\<lambda>(t, r'). (w @ t, r')) (unquote r))
      else map_option (\<lambda>(t, r'). (c # t, r')) (unquote cs))"
  by pat_completeness auto
termination
  by (relation "measure length") (auto dest: decode_esc_shorter)

text \<open>What a rune stands for after encoding: an invalid byte becomes U+FFFD.\<close>

fun rune_text :: "rune \<Rightarrow> string" where
  "rune_text (RAscii c) = [c]"
| "rune_text (RMulti w) = w"
| "rune_text RBad = [CHR 0xEF, CHR 0xBF, CHR 0xBD]"

definition to_valid :: "string \<Rightarrow> string" where
  "to_valid s = concat (map rune_text (runes s))"

fun wf_rune :: "rune \<Rightarrow> bool" where
  "wf_rune (RAscii c) = ascii c"
| "wf_rune (RMulti w) = (\<forall>c \<in> set w. \<not> ascii c)"
| "wf_rune RBad = True"

lemma byte_in_not_ascii: "byte_in lo hi c \<Longrightarrow> 128 \<le> lo \<Longrightarrow> \<not> ascii c"
  by (auto simp: byte_in_def ascii_def)

lemma two_bytes_high: "two_bytes a b \<Longrightarrow> \<not> ascii a \<and> \<not> ascii b"
  by (auto simp: two_bytes_def dest: byte_in_not_ascii)

lemma three_bytes_high: "three_bytes a b c \<Longrightarrow> \<not> ascii a \<and> \<not> ascii b \<and> \<not> ascii c"
  by (auto simp: three_bytes_def dest: byte_in_not_ascii)

lemma four_bytes_high:
  "four_bytes a b c d \<Longrightarrow> \<not> ascii a \<and> \<not> ascii b \<and> \<not> ascii c \<and> \<not> ascii d"
  by (auto simp: four_bytes_def dest: byte_in_not_ascii)

lemma rune_size_bytes:
  "set (take (rune_size s) s) \<subseteq> {c. \<not> ascii c} \<and> rune_size s \<le> length s"
  by (cases s rule: rune_size.cases)
    (auto split: list.splits dest: two_bytes_high three_bytes_high four_bytes_high
      simp: numeral_2_eq_2 numeral_3_eq_3 numeral_eq_Suc)

lemma runes_wf: "r \<in> set (runes s) \<Longrightarrow> wf_rune r"
proof (induction s arbitrary: r rule: runes.induct)
  case 1
  then show ?case by simp
next
  case (2 c cs)
  then show ?case
    using rune_size_bytes [of "c # cs"] by (auto split: if_splits)
qed

lemma to_valid_id: "valid_utf8 s \<Longrightarrow> to_valid s = s"
proof (induction s rule: runes.induct)
  case 1
  then show ?case by (simp add: to_valid_def)
next
  case (2 c cs)
  show ?case
  proof (cases "ascii c")
    case True
    with 2 show ?thesis by (simp add: to_valid_def valid_utf8_def)
  next
    case False
    with "2.prems" have n: "rune_size (c # cs) \<noteq> 0" by (auto simp: valid_utf8_def split: if_splits)
    let ?d = "drop (rune_size (c # cs) - 1) cs"
    have "to_valid ?d = ?d" using 2 False n by (simp add: valid_utf8_def)
    then have "to_valid (c # cs) = take (rune_size (c # cs)) (c # cs) @ ?d"
      using False n by (simp add: to_valid_def)
    also have "?d = drop (rune_size (c # cs)) (c # cs)"
      using n by (cases "rune_size (c # cs)") auto
    finally show ?thesis by simp
  qed
qed

subsection \<open>The round trip\<close>

lemma hex_val_digit: "k < 16 \<Longrightarrow> hex_val (hex_digit k) = Some k"
  by (auto simp: hex_val_def hex_digit_def Let_def)

lemma escape_ascii_cases:
  assumes "ascii c"
  shows "escape_ascii c = [c] \<and> c \<noteq> dq \<and> c \<noteq> bs \<and> c \<noteq> lf
    \<or> (\<exists>e. escape_ascii c = bs # e \<and> lf \<notin> set e \<and> (\<forall>r. decode_esc (e @ r) = Some ([c], r)))"
proof -
  let ?n = "of_char c :: nat"
  have n: "?n < 128" using assms by (simp add: ascii_def)
  let ?html = "c = CHR ''<'' \<or> c = CHR ''>'' \<or> c = CHR ''&''"
  consider (quoted) "c = bs \<or> c = dq" | (short) "c \<in> {CHR 0x08, CHR 0x09, CHR 0x0A, CHR 0x0C, CHR 0x0D}"
    | (hex) "c \<noteq> bs \<and> c \<noteq> dq \<and> c \<notin> {CHR 0x08, CHR 0x09, CHR 0x0A, CHR 0x0C, CHR 0x0D} \<and> (?n < 32 \<or> ?html)"
    | (plain) "c \<noteq> bs \<and> c \<noteq> dq \<and> 32 \<le> ?n \<and> \<not> ?html"
    by fastforce
  then show ?thesis
  proof cases
    case quoted
    then show ?thesis by (auto simp: escape_ascii_def bs_def dq_def lf_def)
  next
    case short
    then show ?thesis by (auto simp: escape_ascii_def bs_def dq_def lf_def)
  next
    case hex
    let ?e = "[CHR ''u'', CHR ''0'', CHR ''0'', hex_digit (?n div 16), hex_digit (?n mod 16)]"
    have esc: "escape_ascii c = bs # ?e"
      using hex by (auto simp: escape_ascii_def Let_def)
    have hx: "hex_val (hex_digit (?n div 16)) = Some (?n div 16)"
      "hex_val (hex_digit (?n mod 16)) = Some (?n mod 16)"
      using n by (simp_all add: hex_val_digit)
    have z: "hex_val (CHR ''0'') = Some 0" by (simp add: hex_val_def)
    have "decode_esc (?e @ r) = Some ([c], r)" for r
      using hx z n by (simp add: bs_def dq_def utf8_encode_def)
    moreover have "lf \<notin> set ?e"
    proof -
      have "hex_digit k \<noteq> lf" if "k < 16" for k
        using hex_val_digit [OF that] by (auto simp: lf_def hex_val_def)
      moreover have "?n div 16 < 16" "?n mod 16 < 16" using n by arith+
      ultimately have "hex_digit (?n div 16) \<noteq> lf \<and> hex_digit (?n mod 16) \<noteq> lf" by simp
      then show ?thesis by (auto simp: lf_def)
    qed
    ultimately show ?thesis using esc by blast
  next
    case plain
    then have "\<forall>d. (of_char d :: nat) < 32 \<longrightarrow> c \<noteq> d" by auto
    then have ctl: "c \<noteq> CHR 0x08" "c \<noteq> CHR 0x09" "c \<noteq> CHR 0x0A" "c \<noteq> CHR 0x0C" "c \<noteq> CHR 0x0D"
      by simp_all
    with plain have "escape_ascii c = [c]" by (simp add: escape_ascii_def Let_def)
    moreover have "c \<noteq> lf" using ctl by (simp add: lf_def)
    ultimately show ?thesis using plain by blast
  qed
qed

lemma unquote_plain: "(\<forall>c \<in> set w. \<not> ascii c) \<Longrightarrow>
    unquote (w @ s) = map_option (\<lambda>(t, r). (w @ t, r)) (unquote s)"
proof (induction w)
  case Nil
  then show ?case by (cases "unquote s") auto
next
  case (Cons c w)
  then have "c \<noteq> dq" "c \<noteq> bs" by (auto simp: ascii_def dq_def bs_def)
  with Cons show ?case by (cases "unquote s") auto
qed

lemma CHR_E2_80:
  "char_of (226::nat) = CHR 0xE2" "char_of (128::nat) = CHR 0x80"
  "char_of (168::nat) = CHR 0xA8" "char_of (169::nat) = CHR 0xA9"
  "char_of (239::nat) = CHR 0xEF" "char_of (191::nat) = CHR 0xBF" "char_of (189::nat) = CHR 0xBD"
  by code_simp+

lemma unquote_escape_rune:
  assumes "wf_rune r"
  shows "unquote (escape_rune r @ s) = map_option (\<lambda>(t, q). (rune_text r @ t, q)) (unquote s)"
proof (cases r)
  case (RAscii c)
  with assms escape_ascii_cases [of c] show ?thesis
    by (auto simp: dq_def bs_def)
next
  case (RMulti w)
  show ?thesis
  proof (cases "w = [CHR 0xE2, CHR 0x80, CHR 0xA8] \<or> w = [CHR 0xE2, CHR 0x80, CHR 0xA9]")
    case True
    with RMulti show ?thesis
      by (auto simp: bs_def dq_def hex_val_def utf8_encode_def CHR_E2_80)
  next
    case False
    with RMulti assms show ?thesis by (simp add: unquote_plain)
  qed
next
  case RBad
  then show ?thesis by (simp add: bs_def dq_def hex_val_def utf8_encode_def CHR_E2_80)
qed

lemma unquote_escape_runes:
  "\<forall>r \<in> set rs. wf_rune r \<Longrightarrow>
   unquote (concat (map escape_rune rs) @ dq # s) = Some (concat (map rune_text rs), s)"
proof (induction rs)
  case Nil
  then show ?case by simp
next
  case (Cons r rs)
  then show ?case
    using unquote_escape_rune [of r "concat (map escape_rune rs) @ dq # s"] by simp
qed

lemma unquote_json_escape: "unquote (json_escape t @ dq # s) = Some (to_valid t, s)"
  using unquote_escape_runes [of "runes t" s] runes_wf by (simp add: json_escape_def to_valid_def)

text \<open>An encoded string has no line feed: the property NDJSON framing rests on.\<close>

lemma escape_rune_no_lf: "wf_rune r \<Longrightarrow> lf \<notin> set (escape_rune r)"
proof (cases r)
  case (RAscii c)
  assume "wf_rune r"
  with RAscii escape_ascii_cases [of c] show ?thesis by (auto simp: bs_def lf_def)
next
  case (RMulti w)
  assume "wf_rune r"
  with RMulti show ?thesis by (auto simp: ascii_def lf_def bs_def)
next
  case RBad
  then show ?thesis by (simp add: bs_def lf_def)
qed

lemma json_string_no_lf: "lf \<notin> set (json_string s)"
proof -
  have "lf \<notin> set (json_escape s)"
    using runes_wf escape_rune_no_lf by (fastforce simp: json_escape_def)
  then show ?thesis by (simp add: json_string_def dq_def lf_def)
qed

text \<open>A field name of a struct as the encoder writes it.\<close>

definition json_key :: "string \<Rightarrow> string" where
  "json_key k = dq # k @ [dq, CHR '':'']"

section \<open>Decoding into a struct\<close>

text \<open>A missing or null field keeps its zero value, a field of the
  wrong JSON type is an error.\<close>

fun string_field :: "gval \<Rightarrow> string option" where
  "string_field (GString s) = Some s"
| "string_field GNil = Some []"
| "string_field _ = None"

fun int_field :: "gval \<Rightarrow> int option" where
  "int_field (GNumber s) = (case ParseInt s of (n, e) \<Rightarrow> if e then None else Some n)"
| "int_field GNil = Some 0"
| "int_field _ = None"

fun all_some :: "'a option list \<Rightarrow> 'a list option" where
  "all_some [] = Some []"
| "all_some (None # _) = None"
| "all_some (Some x # xs) = map_option ((#) x) (all_some xs)"

fun list_field :: "(gval \<Rightarrow> 'a option) \<Rightarrow> gval \<Rightarrow> 'a list option" where
  "list_field f (GSlice vs) = all_some (map f vs)"
| "list_field f GNil = Some []"
| "list_field f _ = None"

fun map_field :: "gval \<Rightarrow> gmap option" where
  "map_field (GMap m) = Some m"
| "map_field GNil = Some []"
| "map_field _ = None"

lemma all_some_map: "list_all (\<lambda>x. f (g x) = Some x) xs \<Longrightarrow> all_some (map f (map g xs)) = Some xs"
  by (induction xs) auto

lemma all_some_total: "list_all (\<lambda>v. f v \<noteq> None) vs \<Longrightarrow> all_some (map f vs) \<noteq> None"
  by (induction vs) auto

end
