(* ===== verification/Domain_Types.thy ===== *)
theory Domain_Types
  imports Go_Json
begin

text \<open>
  The domain types of \<open>internal/store/types.go\<close>: the task status with its string form and
  its terminal test, the query scope, the truncation warnings, and the task and part rows.
  Record fields carry a prefix naming their struct.
\<close>

section \<open>Task status\<close>

text \<open>
  \<open>Status\<close> is an \<open>int8\<close> with six named values; a value read back from the database could be
  any other, which \<open>StatusOther\<close> stands for.
\<close>

datatype Status =
    StatusQueued
  | StatusRunning
  | StatusCompleted
  | StatusPartial
  | StatusFailed
  | StatusCancelled
  | StatusOther int

text \<open>The conversions \<open>int8(status)\<close> and \<open>Status(st)\<close>.\<close>

fun status_int8 :: "Status \<Rightarrow> int" where
  "status_int8 StatusQueued = 0"
| "status_int8 StatusRunning = 1"
| "status_int8 StatusCompleted = 2"
| "status_int8 StatusPartial = 3"
| "status_int8 StatusFailed = 4"
| "status_int8 StatusCancelled = 5"
| "status_int8 (StatusOther n) = n"

definition int8_status :: "int \<Rightarrow> Status" where
  "int8_status n =
     (if n = 0 then StatusQueued else if n = 1 then StatusRunning
      else if n = 2 then StatusCompleted else if n = 3 then StatusPartial
      else if n = 4 then StatusFailed else if n = 5 then StatusCancelled
      else StatusOther n)"

fun Status_String :: "Status \<Rightarrow> string" where
  "Status_String StatusQueued = ''queued''"
| "Status_String StatusRunning = ''running''"
| "Status_String StatusCompleted = ''completed''"
| "Status_String StatusPartial = ''partial''"
| "Status_String StatusFailed = ''failed''"
| "Status_String StatusCancelled = ''cancelled''"
| "Status_String (StatusOther _) = ''unknown''"

fun IsTerminal :: "Status \<Rightarrow> bool" where
  "IsTerminal StatusCompleted = True"
| "IsTerminal StatusPartial = True"
| "IsTerminal StatusFailed = True"
| "IsTerminal StatusCancelled = True"
| "IsTerminal _ = False"

text \<open>The values the program itself ever writes.\<close>

fun named_status :: "Status \<Rightarrow> bool" where
  "named_status (StatusOther _) = False"
| "named_status _ = True"

lemma int8_status_int8: "named_status s \<Longrightarrow> int8_status (status_int8 s) = s"
  by (cases s) (auto simp: int8_status_def)

lemma status_int8_inject:
  "named_status s \<Longrightarrow> named_status t \<Longrightarrow> status_int8 s = status_int8 t \<longleftrightarrow> s = t"
  by (cases s; cases t) auto

lemma terminal_named: "IsTerminal s \<Longrightarrow> named_status s"
  by (cases s) auto

lemma not_terminal_cases:
  "named_status s \<Longrightarrow> \<not> IsTerminal s \<longleftrightarrow> s = StatusQueued \<or> s = StatusRunning"
  by (cases s) auto

section \<open>Query scope\<close>

record Channel =
  ch_ChannelID :: string

record Scope =
  sc_Channels :: "Channel list"

record TimeRange =
  tr_StartTS :: int
  tr_EndTS :: int

section \<open>Warnings\<close>

record Warning =
  wn_ChannelID :: string
  wn_Code :: string
  wn_Limit :: int
  wn_ActualSeen :: int

definition WarnPerChannelTruncated :: string where
  "WarnPerChannelTruncated = ''per_channel_truncated''"

definition WarnTotalTruncated :: string where
  "WarnTotalTruncated = ''total_truncated''"

section \<open>Tasks and parts\<close>

record Task =
  t_TaskID :: string
  t_CallerService :: string
  t_Status :: Status
  t_ActualCount :: int
  t_Scope :: Scope
  t_TimeRange :: TimeRange
  t_RequestID :: string
  t_Warnings :: "Warning list"
  t_ErrorCode :: string
  t_ErrorMessage :: string
  t_CreatedAt :: int
  t_UpdatedAt :: int
  t_ExpiresAt :: int

record Part =
  p_TaskID :: string
  p_PartSeq :: int
  p_S3Key :: string
  p_SizeBytes :: int
  p_MessageCount :: int
  p_SHA256 :: string
  p_ChannelIDs :: "string list"
  p_CreatedAt :: int

end
