(* ===== verification/World.thy ===== *)
theory World
  imports Domain_Types
begin

text \<open>
  The part of the surroundings every component shares: contexts and their cancellation, the
  clock, the metric calls made so far, and a script of faults. A call that leaves the
  process takes the next fault of the script: none, a failure before any effect, or a
  failure reported although the effect took place (a connection lost after the commit). An
  exhausted script means no fault, and statements quantify over all scripts. Components
  that keep state outside the process (the tables, the bucket) extend this record, so their
  operations work on every extension of it.
\<close>

section \<open>Contexts\<close>

text \<open>
  The contexts of the program: \<open>context.Background()\<close>, the one \<open>Executor.Run\<close> is given, the
  ones \<open>process\<close> derives from that, one per task run, and those of HTTP requests.
\<close>

datatype ctx = Background | Parent | TaskCtx nat | ReqCtx nat

datatype fault = NoFault | NotApplied | Applied

record World =
  wd_clock :: int \<comment> \<open>nanoseconds\<close>
  wd_faults :: "fault list"
  wd_cancelled :: "ctx list"
  wd_metrics :: "metric list"
  wd_stdout :: "string list" \<comment> \<open>lines printed\<close>
  wd_audit_file :: string \<comment> \<open>bytes appended to the audit file\<close>

text \<open>\<open>ctx.Err() != nil\<close>: a task context is also cancelled when its parent is.\<close>

definition ctx_Err :: "ctx \<Rightarrow> 'a World_scheme \<Rightarrow> bool" where
  "ctx_Err c w \<longleftrightarrow>
     c \<in> set (wd_cancelled w)
     \<or> (case c of TaskCtx _ \<Rightarrow> Parent \<in> set (wd_cancelled w) | _ \<Rightarrow> False)"

definition cancel_ctx :: "ctx \<Rightarrow> 'a World_scheme \<Rightarrow> 'a World_scheme" where
  "cancel_ctx c w = w\<lparr>wd_cancelled := c # wd_cancelled w\<rparr>"

definition emit :: "metric \<Rightarrow> 'a World_scheme \<Rightarrow> 'a World_scheme" where
  "emit m w = w\<lparr>wd_metrics := wd_metrics w @ [m]\<rparr>"

section \<open>Remote calls\<close>

definition take_fault :: "'a World_scheme \<Rightarrow> fault \<times> 'a World_scheme" where
  "take_fault w =
     (case wd_faults w of [] \<Rightarrow> (NoFault, w) | f # fs \<Rightarrow> (f, w\<lparr>wd_faults := fs\<rparr>))"

text \<open>A call with effect \<open>f\<close> under context \<open>c\<close>; a cancelled context stops it before it is sent.\<close>

definition remote_exec ::
  "ctx \<Rightarrow> ('a World_scheme \<Rightarrow> 'a World_scheme) \<Rightarrow> 'a World_scheme \<Rightarrow> err option \<times> 'a World_scheme" where
  "remote_exec c f w =
     (if ctx_Err c w then (Some (ErrMsg ''context canceled''), w)
      else case take_fault w of
             (NoFault, w1) \<Rightarrow> (None, f w1)
           | (NotApplied, w1) \<Rightarrow> (Some (ErrMsg ''remote''), w1)
           | (Applied, w1) \<Rightarrow> (Some (ErrMsg ''remote''), f w1))"

text \<open>A call that only reads.\<close>

definition remote_query ::
  "ctx \<Rightarrow> ('a World_scheme \<Rightarrow> 'b) \<Rightarrow> 'a World_scheme \<Rightarrow> 'b res \<times> 'a World_scheme" where
  "remote_query c f w =
     (if ctx_Err c w then (Inl (ErrMsg ''context canceled''), w)
      else case take_fault w of
             (NoFault, w1) \<Rightarrow> (Inr (f w1), w1)
           | (_, w1) \<Rightarrow> (Inl (ErrMsg ''remote''), w1))"

text \<open>Whatever happens, only the script advances besides the effect itself.\<close>

lemma take_fault_world: "take_fault w = (f, w') \<Longrightarrow> \<exists>fs. w' = w\<lparr>wd_faults := fs\<rparr>"
proof (cases "wd_faults w")
  case Nil
  assume "take_fault w = (f, w')"
  with Nil have "w' = w\<lparr>wd_faults := wd_faults w\<rparr>" by (simp add: take_fault_def)
  then show ?thesis by blast
next
  case (Cons g gs)
  assume "take_fault w = (f, w')"
  with Cons show ?thesis by (auto simp: take_fault_def)
qed

lemma remote_exec_cases:
  assumes "remote_exec c f w = (r, w')"
  obtains (ok) fs where "r = None" "w' = f (w\<lparr>wd_faults := fs\<rparr>)" "\<not> ctx_Err c w"
  | (lost) fs e where "r = Some (ErrMsg e)" "w' = w\<lparr>wd_faults := fs\<rparr>"
  | (unknown) fs e where "r = Some (ErrMsg e)" "w' = f (w\<lparr>wd_faults := fs\<rparr>)"
proof (cases "ctx_Err c w")
  case True
  with assms have "r = Some (ErrMsg ''context canceled'')" "w' = w\<lparr>wd_faults := wd_faults w\<rparr>"
    by (simp_all add: remote_exec_def)
  then show ?thesis by (rule lost)
next
  case False
  obtain g w1 where t: "take_fault w = (g, w1)" by fastforce
  then obtain fs where w1: "w1 = w\<lparr>wd_faults := fs\<rparr>" using take_fault_world by blast
  show ?thesis
  proof (cases g)
    case NoFault
    with False t assms w1 show ?thesis by (intro ok [of fs]) (auto simp: remote_exec_def)
  next
    case NotApplied
    with False t assms w1 show ?thesis by (intro lost [of "''remote''" fs]) (auto simp: remote_exec_def)
  next
    case Applied
    with False t assms w1 show ?thesis by (intro unknown [of "''remote''" fs]) (auto simp: remote_exec_def)
  qed
qed

lemma remote_query_cases:
  assumes "remote_query c f w = (r, w')"
  obtains (ok) fs where "r = Inr (f (w\<lparr>wd_faults := fs\<rparr>))" "w' = w\<lparr>wd_faults := fs\<rparr>"
  | (lost) fs e where "r = Inl (ErrMsg e)" "w' = w\<lparr>wd_faults := fs\<rparr>"
proof (cases "ctx_Err c w")
  case True
  with assms have "r = Inl (ErrMsg ''context canceled'')" "w' = w\<lparr>wd_faults := wd_faults w\<rparr>"
    by (simp_all add: remote_query_def)
  then show ?thesis by (rule lost)
next
  case False
  obtain g w1 where t: "take_fault w = (g, w1)" by fastforce
  then obtain fs where w1: "w1 = w\<lparr>wd_faults := fs\<rparr>" using take_fault_world by blast
  show ?thesis
  proof (cases g)
    case NoFault
    with False t assms w1 show ?thesis by (intro ok [of fs]) (auto simp: remote_query_def)
  next
    case NotApplied
    with False t assms w1 show ?thesis by (intro lost [of "''remote''" fs]) (auto simp: remote_query_def)
  next
    case Applied
    with False t assms w1 show ?thesis by (intro lost [of "''remote''" fs]) (auto simp: remote_query_def)
  qed
qed

end
