(* ===== verification/Metrics_Audit.thy ===== *)
theory Metrics_Audit
  imports World
begin

text \<open>
  \<open>internal/metrics\<close>: the declared collectors, the size classes of the execution histogram and
  the audit log, which prints every event as one JSON line and appends it to a file when one
  is open. A call on a collector (an object of a third-party package) is a value of type
  \<open>metric\<close>; the package panics on a call that does not fit the declaration.
\<close>

section \<open>Collectors\<close>

text \<open>Help texts are left out; the default buckets and the exponential ones are computed by the
  package.\<close>

datatype buckets = DefBuckets | Buckets "int list" | ExponentialBuckets int int int

datatype collector_kind = Counter | Gauge_kind | Histogram buckets

record Collector =
  co_Name :: string
  co_Kind :: collector_kind
  co_Labels :: "string list"

definition collectors :: "Collector list" where
  "collectors =
     [\<lparr>co_Name = ''batch_submit_total'', co_Kind = Counter, co_Labels = [''caller'', ''result'']\<rparr>,
      \<lparr>co_Name = ''batch_submit_duration_seconds'', co_Kind = Histogram DefBuckets, co_Labels = [''caller'']\<rparr>,
      \<lparr>co_Name = ''batch_execute_duration_seconds'',
       co_Kind = Histogram (Buckets [1, 5, 10, 30, 60, 120, 300, 600, 900]),
       co_Labels = [''caller'', ''size_bucket'']\<rparr>,
      \<lparr>co_Name = ''batch_count_check_duration_seconds'', co_Kind = Histogram DefBuckets, co_Labels = []\<rparr>,
      \<lparr>co_Name = ''os_search_duration_seconds'', co_Kind = Histogram DefBuckets, co_Labels = [''op'']\<rparr>,
      \<lparr>co_Name = ''os_search_total'', co_Kind = Counter, co_Labels = [''op'', ''result'']\<rparr>,
      \<lparr>co_Name = ''s3_upload_duration_seconds'', co_Kind = Histogram DefBuckets, co_Labels = [''op'']\<rparr>,
      \<lparr>co_Name = ''s3_upload_bytes_total'', co_Kind = Counter, co_Labels = []\<rparr>,
      \<lparr>co_Name = ''part_size_bytes'', co_Kind = Histogram (ExponentialBuckets 1024 4 8), co_Labels = []\<rparr>,
      \<lparr>co_Name = ''system_protection_rejected_total'', co_Kind = Counter, co_Labels = [''reason'']\<rparr>,
      \<lparr>co_Name = ''executor_queue_depth'', co_Kind = Gauge_kind, co_Labels = []\<rparr>,
      \<lparr>co_Name = ''executor_inflight'', co_Kind = Gauge_kind, co_Labels = []\<rparr>,
      \<lparr>co_Name = ''task_status_total'', co_Kind = Counter, co_Labels = [''status'']\<rparr>,
      \<lparr>co_Name = ''payload_parse_skip_total'', co_Kind = Counter, co_Labels = []\<rparr>]"

text \<open>
  Which calls the package accepts: on a registered collector of the right kind, with one value
  for each label, each of them valid UTF-8. It panics on any other (\<open>WithLabelValues\<close>).
\<close>

definition fits :: "string \<Rightarrow> (collector_kind \<Rightarrow> bool) \<Rightarrow> string list \<Rightarrow> bool" where
  "fits name is_kind vals \<longleftrightarrow>
     (case find (\<lambda>c. co_Name c = name) collectors of
        None \<Rightarrow> False
      | Some c \<Rightarrow> is_kind (co_Kind c) \<and> length vals = length (co_Labels c) \<and> list_all valid_utf8 vals)"

fun accepted :: "metric \<Rightarrow> bool" where
  "accepted (Inc name vals) = fits name (\<lambda>k. k = Counter) vals"
| "accepted (Observe name vals) = fits name (\<lambda>k. k \<noteq> Counter \<and> k \<noteq> Gauge_kind) vals"
| "accepted (SetGauge name x) = fits name (\<lambda>k. k = Gauge_kind) []"

text \<open>Registration panics on a name that is taken and on bounds that do not increase.\<close>

lemma collectors_register:
  "distinct (map co_Name collectors)"
  "list_all (\<lambda>c. case co_Kind c of Histogram (Buckets xs) \<Rightarrow> sorted_wrt (<) xs | _ \<Rightarrow> True) collectors"
  by code_simp+

definition SizeBucket :: "int \<Rightarrow> string" where
  "SizeBucket count =
     (if count \<le> 30000 then ''30k'' else if count \<le> 100000 then ''100k'' else ''300k'')"

record AuditEvent =
  ae_TS :: int
  ae_Event :: string
  ae_TaskID :: string
  ae_Caller :: string
  ae_RequestID :: string
  ae_Result :: string
  ae_ChannelCount :: int
  ae_TimeStart :: int
  ae_TimeEnd :: int
  ae_HitCount :: int

text \<open>An event literal: the fields a caller leaves out are zero.\<close>

definition audit_event :: "string \<Rightarrow> string \<Rightarrow> string \<Rightarrow> string \<Rightarrow> string \<Rightarrow> AuditEvent" where
  "audit_event ev taskID caller reqID result =
     \<lparr>ae_TS = 0, ae_Event = ev, ae_TaskID = taskID, ae_Caller = caller, ae_RequestID = reqID,
      ae_Result = result, ae_ChannelCount = 0, ae_TimeStart = 0, ae_TimeEnd = 0, ae_HitCount = 0\<rparr>"

definition omit_str :: "string \<Rightarrow> string \<Rightarrow> string" where
  "omit_str k s = (if s = [] then [] else CHR '','' # json_key k @ json_string s)"

definition omit_int :: "string \<Rightarrow> int \<Rightarrow> string" where
  "omit_int k n = (if n = 0 then [] else CHR '','' # json_key k @ show_int n)"

definition Marshal_AuditEvent :: "AuditEvent \<Rightarrow> string" where
  "Marshal_AuditEvent ev =
     CHR 0x7B # json_key ''ts'' @ show_int (ae_TS ev)
     @ CHR '','' # json_key ''event'' @ json_string (ae_Event ev)
     @ omit_str ''task_id'' (ae_TaskID ev) @ omit_str ''caller'' (ae_Caller ev)
     @ omit_str ''request_id'' (ae_RequestID ev) @ omit_str ''result'' (ae_Result ev)
     @ omit_int ''channel_count'' (ae_ChannelCount ev) @ omit_int ''time_start'' (ae_TimeStart ev)
     @ omit_int ''time_end'' (ae_TimeEnd ev) @ omit_int ''hit_count'' (ae_HitCount ev) @ [CHR 0x7D]"

text \<open>The auditor knows whether its file is open.\<close>

record Auditor =
  au_f :: bool

text \<open>A write to the file may fail or succeed without the code looking at the outcome.\<close>

definition append_file :: "string \<Rightarrow> 'a World_scheme \<Rightarrow> 'a World_scheme" where
  "append_file s w =
     (case take_fault w of
        (NotApplied, w1) \<Rightarrow> w1
      | (_, w1) \<Rightarrow> w1\<lparr>wd_audit_file := wd_audit_file w1 @ s\<rparr>)"

definition Auditor_Log :: "Auditor \<Rightarrow> AuditEvent \<Rightarrow> 'a World_scheme \<Rightarrow> 'a World_scheme" where
  "Auditor_Log a ev w =
     (let ev1 = (if ae_TS ev = 0 then ev\<lparr>ae_TS := wd_clock w div 1000000000\<rparr> else ev);
          line = Marshal_AuditEvent ev1;
          w1 = w\<lparr>wd_stdout := wd_stdout w @ [line]\<rparr>
      in if au_f a then append_file (line @ [lf]) w1 else w1)"

text \<open>\<open>NewAuditor\<close>: an empty path means no file; opening the file can fail.\<close>

definition NewAuditor :: "string \<Rightarrow> 'a World_scheme \<Rightarrow> Auditor res \<times> 'a World_scheme" where
  "NewAuditor path w =
     (if path = [] then (Inr \<lparr>au_f = False\<rparr>, w)
      else case take_fault w of
             (NoFault, w1) \<Rightarrow> (Inr \<lparr>au_f = True\<rparr>, w1)
           | (_, w1) \<Rightarrow> (Inl (ErrMsg ''open audit file''), w1))"

text \<open>An event takes one line whatever its fields hold.\<close>

lemma show_int_lf: "lf \<notin> set (show_int x)"
  using show_nat_no [of lf] by (auto simp: show_int_def lf_def)

lemma Marshal_AuditEvent_no_lf: "lf \<notin> set (Marshal_AuditEvent ev)"
proof -
  have lit: "lf \<noteq> CHR 0x7B" "lf \<noteq> CHR 0x7D" "lf \<noteq> CHR '',''" by (simp_all add: lf_def)
  have key: "lf \<notin> set (json_key k)" if "lf \<notin> set k" for k
    using that by (simp add: json_key_def lf_def dq_def)
  have "lf \<notin> set (omit_str k s)" if "lf \<notin> set k" for k s
    using key [OF that] json_string_no_lf lit by (simp add: omit_str_def)
  moreover have "lf \<notin> set (omit_int k n)" if "lf \<notin> set k" for k n
    using key [OF that] show_int_lf lit by (simp add: omit_int_def)
  moreover have "lf \<notin> set ''ts''" "lf \<notin> set ''event''" "lf \<notin> set ''task_id''"
    "lf \<notin> set ''caller''" "lf \<notin> set ''request_id''" "lf \<notin> set ''result''"
    "lf \<notin> set ''channel_count''" "lf \<notin> set ''time_start''" "lf \<notin> set ''time_end''"
    "lf \<notin> set ''hit_count''"
    by (simp_all add: lf_def)
  ultimately show ?thesis
    using key lit show_int_lf json_string_no_lf by (simp add: Marshal_AuditEvent_def)
qed

end
