(* ===== verification/Auth.thy ===== *)
theory Auth
  imports Config Metrics_Audit "HOL-Library.Word"
begin

text \<open>
  \<open>internal/auth/auth.go\<close>: request identifiers and the check of the caller's token, wrapped
  around the business routes.
\<close>

unbundle bit_operations_syntax

section \<open>HTTP\<close>

text \<open>The headers the code reads, a decoded body, and a response; a header that is absent is
  the empty text. A body is JSON or plain text.\<close>

record HttpRequest =
  hr_Method :: string
  hr_Path :: "string list" \<comment> \<open>the decoded segments\<close>
  hr_XRequestId :: string
  hr_Authorization :: string
  hr_Body :: "gval option" \<comment> \<open>\<open>None\<close>: not JSON, or over the size limit\<close>

datatype body = JsonBody gval | TextBody string

record HttpResponse =
  hp_Status :: int
  hp_XRequestId :: string
  hp_ProtoVersion :: string
  hp_Body :: body

section \<open>Identifiers and tokens\<close>

definition hex_byte :: "8 word \<Rightarrow> string" where
  "hex_byte b = [hex_digit (unat (drop_bit 4 b)), hex_digit (unat (b AND 15))]"

definition hex_of :: "8 word list \<Rightarrow> string" where
  "hex_of b = concat (map hex_byte b)"

text \<open>\<open>rnd\<close> are the 16 bytes read, \<open>None\<close> when reading failed.\<close>

definition NewRequestID :: "8 word list option \<Rightarrow> string" where
  "NewRequestID rnd =
     (case rnd of
        None \<Rightarrow> ''00000000-0000-4000-8000-000000000000''
      | Some b0 \<Rightarrow>
          (let b1 = b0[6 := (b0 ! 6 AND 0x0f) OR 0x40];
               b = b1[8 := (b1 ! 8 AND 0x3f) OR 0x80]
           in hex_of (take 4 b) @ ''-'' @ hex_of (take 2 (drop 4 b)) @ ''-''
              @ hex_of (take 2 (drop 6 b)) @ ''-'' @ hex_of (take 2 (drop 8 b)) @ ''-''
              @ hex_of (take 6 (drop 10 b))))"

definition bearerToken :: "string \<Rightarrow> string" where
  "bearerToken header0 =
     (let header = TrimSpace header0
      in if length header < 7 \<or> \<not> EqualFold_ascii (take 7 header) ''bearer '' then []
         else TrimSpace (drop 7 header))"

text \<open>
  The verb \<open>%q\<close> (\<open>strconv.Quote\<close>): a quoted Go text. Which multi-byte runes are printable is
  a table of package \<open>unicode\<close>, the argument \<open>isPrint\<close>; the others are written by code point.
\<close>

definition hex_pair :: "nat \<Rightarrow> string" where
  "hex_pair n = [hex_digit (n div 16), hex_digit (n mod 16)]"

definition quote_ascii :: "char \<Rightarrow> string" where
  "quote_ascii c =
     (let n = (of_char c :: nat)
      in if c = bs \<or> c = dq then [bs, c]
         else if n = 7 then [bs, CHR ''a''] else if n = 8 then [bs, CHR ''b'']
         else if n = 12 then [bs, CHR ''f''] else if n = 10 then [bs, CHR ''n'']
         else if n = 13 then [bs, CHR ''r''] else if n = 9 then [bs, CHR ''t'']
         else if n = 11 then [bs, CHR ''v'']
         else if n < 32 \<or> n = 127 then bs # CHR ''x'' # hex_pair n
         else [c])"

text \<open>The code point of a well-formed multi-byte rune, and its escape.\<close>

definition rune_code :: "string \<Rightarrow> nat" where
  "rune_code w =
     (let tail = foldl (\<lambda>n c. 64 * n + of_char c mod 64) 0 (tl w)
      in of_char (hd w) mod (if length w = 2 then 32 else if length w = 3 then 16 else 8)
           * 64 ^ (length w - 1) + tail)"

definition quote_rune :: "(string \<Rightarrow> bool) \<Rightarrow> string \<Rightarrow> string" where
  "quote_rune isPrint w =
     (let n = rune_code w
      in if isPrint w then w
         else if n < 65536 then bs # CHR ''u'' # hex_pair (n div 256) @ hex_pair (n mod 256)
         else bs # CHR ''U'' # hex_pair 0 @ hex_pair (n div 65536) @ hex_pair (n div 256 mod 256)
                @ hex_pair (n mod 256))"

function quote_runes :: "(string \<Rightarrow> bool) \<Rightarrow> string \<Rightarrow> string" where
  "quote_runes isPrint [] = []"
| "quote_runes isPrint (c # cs) =
     (if ascii c then quote_ascii c @ quote_runes isPrint cs
      else if rune_size (c # cs) = 0 then bs # CHR ''x'' # hex_pair (of_char c) @ quote_runes isPrint cs
      else quote_rune isPrint (take (rune_size (c # cs)) (c # cs))
             @ quote_runes isPrint (drop (rune_size (c # cs) - 1) cs))"
  by pat_completeness auto
termination
  by (relation "measure (\<lambda>(f, s). length s)") auto

definition go_quote :: "(string \<Rightarrow> bool) \<Rightarrow> string \<Rightarrow> string" where
  "go_quote isPrint s = dq # quote_runes isPrint s @ [dq]"

definition localDevCaller :: string where
  "localDevCaller = ''local-dev''"

definition unauthorized_body :: "(string \<Rightarrow> bool) \<Rightarrow> string \<Rightarrow> string" where
  "unauthorized_body isPrint reqID =
     [CHR 0x7B] @ json_key ''error_code'' @ [dq] @ ''unauthorized'' @ [dq] @ '',''
     @ json_key ''error_message'' @ [dq] @ ''invalid or missing s2s token'' @ [dq] @ '',''
     @ json_key ''request_id'' @ go_quote isPrint reqID @ [CHR 0x7D] @ [lf]"

definition writeUnauthorized :: "(string \<Rightarrow> bool) \<Rightarrow> string \<Rightarrow> HttpResponse" where
  "writeUnauthorized isPrint reqID =
     \<lparr>hp_Status = 401, hp_XRequestId = reqID, hp_ProtoVersion = [],
      hp_Body = TextBody (unauthorized_body isPrint reqID)\<rparr>"

section \<open>The middleware\<close>

definition request_id :: "8 word list option \<Rightarrow> HttpRequest \<Rightarrow> string" where
  "request_id rnd r =
     (let h = TrimSpace (hr_XRequestId r) in if h = [] then NewRequestID rnd else h)"

text \<open>
  \<open>next\<close> gets the caller and the request identifier the context carries; the identifier is set
  on the response in every case.
\<close>

definition Middleware ::
  "AuthConfig \<Rightarrow> (AuditEvent \<Rightarrow> 's \<Rightarrow> 's) option \<Rightarrow> (string \<Rightarrow> bool) \<Rightarrow> 8 word list option
   \<Rightarrow> (string \<Rightarrow> string \<Rightarrow> HttpRequest \<Rightarrow> 's \<Rightarrow> HttpResponse \<times> 's) \<Rightarrow> HttpRequest \<Rightarrow> 's
   \<Rightarrow> HttpResponse \<times> 's" where
  "Middleware cfg audit isPrint rnd next_handler r s =
     (let reqID = request_id rnd r;
          serve = (\<lambda>caller. case next_handler caller reqID r s of
                     (resp, s1) \<Rightarrow> (resp\<lparr>hp_XRequestId := reqID\<rparr>, s1))
      in if ac_Enabled cfg
         then (let token = bearerToken (hr_Authorization r)
               in case map_of (ac_CallerTokens cfg) token of
                    None \<Rightarrow>
                      (writeUnauthorized isPrint reqID,
                       case audit of None \<Rightarrow> s
                         | Some logev \<Rightarrow> logev (audit_event ''auth_fail'' [] [] reqID ''unauthorized'') s)
                  | Some name \<Rightarrow>
                      if token = []
                      then (writeUnauthorized isPrint reqID,
                            case audit of None \<Rightarrow> s
                              | Some logev \<Rightarrow> logev (audit_event ''auth_fail'' [] [] reqID ''unauthorized'') s)
                      else serve name)
         else serve localDevCaller)"

section \<open>Facts\<close>

lemma Middleware_request_id:
  "hp_XRequestId (fst (Middleware cfg audit isPrint rnd nh r s)) = request_id rnd r"
  by (auto simp: Middleware_def Let_def writeUnauthorized_def split: option.splits prod.splits)

text \<open>Without a known token nothing behind the middleware runs.\<close>

lemma Middleware_refuses:
  assumes "ac_Enabled cfg" and "map_of (ac_CallerTokens cfg) (bearerToken (hr_Authorization r)) = None"
  shows "Middleware cfg None isPrint rnd nh r s = (writeUnauthorized isPrint (request_id rnd r), s)"
  using assms by (simp add: Middleware_def Let_def)

lemma Middleware_serves:
  assumes "ac_Enabled cfg" and "tokens_ok (ac_CallerTokens cfg)"
    and "map_of (ac_CallerTokens cfg) (bearerToken (hr_Authorization r)) = Some name"
  shows "Middleware cfg audit isPrint rnd nh r s =
    (case nh name (request_id rnd r) r s of (resp, s1) \<Rightarrow> (resp\<lparr>hp_XRequestId := request_id rnd r\<rparr>, s1))"
proof -
  have "bearerToken (hr_Authorization r) \<noteq> []"
    using assms(2,3) by (auto simp: tokens_ok_def dest: map_of_SomeD)
  with assms(1,3) show ?thesis by (simp add: Middleware_def Let_def)
qed

text \<open>A token sent as \<open>Bearer <token>\<close> in any letter case is read back.\<close>

lemma TrimSpace_bearer:
  assumes "no_margin t" and "t \<noteq> []" and "EqualFold_ascii pre ''bearer ''"
  shows "bearerToken (pre @ t) = t \<or> \<not> no_margin (pre @ t)"
proof (cases "no_margin (pre @ t)")
  case True
  have "length pre = 7"
    using assms(3) by (auto simp: EqualFold_ascii_def dest: arg_cong [of _ _ length])
  with True assms show ?thesis by (simp add: bearerToken_def TrimSpace_id Let_def)
qed simp

lemma small_word_cases: "unat (w :: 8 word) < 4 \<Longrightarrow> w = 0 \<or> w = 1 \<or> w = 2 \<or> w = 3"
proof -
  assume "unat w < 4"
  then consider "unat w = 0" | "unat w = 1" | "unat w = 2" | "unat w = 3" by linarith
  moreover have "w = word_of_nat (unat w)" by (rule word_unat_eq_iff [THEN iffD2]) simp
  ultimately show ?thesis by cases simp_all
qed

lemma or_eight: "w = 0 \<or> w = 1 \<or> w = 2 \<or> w = 3 \<Longrightarrow> hex_digit (unat (w OR 8 :: 8 word)) \<in> set ''89ab''"
  by (elim disjE, hypsubst, code_simp, hypsubst, code_simp, hypsubst, code_simp, hypsubst, code_simp)

lemma variant_digit: "hex_digit (unat (drop_bit 4 ((b AND 63) OR 128 :: 8 word))) \<in> set ''89ab''"
proof -
  let ?y = "drop_bit 4 b AND 3"
  have eq: "drop_bit 4 ((b AND 63) OR 128) = ?y OR 8"
    by (rule bit_word_eqI) (auto simp: bit_simps)
  have y: "?y = take_bit 2 (drop_bit 4 b)"
    by (simp add: take_bit_eq_mask mask_eq_exp_minus_1)
  have "unat ?y = unat (drop_bit 4 b) mod 4"
    unfolding y unsigned_take_bit_eq by (simp add: take_bit_eq_mod)
  then have "unat ?y < 4" by simp
  from or_eight [OF small_word_cases [OF this]] show ?thesis unfolding eq .
qed

lemma version_digit: "hex_digit (unat (drop_bit 4 ((b AND 15) OR 64 :: 8 word))) = CHR ''4''"
proof -
  have "drop_bit 4 ((b AND 15) OR 64) = (4 :: 8 word)"
    by (rule bit_word_eqI) (auto simp: bit_simps)
  moreover have "hex_digit (unat (4 :: 8 word)) = CHR ''4''" by code_simp
  ultimately show ?thesis by simp
qed

text \<open>A generated identifier has the shape of a version 4 UUID.\<close>

lemma request_id_version:
  assumes "length b = 16"
  shows "length (NewRequestID (Some b)) = 36 \<and> NewRequestID (Some b) ! 14 = CHR ''4''
    \<and> NewRequestID (Some b) ! 19 \<in> set ''89ab''
    \<and> (\<forall>i \<in> {8, 13, 18, 23}. NewRequestID (Some b) ! i = CHR ''-'')"
proof -
  obtain b0 b1 b2 b3 b4 b5 b6 b7 b8 b9 b10 b11 b12 b13 b14 b15 where
    b: "b = [b0, b1, b2, b3, b4, b5, b6, b7, b8, b9, b10, b11, b12, b13, b14, b15]"
    using assms by (auto simp: numeral_eq_Suc length_Suc_conv)
  show ?thesis
    unfolding b using version_digit [of b6] variant_digit [of b8]
    by (simp add: NewRequestID_def hex_of_def hex_byte_def)
qed

end
