(* ===== verification/Store_Interface.thy ===== *)
theory Store_Interface
  imports World
begin

text \<open>
  The interface \<open>Store\<close> of \<open>internal/store/mysql.go\<close>, as a record of operations over a world
  \<open>'w\<close>, and the locale \<open>task_store\<close>: what submit, cancel, the executor and the handler rely on
  of it, in terms of the task each identifier stands for. An operation that reports an error
  may still have taken effect, as a statement whose reply was lost.
\<close>

record 'w Store =
  st_Create :: "ctx \<Rightarrow> Task \<Rightarrow> 'w \<Rightarrow> Task res \<times> 'w"
  st_Get :: "ctx \<Rightarrow> string \<Rightarrow> 'w \<Rightarrow> Task res \<times> 'w"
  st_UpdateStatus :: "ctx \<Rightarrow> string \<Rightarrow> Status \<Rightarrow> 'w \<Rightarrow> err option \<times> 'w"
  st_Finalize :: "ctx \<Rightarrow> string \<Rightarrow> Status \<Rightarrow> int \<Rightarrow> Warning list \<Rightarrow> string \<Rightarrow> string
    \<Rightarrow> 'w \<Rightarrow> err option \<times> 'w"
  st_AppendPart :: "ctx \<Rightarrow> Part \<Rightarrow> 'w \<Rightarrow> err option \<times> 'w"
  st_GetParts :: "ctx \<Rightarrow> string \<Rightarrow> 'w \<Rightarrow> Part list res \<times> 'w"
  st_CancelCAS :: "ctx \<Rightarrow> string \<Rightarrow> 'w \<Rightarrow> (bool \<times> Status) res \<times> 'w"
  st_ListStuck :: "ctx \<Rightarrow> int \<Rightarrow> 'w \<Rightarrow> string list res \<times> 'w"
  st_ListExpired :: "ctx \<Rightarrow> int \<Rightarrow> 'w \<Rightarrow> Task list res \<times> 'w"
  st_Delete :: "ctx \<Rightarrow> string \<Rightarrow> 'w \<Rightarrow> err option \<times> 'w"
  st_Ping :: "ctx \<Rightarrow> 'w \<Rightarrow> err option \<times> 'w"

section \<open>Effects on the tasks\<close>

type_synonym tasks = "string \<Rightarrow> Task option"

text \<open>The task \<open>tid\<close>, if it is there, changed by \<open>f\<close> and stamped with some time.\<close>

definition touched :: "string \<Rightarrow> (Task \<Rightarrow> Task) \<Rightarrow> tasks \<Rightarrow> tasks \<Rightarrow> bool" where
  "touched tid f m m' \<longleftrightarrow>
     (\<exists>n. m' = m(tid := map_option (\<lambda>t. (f t)\<lparr>t_UpdatedAt := n\<rparr>) (m tid)))"

definition set_status :: "Status \<Rightarrow> Task \<Rightarrow> Task" where
  "set_status s t = t\<lparr>t_Status := s\<rparr>"

definition set_final :: "Status \<Rightarrow> int \<Rightarrow> Warning list \<Rightarrow> string \<Rightarrow> string \<Rightarrow> Task \<Rightarrow> Task" where
  "set_final s n ws ec em t =
     t\<lparr>t_Status := s, t_ActualCount := n, t_Warnings := ws, t_ErrorCode := ec, t_ErrorMessage := em\<rparr>"

text \<open>Warnings that survive the JSON column: valid texts and 64-bit numbers.\<close>

definition storable_warning :: "Warning \<Rightarrow> bool" where
  "storable_warning x \<longleftrightarrow>
     valid_utf8 (wn_ChannelID x) \<and> valid_utf8 (wn_Code x) \<and> in_i64 (wn_Limit x) \<and>
     in_i64 (wn_ActualSeen x)"

definition storable_scope :: "Scope \<Rightarrow> bool" where
  "storable_scope sc \<longleftrightarrow> list_all (\<lambda>c. valid_utf8 (ch_ChannelID c)) (sc_Channels sc)"

lemma touched_other: "touched tid f m m' \<Longrightarrow> j \<noteq> tid \<Longrightarrow> m' j = m j"
  by (auto simp: touched_def)

lemma touched_None: "touched tid f m m' \<Longrightarrow> m tid = None \<Longrightarrow> m' = m"
  by (auto simp: touched_def)

lemma touched_Some:
  "touched tid f m m' \<Longrightarrow> m tid = Some t \<Longrightarrow> \<exists>n. m' = m(tid \<mapsto> (f t)\<lparr>t_UpdatedAt := n\<rparr>)"
  by (auto simp: touched_def)

section \<open>The contract\<close>

locale task_store =
  fixes S :: "'w Store"
    and tasks :: "'w \<Rightarrow> tasks"
    and invar :: "'w \<Rightarrow> bool"
  assumes get_ok: "st_Get S c tid w = (Inr t, w') \<Longrightarrow> invar w \<Longrightarrow> tasks w tid = Some t"
    and get_missing: "st_Get S c tid w = (Inl ErrNotFound, w') \<Longrightarrow> invar w \<Longrightarrow> tasks w tid = None"
    and get_frame: "st_Get S c tid w = (r, w') \<Longrightarrow> tasks w' = tasks w"
    and get_invar: "st_Get S c tid w = (r, w') \<Longrightarrow> invar w \<Longrightarrow> invar w'"
    and create_ok: "st_Create S c t w = (Inr t', w') \<Longrightarrow> invar w \<Longrightarrow> storable_scope (t_Scope t) \<Longrightarrow>
      named_status (t_Status t) \<Longrightarrow> tasks w (t_TaskID t) = None \<and>
      (\<exists>n1 n2 n3. tasks w' = (tasks w)(t_TaskID t \<mapsto>
        (set_final (t_Status t) 0 [] [] [] t)\<lparr>t_CreatedAt := n1, t_UpdatedAt := n2, t_ExpiresAt := n3\<rparr>))"
    and create_invar: "st_Create S c t w = (r, w') \<Longrightarrow> invar w \<Longrightarrow> invar w'"
    and create_other: "st_Create S c t w = (r, w') \<Longrightarrow> invar w \<Longrightarrow> j \<noteq> t_TaskID t \<Longrightarrow> tasks w' j = tasks w j"
    and create_err: "st_Create S c t w = (Inl e, w') \<Longrightarrow> invar w \<Longrightarrow> storable_scope (t_Scope t) \<Longrightarrow>
      named_status (t_Status t) \<Longrightarrow> tasks w' = tasks w \<or> tasks w (t_TaskID t) = None \<and>
      (\<exists>n1 n2 n3. tasks w' = (tasks w)(t_TaskID t \<mapsto>
        (set_final (t_Status t) 0 [] [] [] t)\<lparr>t_CreatedAt := n1, t_UpdatedAt := n2, t_ExpiresAt := n3\<rparr>))"
    and update_ok: "st_UpdateStatus S c tid s w = (None, w') \<Longrightarrow> named_status s \<Longrightarrow>
      touched tid (set_status s) (tasks w) (tasks w')"
    and update_err: "st_UpdateStatus S c tid s w = (Some e, w') \<Longrightarrow> named_status s \<Longrightarrow>
      tasks w' = tasks w \<or> touched tid (set_status s) (tasks w) (tasks w')"
    and update_invar: "st_UpdateStatus S c tid s w = (q, w') \<Longrightarrow> invar w \<Longrightarrow> invar w'"
    and final_ok: "st_Finalize S c tid s n ws ec em w = (None, w') \<Longrightarrow> named_status s \<Longrightarrow>
      \<exists>ws'. (list_all storable_warning ws \<longrightarrow> ws' = ws) \<and>
        touched tid (set_final s n ws' ec em) (tasks w) (tasks w')"
    and final_err: "st_Finalize S c tid s n ws ec em w = (Some e, w') \<Longrightarrow> named_status s \<Longrightarrow>
      tasks w' = tasks w \<or> (\<exists>ws'. (list_all storable_warning ws \<longrightarrow> ws' = ws) \<and>
        touched tid (set_final s n ws' ec em) (tasks w) (tasks w'))"
    and final_invar: "st_Finalize S c tid s n ws ec em w = (q, w') \<Longrightarrow> invar w \<Longrightarrow> invar w'"
    and append_frame: "st_AppendPart S c p w = (q, w') \<Longrightarrow> tasks w' = tasks w"
    and append_invar: "st_AppendPart S c p w = (q, w') \<Longrightarrow> invar w \<Longrightarrow> invar w'"
    and cas_done: "st_CancelCAS S c tid w = (Inr (True, s), w') \<Longrightarrow> invar w \<Longrightarrow>
      s = StatusCancelled \<and> (\<exists>t. tasks w tid = Some t \<and> t_Status t \<in> {StatusQueued, StatusRunning})
      \<and> touched tid (set_status StatusCancelled) (tasks w) (tasks w')"
    and cas_lost: "st_CancelCAS S c tid w = (Inr (False, s), w') \<Longrightarrow> invar w \<Longrightarrow>
      tasks w' = tasks w \<and> (\<exists>t. tasks w tid = Some t \<and> t_Status t = s
        \<and> s \<notin> {StatusQueued, StatusRunning})"
    and cas_err: "st_CancelCAS S c tid w = (Inl e, w') \<Longrightarrow> invar w \<Longrightarrow>
      tasks w' = tasks w \<or> (\<exists>t. tasks w tid = Some t \<and> t_Status t \<in> {StatusQueued, StatusRunning})
        \<and> touched tid (set_status StatusCancelled) (tasks w) (tasks w')"
    and cas_invar: "st_CancelCAS S c tid w = (x, w') \<Longrightarrow> invar w \<Longrightarrow> invar w'"

end
