(* ===== verification/OS_Client.thy ===== *)
theory OS_Client
  imports World "HOL-Library.Product_Lexorder"
begin

text \<open>
  \<open>internal/osclient/osclient.go\<close>: counting, point-in-time handles and paged search over an
  HTTP transport. The transport (a third-party package) is a record of operations; request
  bodies are the JSON values the code marshals, response bodies the JSON values it decodes
  (\<open>None\<close> for text that is not JSON). The locale \<open>paged_search\<close> is what the executor relies on;
  the locale \<open>opensearch\<close> states the documented behaviour of the search service, and the
  client meets the first over the second.
\<close>

section \<open>Data\<close>

record Hit =
  hit_MessageSeq :: int
  hit_MessageID :: int
  hit_SubSeq :: int
  hit_From :: string
  hit_ChannelID :: string
  hit_Timestamp :: int
  hit_Payload :: "gmap option"
  hit_PayloadRaw :: "gmap option"
  hit_Sort :: "gval list"

record SearchRequest =
  sr_PITID :: string
  sr_KeepAlive :: int
  sr_ChannelID :: string
  sr_StartTS :: int
  sr_EndTS :: int
  sr_Size :: int
  sr_SearchAfter :: "gval list"

text \<open>The interface \<open>Client\<close>.\<close>

record 'w Client =
  os_Count :: "ctx \<Rightarrow> string \<Rightarrow> string \<Rightarrow> int \<Rightarrow> int \<Rightarrow> 'w \<Rightarrow> int res \<times> 'w"
  os_OpenPIT :: "ctx \<Rightarrow> string \<Rightarrow> int \<Rightarrow> 'w \<Rightarrow> string res \<times> 'w"
  os_ClosePIT :: "ctx \<Rightarrow> string \<Rightarrow> 'w \<Rightarrow> err option \<times> 'w"
  os_Search :: "ctx \<Rightarrow> SearchRequest \<Rightarrow> 'w \<Rightarrow> Hit list res \<times> 'w"
  os_Ping :: "ctx \<Rightarrow> 'w \<Rightarrow> err option \<times> 'w"

text \<open>An HTTP response: its status code and line, its body as text and as JSON.\<close>

record response =
  rs_StatusCode :: int
  rs_Status :: string
  rs_text :: string
  rs_json :: "gval option"

text \<open>The calls of the SDK the code makes: \<open>Info\<close>, \<open>Count\<close>, \<open>Search\<close>, and \<open>Perform\<close> of a
  request built from a method, a path and a body.\<close>

record 'w Transport =
  tp_Info :: "ctx \<Rightarrow> 'w \<Rightarrow> response res \<times> 'w"
  tp_Count :: "ctx \<Rightarrow> string \<Rightarrow> gval \<Rightarrow> 'w \<Rightarrow> response res \<times> 'w"
  tp_Search :: "ctx \<Rightarrow> gval \<Rightarrow> 'w \<Rightarrow> response res \<times> 'w"
  tp_Perform :: "ctx \<Rightarrow> string \<Rightarrow> string \<Rightarrow> gval option \<Rightarrow> 'w \<Rightarrow> response res \<times> 'w"

definition IsError :: "response \<Rightarrow> bool" where
  "IsError r \<longleftrightarrow> 299 < rs_StatusCode r"

section \<open>Helpers\<close>

definition readError :: "string \<Rightarrow> string" where
  "readError body = TrimSpace (take 2048 body)"

text \<open>Durations are nanoseconds.\<close>

definition durString :: "int \<Rightarrow> string" where
  "durString d0 =
     (let d = (if d0 \<le> 0 then 60 * 1000000000 else d0)
      in if d mod (60 * 1000000000) = 0 then show_int (d div (60 * 1000000000)) @ ''m''
         else show_int (d div 1000000000) @ ''s'')"

fun toInt64 :: "gval \<Rightarrow> int" where
  "toInt64 (GFloat64 x) = float_to_i64 x"
| "toInt64 (GInt64 n) = n"
| "toInt64 (GNumber s) = fst (ParseInt s)"
| "toInt64 _ = 0"

fun toStr :: "gval \<Rightarrow> string" where
  "toStr (GString s) = s"
| "toStr _ = []"

text \<open>A Go string or integer as the marshaller writes it.\<close>

definition json_of_string :: "string \<Rightarrow> gval" where
  "json_of_string s = GString (to_valid s)"

definition json_of_int :: "int \<Rightarrow> gval" where
  "json_of_int n = GNumber (show_int n)"

definition filterQuery :: "string \<Rightarrow> int \<Rightarrow> int \<Rightarrow> gval" where
  "filterQuery channelID startTS endTS =
     GMap [(''bool'', GMap
       [(''filter'', GSlice
           [GMap [(''term'', GMap [(''channelId'', json_of_string channelID)])],
            GMap [(''range'', GMap [(''timestamp'',
              GMap [(''gte'', json_of_int startTS), (''lte'', json_of_int endTS)])])]]),
        (''must_not'', GSlice [GMap [(''term'', GMap [(''virtual'', GBool True)])]])])]"

section \<open>Operations\<close>

definition OSClient_Ping :: "'a World_scheme Transport \<Rightarrow> ctx \<Rightarrow> 'a World_scheme
  \<Rightarrow> err option \<times> 'a World_scheme" where
  "OSClient_Ping tp c w =
     (case tp_Info tp c w of
        (Inl e, w1) \<Rightarrow> (Some e, w1)
      | (Inr r, w1) \<Rightarrow>
          (if IsError r then Some (ErrMsg (''os ping: '' @ rs_Status r)) else None, w1))"

definition OSClient_Count :: "'a World_scheme Transport \<Rightarrow> ctx \<Rightarrow> string \<Rightarrow> string \<Rightarrow> int \<Rightarrow> int
  \<Rightarrow> 'a World_scheme \<Rightarrow> int res \<times> 'a World_scheme" where
  "OSClient_Count tp c index channelID startTS endTS w =
     (case tp_Count tp c index (GMap [(''query'', filterQuery channelID startTS endTS)]) w of
        (resp, w1) \<Rightarrow>
          (let w2 = emit (Observe ''os_search_duration_seconds'' [''count'']) w1;
               bad = emit (Inc ''os_search_total'' [''count'', ''err'']) w2
           in case resp of
                Inl _ \<Rightarrow> (Inl (ErrMsg ''os count''), bad)
              | Inr r \<Rightarrow>
                  if IsError r then (Inl (ErrMsg (''os count status: '' @ readError (rs_text r))), bad)
                  else (case Option.bind (Option.bind (rs_json r) map_field)
                               (\<lambda>m. int_field (gget m ''count'')) of
                          None \<Rightarrow> (Inl (ErrMsg ''decode count''), bad)
                        | Some n \<Rightarrow> (Inr n, emit (Inc ''os_search_total'' [''count'', ''ok'']) w2))))"

text \<open>
  The URL parser behind \<open>http.NewRequestWithContext\<close> refuses control characters and a percent
  sign that two hexadecimal digits do not follow.
\<close>

definition is_hex :: "char \<Rightarrow> bool" where
  "is_hex c \<longleftrightarrow> c \<in> set ''0123456789abcdefABCDEF''"

fun escapes_ok :: "string \<Rightarrow> bool" where
  "escapes_ok [] = True"
| "escapes_ok (c # cs) =
     (if c = CHR ''%'' then (case cs of a # b # _ \<Rightarrow> is_hex a \<and> is_hex b | _ \<Rightarrow> False) \<and> escapes_ok cs
      else escapes_ok cs)"

definition url_ok :: "string \<Rightarrow> bool" where
  "url_ok s \<longleftrightarrow>
     list_all (\<lambda>c. 32 \<le> (of_char c :: nat) \<and> of_char c \<noteq> (127::nat)) s
     \<and> escapes_ok (takeWhile (\<lambda>c. c \<noteq> CHR ''?'') s)"

definition OSClient_OpenPIT :: "'a World_scheme Transport \<Rightarrow> ctx \<Rightarrow> string \<Rightarrow> int
  \<Rightarrow> 'a World_scheme \<Rightarrow> string res \<times> 'a World_scheme" where
  "OSClient_OpenPIT tp c index keepAlive w =
     (let path = ''/'' @ index @ ''/_search/point_in_time?keep_alive='' @ durString keepAlive
      in if \<not> url_ok path then (Inl (ErrMsg ''parse url''), w)
         else case tp_Perform tp c ''POST'' path None w of
           (resp, w1) \<Rightarrow>
             (let w2 = emit (Observe ''os_search_duration_seconds'' [''open_pit'']) w1
              in case resp of
                   Inl _ \<Rightarrow> (Inl (ErrMsg ''open pit''), w2)
                 | Inr r \<Rightarrow>
                     if 300 \<le> rs_StatusCode r
                     then (Inl (ErrMsg (''open pit status '' @ show_int (rs_StatusCode r) @ '': ''
                             @ readError (rs_text r))), w2)
                     else (case Option.bind (Option.bind (rs_json r) map_field)
                                  (\<lambda>m. string_field (gget m ''pit_id'')) of
                             None \<Rightarrow> (Inl (ErrMsg ''decode pit''), w2)
                           | Some p \<Rightarrow>
                               (if p = [] then Inl (ErrMsg ''open pit: empty pit_id'') else Inr p, w2))))"

definition OSClient_ClosePIT :: "'a World_scheme Transport \<Rightarrow> ctx \<Rightarrow> string
  \<Rightarrow> 'a World_scheme \<Rightarrow> err option \<times> 'a World_scheme" where
  "OSClient_ClosePIT tp c pitID w =
     (case tp_Perform tp c ''DELETE'' ''/_search/point_in_time''
             (Some (GMap [(''pit_id'', json_of_string pitID)])) w of
        (resp, w1) \<Rightarrow>
          (let w2 = emit (Observe ''os_search_duration_seconds'' [''close_pit'']) w1
           in case resp of
                Inl _ \<Rightarrow> (Some (ErrMsg ''close pit''), w2)
              | Inr _ \<Rightarrow> (None, w2)))"

text \<open>Decoding a page: the sources and sort values, then the fields of each hit.\<close>

definition hit_of_source :: "gmap \<Rightarrow> gval list \<Rightarrow> Hit" where
  "hit_of_source src srt =
     \<lparr>hit_MessageSeq = toInt64 (gget src ''messageSeq''),
      hit_MessageID = toInt64 (gget src ''messageId''),
      hit_SubSeq = toInt64 (gget src ''subSeq''),
      hit_From = toStr (gget src ''from''),
      hit_ChannelID = toStr (gget src ''channelId''),
      hit_Timestamp = toInt64 (gget src ''timestamp''),
      hit_Payload = as_map (gget src ''payload''),
      hit_PayloadRaw = as_map (gget src ''payloadRaw''),
      hit_Sort = srt\<rparr>"

definition decode_hit :: "gval \<Rightarrow> Hit option" where
  "decode_hit v =
     Option.bind (map_field v) (\<lambda>m.
     Option.bind (map_field (gget m ''_source'')) (\<lambda>src.
     Option.bind (list_field Some (gget m ''sort'')) (\<lambda>srt.
       Some (hit_of_source src srt))))"

definition parseHits :: "gval option \<Rightarrow> Hit list res" where
  "parseHits body =
     (case Option.bind (Option.bind body map_field) (\<lambda>m.
           Option.bind (map_field (gget m ''hits'')) (\<lambda>h.
             list_field decode_hit (gget h ''hits''))) of
        None \<Rightarrow> Inl (ErrMsg ''decode search'')
      | Some hs \<Rightarrow> Inr hs)"

definition search_body :: "SearchRequest \<Rightarrow> gval" where
  "search_body req = GMap
     ([(''size'', json_of_int (sr_Size req)),
       (''query'', filterQuery (sr_ChannelID req) (sr_StartTS req) (sr_EndTS req)),
       (''sort'', GSlice [GMap [(''messageId'', GString ''desc'')], GMap [(''subSeq'', GString ''desc'')]]),
       (''pit'', GMap [(''id'', json_of_string (sr_PITID req)),
                     (''keep_alive'', GString (durString (sr_KeepAlive req)))])]
      @ (if sr_SearchAfter req = [] then [] else [(''search_after'', GSlice (sr_SearchAfter req))]))"

definition OSClient_Search :: "'a World_scheme Transport \<Rightarrow> ctx \<Rightarrow> SearchRequest
  \<Rightarrow> 'a World_scheme \<Rightarrow> Hit list res \<times> 'a World_scheme" where
  "OSClient_Search tp c req w =
     (case tp_Search tp c (search_body req) w of
        (resp, w1) \<Rightarrow>
          (let w2 = emit (Observe ''os_search_duration_seconds'' [''search'']) w1;
               bad = emit (Inc ''os_search_total'' [''search'', ''err'']) w2
           in case resp of
                Inl _ \<Rightarrow> (Inl (ErrMsg ''os search''), bad)
              | Inr r \<Rightarrow>
                  if IsError r then (Inl (ErrMsg (''os search status: '' @ readError (rs_text r))), bad)
                  else (parseHits (rs_json r),
                        emit (Inc ''os_search_total'' [''search'', ''ok'']) w2)))"

definition OSClient :: "'a World_scheme Transport \<Rightarrow> 'a World_scheme Client" where
  "OSClient tp =
     \<lparr>os_Count = OSClient_Count tp, os_OpenPIT = OSClient_OpenPIT tp,
      os_ClosePIT = OSClient_ClosePIT tp, os_Search = OSClient_Search tp,
      os_Ping = OSClient_Ping tp\<rparr>"

section \<open>Integers pass exactly\<close>

lemma toInt64_exact: "in_i64 n \<Longrightarrow> toInt64 (GNumber (show_int n)) = n"
  by (simp add: ParseInt_show_int)

section \<open>What the executor relies on\<close>

text \<open>Sizes are not negative and every number is an \<open>int64\<close>, as its Go type has it.\<close>

definition request_ok :: "SearchRequest \<Rightarrow> bool" where
  "request_ok req \<longleftrightarrow>
     0 \<le> sr_Size req \<and> in_i64 (sr_Size req) \<and> in_i64 (sr_StartTS req) \<and> in_i64 (sr_EndTS req)"

text \<open>
  The hits of a handle, channel and time range form one list; a page without a cursor is its
  beginning, a page whose cursor is the sort value of one of its hits continues after that
  hit, and no hit has an empty sort value.
\<close>

locale paged_search =
  fixes Search :: "ctx \<Rightarrow> SearchRequest \<Rightarrow> 'w \<Rightarrow> Hit list res \<times> 'w"
    and result_set :: "string \<Rightarrow> string \<Rightarrow> int \<Rightarrow> int \<Rightarrow> Hit list"
  assumes first_page: "Search c req w = (Inr page, w') \<Longrightarrow> request_ok req \<Longrightarrow>
      sr_SearchAfter req = [] \<Longrightarrow>
      page = take (nat (sr_Size req))
        (result_set (sr_PITID req) (sr_ChannelID req) (sr_StartTS req) (sr_EndTS req))"
    and next_page: "Search c req w = (Inr page, w') \<Longrightarrow> request_ok req \<Longrightarrow>
      hs = result_set (sr_PITID req) (sr_ChannelID req) (sr_StartTS req) (sr_EndTS req) \<Longrightarrow>
      i < length hs \<Longrightarrow> sr_SearchAfter req = hit_Sort (hs ! i) \<Longrightarrow>
      page = take (nat (sr_Size req)) (drop (Suc i) hs)"
    and cursor: "h \<in> set (result_set p ch s e) \<Longrightarrow> hit_Sort h \<noteq> []"

text \<open>The cursor left by a page that ended after \<open>n\<close> hits: none before the first one.\<close>

definition cursor_at :: "Hit list \<Rightarrow> nat \<Rightarrow> gval list" where
  "cursor_at hs n = (if n = 0 then [] else hit_Sort (hs ! (n - 1)))"

context paged_search begin

lemma page_at:
  assumes "Search c req w = (Inr page, w')" and "request_ok req"
    and "hs = result_set (sr_PITID req) (sr_ChannelID req) (sr_StartTS req) (sr_EndTS req)"
    and "n \<le> length hs" and "sr_SearchAfter req = cursor_at hs n"
  shows "page = take (nat (sr_Size req)) (drop n hs)"
proof (cases n)
  case 0
  with assms first_page [OF assms(1,2)] show ?thesis by (simp add: cursor_at_def)
next
  case (Suc i)
  with assms next_page [OF assms(1,2,3), of i] show ?thesis by (simp add: cursor_at_def)
qed

end

section \<open>The search service\<close>

text \<open>
  The query language as far as the client uses it, on the documents of one snapshot: term
  and range clauses, the two lists of a bool query, descending order by \<open>(messageId, subSeq)\<close>,
  the cursor and the size.
\<close>

definition num :: "gval \<Rightarrow> int" where
  "num v = toInt64 v"

fun leaf_matches :: "gval \<Rightarrow> gmap \<Rightarrow> bool" where
  "leaf_matches (GMap [(op, GMap [(f, v)])]) doc =
     (if op = ''term'' then gget doc f = v
      else if op = ''range'' then
        (case (v, gget doc f) of
           (GMap bounds, GNumber s) \<Rightarrow>
             list_all (\<lambda>(b, x). (b = ''gte'' \<longrightarrow> num x \<le> num (GNumber s))
                              \<and> (b = ''lte'' \<longrightarrow> num (GNumber s) \<le> num x)) bounds
         | _ \<Rightarrow> False)
      else False)"
| "leaf_matches _ _ = False"

definition clause :: "gmap \<Rightarrow> string \<Rightarrow> gval list" where
  "clause m k = (case gget m k of GSlice vs \<Rightarrow> vs | _ \<Rightarrow> [])"

definition bool_matches :: "gval \<Rightarrow> gmap \<Rightarrow> bool" where
  "bool_matches q doc =
     (case Option.bind (as_map q) (\<lambda>m. as_map (gget m ''bool'')) of
        None \<Rightarrow> False
      | Some b \<Rightarrow> list_all (\<lambda>l. leaf_matches l doc) (clause b ''filter'')
                \<and> list_all (\<lambda>l. \<not> leaf_matches l doc) (clause b ''must_not''))"

definition doc_key :: "gmap \<Rightarrow> int \<times> int" where
  "doc_key doc = (num (gget doc ''messageId''), num (gget doc ''subSeq''))"

definition doc_sort :: "gmap \<Rightarrow> gval list" where
  "doc_sort doc = [gget doc ''messageId'', gget doc ''subSeq'']"

text \<open>Newest first.\<close>

definition newest_first :: "gmap list \<Rightarrow> gmap list" where
  "newest_first docs = rev (sort_key doc_key docs)"

definition after_key :: "gval list \<Rightarrow> gmap \<Rightarrow> bool" where
  "after_key cur doc =
     (case cur of [a, b] \<Rightarrow> doc_key doc < (num a, num b) | _ \<Rightarrow> True)"

definition eval_search :: "gval \<Rightarrow> gmap list \<Rightarrow> gmap list" where
  "eval_search body docs =
     (case as_map body of
        None \<Rightarrow> []
      | Some b \<Rightarrow>
          take (nat (num (gget b ''size'')))
            (filter (after_key (clause b ''search_after''))
              (newest_first (filter (bool_matches (gget b ''query'')) docs))))"

definition search_reply :: "gmap list \<Rightarrow> gval" where
  "search_reply docs = GMap [(''hits'', GMap [(''hits'',
     GSlice (map (\<lambda>d. GMap [(''_source'', GMap d), (''sort'', GSlice (doc_sort d))]) docs))])]"

definition pit_of :: "gval \<Rightarrow> string" where
  "pit_of body =
     (case Option.bind (as_map body) (\<lambda>b. as_map (gget b ''pit'')) of
        None \<Rightarrow> [] | Some p \<Rightarrow> toStr (gget p ''id''))"

text \<open>The documents of an index: the two key fields are 64-bit integers, unique as a pair.\<close>

fun is_i64_json :: "gval \<Rightarrow> bool" where
  "is_i64_json (GNumber s) \<longleftrightarrow> \<not> snd (ParseInt s)"
| "is_i64_json _ \<longleftrightarrow> False"

definition index_ok :: "gmap list \<Rightarrow> bool" where
  "index_ok docs \<longleftrightarrow>
     distinct (map doc_key docs)
     \<and> list_all (\<lambda>d. is_i64_json (gget d ''messageId'') \<and> is_i64_json (gget d ''subSeq'')) docs"

text \<open>A handle names one snapshot for as long as searches on it succeed.\<close>

locale opensearch =
  fixes tp :: "'a World_scheme Transport"
    and snapshot :: "string \<Rightarrow> gmap list"
  assumes search_json: "tp_Search tp c body w = (Inr r, w') \<Longrightarrow> \<not> IsError r \<Longrightarrow>
      rs_json r = Some (search_reply (eval_search body (snapshot (pit_of body))))"
    and snapshot_ok: "index_ok (snapshot p)"

text \<open>The hits the client promises for a snapshot.\<close>

fun in_range :: "int \<Rightarrow> int \<Rightarrow> gval \<Rightarrow> bool" where
  "in_range s e (GNumber x) \<longleftrightarrow> s \<le> num (GNumber x) \<and> num (GNumber x) \<le> e"
| "in_range s e _ \<longleftrightarrow> False"

definition channel_docs :: "gmap list \<Rightarrow> string \<Rightarrow> int \<Rightarrow> int \<Rightarrow> gmap list" where
  "channel_docs docs ch s e =
     filter (\<lambda>d. gget d ''channelId'' = GString (to_valid ch) \<and> gget d ''virtual'' \<noteq> GBool True
        \<and> in_range s e (gget d ''timestamp'')) docs"

definition os_hits :: "(string \<Rightarrow> gmap list) \<Rightarrow> string \<Rightarrow> string \<Rightarrow> int \<Rightarrow> int \<Rightarrow> Hit list" where
  "os_hits snapshot p ch s e =
     map (\<lambda>d. hit_of_source d (doc_sort d))
       (newest_first (channel_docs (snapshot (to_valid p)) ch s e))"


section \<open>The client meets the executor's contract\<close>

lemma num_json_of_int [simp]: "in_i64 n \<Longrightarrow> num (json_of_int n) = n"
  by (simp add: num_def json_of_int_def ParseInt_show_int)

lemma range_leaf:
  assumes "in_i64 s" and "in_i64 e"
  shows "leaf_matches (GMap [(''range'', GMap [(f, GMap [(''gte'', json_of_int s),
      (''lte'', json_of_int e)])])]) doc = in_range s e (gget doc f)"
  using assms by (cases "gget doc f") auto

lemma filterQuery_matches:
  assumes "in_i64 s" and "in_i64 e"
  shows "bool_matches (filterQuery ch s e) doc \<longleftrightarrow>
    gget doc ''channelId'' = GString (to_valid ch) \<and> gget doc ''virtual'' \<noteq> GBool True
    \<and> in_range s e (gget doc ''timestamp'')"
proof -
  have "bool_matches (filterQuery ch s e) doc \<longleftrightarrow>
      leaf_matches (GMap [(''term'', GMap [(''channelId'', json_of_string ch)])]) doc
      \<and> leaf_matches (GMap [(''range'', GMap [(''timestamp'', GMap [(''gte'', json_of_int s),
          (''lte'', json_of_int e)])])]) doc
      \<and> \<not> leaf_matches (GMap [(''term'', GMap [(''virtual'', GBool True)])]) doc"
    by (simp add: bool_matches_def filterQuery_def clause_def gget_def del: leaf_matches.simps)
  then show ?thesis
    unfolding range_leaf [OF assms] by (auto simp: json_of_string_def)
qed

lemma channel_docs_query:
  assumes "in_i64 s" and "in_i64 e"
  shows "filter (bool_matches (filterQuery ch s e)) docs = channel_docs docs ch s e"
  using filterQuery_matches [OF assms] by (simp add: channel_docs_def cong: filter_cong)

lemma search_body_fields:
  "as_map (search_body req) = Some
     ([(''size'', json_of_int (sr_Size req)),
       (''query'', filterQuery (sr_ChannelID req) (sr_StartTS req) (sr_EndTS req)),
       (''sort'', GSlice [GMap [(''messageId'', GString ''desc'')], GMap [(''subSeq'', GString ''desc'')]]),
       (''pit'', GMap [(''id'', json_of_string (sr_PITID req)),
                     (''keep_alive'', GString (durString (sr_KeepAlive req)))])]
      @ (if sr_SearchAfter req = [] then [] else [(''search_after'', GSlice (sr_SearchAfter req))]))"
  by (simp add: search_body_def)

lemma pit_of_body: "pit_of (search_body req) = to_valid (sr_PITID req)"
  by (simp add: pit_of_def search_body_fields gget_def json_of_string_def)

lemma eval_search_body:
  assumes "request_ok req"
  shows "eval_search (search_body req) docs =
    take (nat (sr_Size req)) (filter (after_key (sr_SearchAfter req))
      (newest_first (channel_docs docs (sr_ChannelID req) (sr_StartTS req) (sr_EndTS req))))"
  using assms
  by (simp add: eval_search_def search_body_fields gget_def clause_def request_ok_def
      channel_docs_query)

lemma decode_reply: "parseHits (Some (search_reply docs)) = Inr (map (\<lambda>d. hit_of_source d (doc_sort d)) docs)"
proof -
  let ?g = "\<lambda>d. GMap [(''_source'', GMap d), (''sort'', GSlice (doc_sort d))]"
  have "all_some (map Some xs) = Some xs" for xs :: "gval list" by (induction xs) auto
  then have "decode_hit (?g d) = Some (hit_of_source d (doc_sort d))" for d
    by (simp add: decode_hit_def gget_def)
  then have "all_some (map decode_hit (map ?g docs)) = Some (map (\<lambda>d. hit_of_source d (doc_sort d)) docs)"
    by (induction docs) auto
  then show ?thesis by (simp add: parseHits_def search_reply_def gget_def)
qed

text \<open>On distinct keys, what lies strictly below the key of an element is what follows it.\<close>

lemma sorted_wrt_drop:
  assumes "sorted_wrt (\<lambda>x y. k y < k x) (ds :: 'b list)" and "i < length ds"
  shows "filter (\<lambda>d. (k d :: 'c :: linorder) < k (ds ! i)) ds = drop (Suc i) ds"
  using assms
proof (induction ds arbitrary: i)
  case Nil
  then show ?case by simp
next
  case (Cons x xs)
  show ?case
  proof (cases i)
    case 0
    with Cons.prems(1) show ?thesis by simp
  next
    case (Suc j)
    with Cons have "k (xs ! j) < k x" "filter (\<lambda>d. k d < k (xs ! j)) xs = drop (Suc j) xs" by simp_all
    with Suc show ?thesis by (auto simp: not_less_iff_gr_or_eq)
  qed
qed

lemma newest_first_desc:
  assumes "distinct (map doc_key docs)"
  shows "sorted_wrt (\<lambda>x y. doc_key y < doc_key x) (newest_first docs)"
proof -
  have "distinct (map doc_key (sort_key doc_key docs))"
    using assms by (metis distinct_map distinct_sort inj_on_def set_sort)
  then have "sorted_wrt (<) (map doc_key (sort_key doc_key docs))"
    using sorted_sort_key [of doc_key docs] by (simp only: strict_sorted_iff)
  then show ?thesis
    by (simp add: newest_first_def sorted_wrt_rev sorted_wrt_map)
qed

lemma set_newest_first [simp]: "set (newest_first docs) = set docs"
  by (simp add: newest_first_def)

lemma channel_docs_distinct: "index_ok docs \<Longrightarrow> distinct (map doc_key (channel_docs docs ch s e))"
  by (simp add: index_ok_def channel_docs_def distinct_map_filter)

sublocale opensearch \<subseteq> pages: paged_search "OSClient_Search tp" "os_hits snapshot"
proof (unfold_locales, goal_cases)
  case (1 c req w page w')
  then show ?case
    by (auto simp: OSClient_Search_def Let_def os_hits_def decode_reply pit_of_body eval_search_body
        after_key_def take_map dest!: search_json split: prod.splits sum.splits if_splits)
next
  case (2 c req w page w' hs i)
  define ds where "ds = newest_first (channel_docs (snapshot (to_valid (sr_PITID req)))
    (sr_ChannelID req) (sr_StartTS req) (sr_EndTS req))"
  have hs: "hs = map (\<lambda>d. hit_of_source d (doc_sort d)) ds"
    using 2(3) by (simp add: os_hits_def ds_def)
  with 2(4) have i: "i < length ds" by simp
  have "sr_SearchAfter req = doc_sort (ds ! i)"
    using 2(5) hs i by (simp add: hit_of_source_def)
  then have key: "after_key (sr_SearchAfter req) = (\<lambda>d. doc_key d < doc_key (ds ! i))"
    by (auto simp: after_key_def doc_sort_def doc_key_def)
  have "sorted_wrt (\<lambda>x y. doc_key y < doc_key x) ds"
    unfolding ds_def by (intro newest_first_desc channel_docs_distinct snapshot_ok)
  from sorted_wrt_drop [OF this i] key
  have "filter (after_key (sr_SearchAfter req)) ds = drop (Suc i) ds" by simp
  moreover have "page = map (\<lambda>d. hit_of_source d (doc_sort d))
      (take (nat (sr_Size req)) (filter (after_key (sr_SearchAfter req)) ds))"
    using 2(1,2)
    by (auto simp: OSClient_Search_def Let_def decode_reply pit_of_body eval_search_body ds_def
        dest!: search_json split: prod.splits sum.splits if_splits)
  ultimately show ?case using hs by (simp add: take_map drop_map)
next
  case (3 h p ch s e)
  then show ?case by (auto simp: os_hits_def hit_of_source_def doc_sort_def)
qed

context opensearch begin

lemma page_exact:
  assumes "OSClient_Search tp c req w = (Inr page, w')" and "request_ok req"
    and "hs = os_hits snapshot (sr_PITID req) (sr_ChannelID req) (sr_StartTS req) (sr_EndTS req)"
    and "n \<le> length hs" and "sr_SearchAfter req = cursor_at hs n"
  shows "page = take (nat (sr_Size req)) (drop n hs)"
  using pages.page_at [OF assms] .

end

end
