(* ===== verification/Payload.thy ===== *)
theory Payload
  imports Domain_Types
begin

text \<open>
  \<open>internal/result/payload.go\<close>: the extraction of a message's plain text from the payload
  object of its index document. A nil map is \<open>None\<close>. Besides its result \<open>extractPayload\<close>
  returns the metric calls it makes; no branch of it can panic, so the deferred recover of
  the source never fires.
\<close>

definition getStr :: "gmap \<Rightarrow> string \<Rightarrow> string" where
  "getStr m key = (case as_string (gget m key) of Some s \<Rightarrow> s | None \<Rightarrow> [])"

definition nestedContent :: "gmap \<Rightarrow> string" where
  "nestedContent payload =
     (case as_map (gget payload ''text'') of Some t \<Rightarrow> getStr t ''content'' | None \<Rightarrow> [])"

fun toInt :: "gval \<Rightarrow> int" where
  "toInt (GFloat64 x) = float_to_i64 x"
| "toInt (GInt n) = n"
| "toInt (GInt64 n) = n"
| "toInt (GNumber s) = fst (ParseInt s)"
| "toInt _ = 0"

definition PayloadParseSkip :: metric where
  "PayloadParseSkip = Inc ''payload_parse_skip_total'' []"

definition extractPayload :: "gmap option \<Rightarrow> gmap option \<Rightarrow> string option \<times> metric list" where
  "extractPayload payload payloadRaw =
     (case payload of
        None \<Rightarrow> (None, [PayloadParseSkip])
      | Some p \<Rightarrow>
          (let ty = toInt (gget p ''type'') in
           if ty = 1 then
             (let c = nestedContent p in
              if c \<noteq> [] then (Some c, [])
              else (case payloadRaw of
                      None \<Rightarrow> (Some [], [])
                    | Some r \<Rightarrow>
                        (let c = getStr r ''content'' in
                         if c \<noteq> [] then (Some c, []) else (Some [], []))))
           else if ty = 14 then
             (case as_map (gget p ''richText'') of
                None \<Rightarrow> (Some [], [])
              | Some rt \<Rightarrow>
                  (let st = getStr rt ''searchText'' in
                   if st \<noteq> [] then (Some st, []) else (Some [], [])))
           else (None, [PayloadParseSkip])))"

section \<open>What is extracted\<close>

definition payload_type :: "gmap option \<Rightarrow> int option" where
  "payload_type payload = map_option (\<lambda>p. toInt (gget p ''type'')) payload"

text \<open>A message is kept exactly when its type is 1 or 14, and each skip is counted once.\<close>

lemma extractPayload_kept:
  "fst (extractPayload p r) \<noteq> None \<longleftrightarrow> payload_type p = Some 1 \<or> payload_type p = Some 14"
  by (auto simp: extractPayload_def payload_type_def Let_def split: option.splits)

lemma extractPayload_metrics:
  "snd (extractPayload p r) = (if fst (extractPayload p r) = None then [PayloadParseSkip] else [])"
  by (auto simp: extractPayload_def Let_def split: option.splits)

text \<open>The text of a kept message: the nested content, with the raw object as the fallback of
  type 1 only; the empty text when neither is there.\<close>

lemma extractPayload_text:
  "extractPayload (Some p) r =
     (if toInt (gget p ''type'') = 1 then
        (Some (if nestedContent p \<noteq> [] then nestedContent p
               else case r of None \<Rightarrow> [] | Some m \<Rightarrow> getStr m ''content''), [])
      else if toInt (gget p ''type'') = 14 then
        (Some (case as_map (gget p ''richText'') of None \<Rightarrow> [] | Some m \<Rightarrow> getStr m ''searchText''), [])
      else (None, [PayloadParseSkip]))"
  by (auto simp: extractPayload_def Let_def split: option.splits)

end
