(* ===== verification/Result_Writer.thy ===== *)
theory Result_Writer
  imports Payload
begin

text \<open>
  \<open>internal/result/writer.go\<close>: the task-level NDJSON writer. It turns accepted messages into
  JSON lines, collects them in the current part, rolls a part over when either its row count
  or its decompressed size reaches the limit, and records the metadata of every uploaded
  part. The uploader is an argument, as in the source (\<open>Uploader\<close>); so are gzip compression
  and the SHA-256 digest, which the statements use only through named hypotheses.
\<close>

section \<open>State\<close>

record InputMessage =
  im_MessageSeq :: int
  im_From :: string
  im_ChannelID :: string
  im_Timestamp :: int
  im_Payload :: "gmap option"
  im_PayloadRaw :: "gmap option"

record outLine =
  ol_MessageSeq :: int
  ol_FromUID :: string
  ol_ChannelID :: string
  ol_Timestamp :: int
  ol_Payload :: string

text \<open>
  A \<open>gzip.Writer\<close> over a \<open>bytes.Buffer\<close>: open, closed, or in the sticky error state a write
  after \<open>Close\<close> puts it in. A write to an open one never fails (\<open>bytes.Buffer\<close> takes all).
\<close>

datatype gz_state = GzOpen | GzClosed | GzErr

text \<open>\<open>pb_raw\<close> are the bytes written to the compressor so far.\<close>

record partBuffer =
  pb_raw :: string
  pb_gz :: gz_state
  pb_rows :: int
  pb_rawSize :: int

record Writer =
  w_taskID :: string
  w_caller :: string
  w_day :: string
  w_maxRows :: int
  w_maxByte :: int
  w_parts :: "Part list"
  w_partSeq :: int
  w_cur :: "partBuffer option"
  w_curChannel :: string

text \<open>
  The writer's surroundings over a world \<open>'w\<close>: \<open>Upload taskID caller partSeq day data\<close>, the
  compressor, the digest and the metric calls.
\<close>

type_synonym 'w Uploader =
  "string \<Rightarrow> string \<Rightarrow> int \<Rightarrow> string \<Rightarrow> string \<Rightarrow> 'w \<Rightarrow> string res \<times> 'w"

record 'w WriterEnv =
  we_Upload :: "'w Uploader"
  we_gzip :: "string \<Rightarrow> string"
  we_sha256 :: "string \<Rightarrow> string"
  we_metric :: "metric \<Rightarrow> 'w \<Rightarrow> 'w"

section \<open>Operations\<close>

definition err_text :: "err \<Rightarrow> string" where
  "err_text e = (case e of ErrNotFound \<Rightarrow> ''task not found''
     | ErrQueueFull \<Rightarrow> ''executor queue full'' | ErrMsg s \<Rightarrow> s)"

text \<open>\<open>json.Marshal(outLine)\<close>; it never fails on this struct of integers and strings.\<close>

definition Marshal_outLine :: "outLine \<Rightarrow> string option" where
  "Marshal_outLine l = Some
     (CHR 0x7B # json_key ''message_seq'' @ show_int (ol_MessageSeq l)
      @ CHR '','' # json_key ''from_uid'' @ json_string (ol_FromUID l)
      @ CHR '','' # json_key ''channel_id'' @ json_string (ol_ChannelID l)
      @ CHR '','' # json_key ''timestamp'' @ show_int (ol_Timestamp l)
      @ CHR '','' # json_key ''payload'' @ json_string (ol_Payload l) @ [CHR 0x7D])"

text \<open>The day is read from the clock when the writer is made.\<close>

definition NewWriter :: "string \<Rightarrow> string \<Rightarrow> int \<Rightarrow> int \<Rightarrow> string \<Rightarrow> Writer" where
  "NewWriter taskID caller maxRows maxBytes day =
     \<lparr>w_taskID = taskID, w_caller = caller, w_day = day, w_maxRows = maxRows,
      w_maxByte = maxBytes, w_parts = [], w_partSeq = 0, w_cur = None, w_curChannel = []\<rparr>"

definition newPartBuffer :: partBuffer where
  "newPartBuffer = \<lparr>pb_raw = [], pb_gz = GzOpen, pb_rows = 0, pb_rawSize = 0\<rparr>"

definition hex_bytes :: "string \<Rightarrow> string" where
  "hex_bytes s = concat (map (\<lambda>c. [hex_digit (of_char c div 16), hex_digit (of_char c mod 16)]) s)"

definition flush :: "'w WriterEnv \<Rightarrow> Writer \<Rightarrow> 'w \<Rightarrow> err option \<times> Writer \<times> 'w" where
  "flush d w u =
     (case w_cur w of
        None \<Rightarrow> (None, w, u)
      | Some pb \<Rightarrow>
          if pb_rows pb = 0 then (None, w\<lparr>w_cur := None\<rparr>, u)
          else if pb_gz pb = GzErr then (Some (ErrMsg ''gzip close''), w, u)
          else
            (let data = we_gzip d (pb_raw pb);
                 sum = hex_bytes (we_sha256 d data);
                 w1 = w\<lparr>w_cur := Some (pb\<lparr>pb_gz := GzClosed\<rparr>)\<rparr>
             in case we_Upload d (w_taskID w) (w_caller w) (w_partSeq w) (w_day w) data u of
                  (Inl e, u1) \<Rightarrow>
                    (Some (ErrMsg (''upload part '' @ show_int (w_partSeq w) @ '': '' @ err_text e)),
                     w1, u1)
                | (Inr key, u1) \<Rightarrow>
                    (None,
                     w1\<lparr>w_parts := w_parts w @
                           [\<lparr>p_TaskID = w_taskID w, p_PartSeq = w_partSeq w, p_S3Key = key,
                             p_SizeBytes = int (length data), p_MessageCount = pb_rows pb,
                             p_SHA256 = sum, p_ChannelIDs = [w_curChannel w], p_CreatedAt = 0\<rparr>],
                        w_partSeq := w_partSeq w + 1, w_cur := None\<rparr>,
                     we_metric d (Observe ''part_size_bytes'' []) u1)))"

definition StartChannel :: "'w WriterEnv \<Rightarrow> string \<Rightarrow> Writer \<Rightarrow> 'w \<Rightarrow> err option \<times> Writer \<times> 'w" where
  "StartChannel d channelID w u =
     (case w_cur w of
        None \<Rightarrow> (None, w\<lparr>w_curChannel := channelID\<rparr>, u)
      | Some _ \<Rightarrow>
          (case flush d w u of
             (Some e, w1, u1) \<Rightarrow> (Some e, w1, u1)
           | (None, w1, u1) \<Rightarrow> (None, w1\<lparr>w_curChannel := channelID\<rparr>, u1)))"

definition outLine_of :: "InputMessage \<Rightarrow> string \<Rightarrow> outLine" where
  "outLine_of m text =
     \<lparr>ol_MessageSeq = im_MessageSeq m, ol_FromUID = im_From m, ol_ChannelID = im_ChannelID m,
      ol_Timestamp = im_Timestamp m, ol_Payload = text\<rparr>"

definition Write :: "'w WriterEnv \<Rightarrow> InputMessage \<Rightarrow> Writer \<Rightarrow> 'w \<Rightarrow> bool res \<times> Writer \<times> 'w" where
  "Write d m w u =
     (case extractPayload (im_Payload m) (im_PayloadRaw m) of
        (None, ms) \<Rightarrow> (Inr False, w, fold (we_metric d) ms u)
      | (Some text, ms) \<Rightarrow>
          (case Marshal_outLine (outLine_of m text) of
             None \<Rightarrow> (Inr False, w, we_metric d PayloadParseSkip (fold (we_metric d) ms u))
           | Some js \<Rightarrow>
               (let line = js @ [lf];
                    u0 = fold (we_metric d) ms u;
                    pb = (case w_cur w of None \<Rightarrow> newPartBuffer | Some pb \<Rightarrow> pb)
                in if pb_gz pb \<noteq> GzOpen
                   then (Inl (ErrMsg ''gzip write''), w\<lparr>w_cur := Some (pb\<lparr>pb_gz := GzErr\<rparr>)\<rparr>, u0)
                   else
                     (let pb1 = pb\<lparr>pb_raw := pb_raw pb @ line, pb_rows := pb_rows pb + 1,
                                   pb_rawSize := pb_rawSize pb + int (length line)\<rparr>;
                          w1 = w\<lparr>w_cur := Some pb1\<rparr>
                      in if w_maxRows w \<le> pb_rows pb1 \<or> w_maxByte w \<le> pb_rawSize pb1
                         then (case flush d w1 u0 of
                                 (Some e, w2, u2) \<Rightarrow> (Inl e, w2, u2)
                               | (None, w2, u2) \<Rightarrow> (Inr True, w2, u2))
                         else (Inr True, w1, u0)))))"

definition Finish :: "'w WriterEnv \<Rightarrow> Writer \<Rightarrow> 'w \<Rightarrow> (Part list \<times> int) res \<times> Writer \<times> 'w" where
  "Finish d w u =
     (case flush d w u of
        (Some e, w1, u1) \<Rightarrow> (Inl e, w1, u1)
      | (None, w1, u1) \<Rightarrow> (Inr (w_parts w1, sum_list (map p_MessageCount (w_parts w1))), w1, u1))"

text \<open>\<open>gzipDecode\<close>: decompress and split into the non-empty lines; \<open>gunzip\<close> is the decompressor.\<close>

definition gzipDecode :: "(string \<Rightarrow> string option) \<Rightarrow> string \<Rightarrow> string list option" where
  "gzipDecode gunzip data =
     map_option (\<lambda>raw. filter (\<lambda>l. l \<noteq> []) (split_on lf raw)) (gunzip data)"

end
