(* ===== verification/Writer_Spec.thy ===== *)
theory Writer_Spec
  imports Result_Writer
begin

text \<open>
  What the result writer promises. An abstract writer only groups lines: a closed chunk is a
  channel with the lines of one part, and the open lines belong to the current channel. The
  concrete writer of \<open>Result_Writer\<close> simulates it step by step; the metadata of the parts,
  the row and size bounds and the row count of a task all follow from the simulation. The
  locale \<open>part_store\<close> states what the writer's client relies on of an uploader, and from it
  the stored objects hold exactly the chunks.
\<close>

section \<open>The abstract writer\<close>

type_synonym chunk = "string \<times> string list"

record AWriter =
  a_closed :: "chunk list"
  a_channel :: string
  a_open :: "string list"

definition a_init :: AWriter where
  "a_init = \<lparr>a_closed = [], a_channel = [], a_open = []\<rparr>"

definition a_flush :: "AWriter \<Rightarrow> AWriter" where
  "a_flush a =
     (if a_open a = [] then a
      else a\<lparr>a_closed := a_closed a @ [(a_channel a, a_open a)], a_open := []\<rparr>)"

definition a_start :: "string \<Rightarrow> AWriter \<Rightarrow> AWriter" where
  "a_start ch a = (a_flush a)\<lparr>a_channel := ch\<rparr>"

definition full :: "int \<Rightarrow> int \<Rightarrow> string list \<Rightarrow> bool" where
  "full R B ls \<longleftrightarrow> R \<le> int (length ls) \<or> B \<le> int (length (concat ls))"

definition a_write :: "int \<Rightarrow> int \<Rightarrow> string \<Rightarrow> AWriter \<Rightarrow> AWriter" where
  "a_write R B l a =
     (let a1 = a\<lparr>a_open := a_open a @ [l]\<rparr>
      in if full R B (a_open a1) then a_flush a1 else a1)"

section \<open>The simulation relation\<close>

text \<open>The line a kept message is written as, \<open>None\<close> for a skipped one.\<close>

definition line_of :: "InputMessage \<Rightarrow> string option" where
  "line_of m =
     (case fst (extractPayload (im_Payload m) (im_PayloadRaw m)) of
        None \<Rightarrow> None
      | Some text \<Rightarrow> map_option (\<lambda>js. js @ [lf]) (Marshal_outLine (outLine_of m text)))"

text \<open>The metadata of the \<open>i\<close>-th part, with the storage key left out.\<close>

definition part_meta :: "'w WriterEnv \<Rightarrow> string \<Rightarrow> nat \<times> chunk \<Rightarrow> Part" where
  "part_meta d taskID x =
     (case x of (i, ch, ls) \<Rightarrow>
       \<lparr>p_TaskID = taskID, p_PartSeq = int i, p_S3Key = [],
        p_SizeBytes = int (length (we_gzip d (concat ls))), p_MessageCount = int (length ls),
        p_SHA256 = hex_bytes (we_sha256 d (we_gzip d (concat ls))), p_ChannelIDs = [ch],
        p_CreatedAt = 0\<rparr>)"

definition part_metas :: "'w WriterEnv \<Rightarrow> string \<Rightarrow> chunk list \<Rightarrow> Part list" where
  "part_metas d taskID cs = map (part_meta d taskID) (enumerate 0 cs)"

definition keyless :: "Part \<Rightarrow> Part" where
  "keyless p = p\<lparr>p_S3Key := []\<rparr>"

definition open_buffer :: "string list \<Rightarrow> partBuffer option" where
  "open_buffer ls =
     (if ls = [] then None
      else Some \<lparr>pb_raw = concat ls, pb_gz = GzOpen, pb_rows = int (length ls),
                 pb_rawSize = int (length (concat ls))\<rparr>)"

definition sim :: "'w WriterEnv \<Rightarrow> AWriter \<Rightarrow> Writer \<Rightarrow> bool" where
  "sim d a w \<longleftrightarrow>
     w_curChannel w = a_channel a \<and> w_partSeq w = int (length (a_closed a)) \<and>
     w_cur w = open_buffer (a_open a) \<and>
     map keyless (w_parts w) = part_metas d (w_taskID w) (a_closed a)"

text \<open>The fields no operation writes.\<close>

definition same_task :: "Writer \<Rightarrow> Writer \<Rightarrow> bool" where
  "same_task w w' \<longleftrightarrow>
     w_taskID w' = w_taskID w \<and> w_caller w' = w_caller w \<and> w_day w' = w_day w \<and>
     w_maxRows w' = w_maxRows w \<and> w_maxByte w' = w_maxByte w"

lemma same_task_refl [simp]: "same_task w w"
  by (simp add: same_task_def)

lemma same_task_trans: "same_task u v \<Longrightarrow> same_task v w \<Longrightarrow> same_task u w"
  by (simp add: same_task_def)

lemma same_task_upd [simp]:
  "same_task w (w'\<lparr>w_cur := c\<rparr>) = same_task w w'"
  "same_task (w\<lparr>w_cur := c\<rparr>) w' = same_task w w'"
  "same_task w (w'\<lparr>w_curChannel := ch\<rparr>) = same_task w w'"
  by (simp_all add: same_task_def)

lemma flush_same_task: "flush d w u = (r, w', u') \<Longrightarrow> same_task w w'"
  by (auto simp: flush_def Let_def same_task_def split: option.splits if_splits prod.splits sum.splits)

lemma StartChannel_same_task: "StartChannel d ch w u = (r, w', u') \<Longrightarrow> same_task w w'"
  by (auto simp: StartChannel_def split: option.splits prod.splits dest: flush_same_task)

lemma Write_same_task: "Write d m w u = (r, w', u') \<Longrightarrow> same_task w w'"
  by (auto simp: Write_def Let_def split: option.splits prod.splits if_splits dest: flush_same_task)

section \<open>Simulation of each operation\<close>

lemma sim_init: "sim d a_init (NewWriter taskID caller R B day)"
  by (simp add: sim_def a_init_def NewWriter_def open_buffer_def part_metas_def)

lemma part_metas_snoc:
  "part_metas d t (cs @ [c]) = part_metas d t cs @ [part_meta d t (length cs, c)]"
  by (simp add: part_metas_def enumerate_append_eq)

lemma length_part_metas [simp]: "length (part_metas d t cs) = length cs"
  by (simp add: part_metas_def)

lemma flush_sim:
  assumes "sim d a w" and "flush d w u = (None, w', u')"
  shows "sim d (a_flush a) w'"
proof (cases "a_open a = []")
  case True
  with assms show ?thesis by (simp add: sim_def a_flush_def flush_def open_buffer_def)
next
  case False
  with assms show ?thesis
    by (auto simp: sim_def a_flush_def flush_def open_buffer_def Let_def part_metas_snoc
        part_meta_def keyless_def split: prod.splits sum.splits)
qed

lemma StartChannel_sim:
  assumes "sim d a w" and "StartChannel d ch w u = (None, w', u')"
  shows "sim d (a_start ch a) w'"
proof (cases "w_cur w")
  case None
  with assms show ?thesis
    by (auto simp: StartChannel_def sim_def a_start_def a_flush_def open_buffer_def split: if_splits)
next
  case (Some pb)
  with assms(2) obtain w1 where "flush d w u = (None, w1, u')" and "w' = w1\<lparr>w_curChannel := ch\<rparr>"
    by (auto simp: StartChannel_def split: prod.splits option.splits)
  with flush_sim [OF assms(1)] show ?thesis by (simp add: sim_def a_start_def)
qed

lemma Write_skip:
  assumes "line_of m = None"
  shows "Write d m w u = (Inr False, w, we_metric d PayloadParseSkip u)"
proof -
  have "fst (extractPayload (im_Payload m) (im_PayloadRaw m)) = None"
    using assms by (simp add: line_of_def Marshal_outLine_def split: option.splits)
  then show ?thesis
    using extractPayload_metrics [of "im_Payload m" "im_PayloadRaw m"]
    by (cases "extractPayload (im_Payload m) (im_PayloadRaw m)") (simp add: Write_def)
qed

text \<open>A kept message: the line joins the current part, which is then flushed when full.\<close>

lemma Write_line:
  assumes "line_of m = Some l" and "sim d a w"
  shows "Write d m w u =
    (let w1 = w\<lparr>w_cur := open_buffer (a_open a @ [l])\<rparr>
     in if full (w_maxRows w) (w_maxByte w) (a_open a @ [l])
        then (case flush d w1 u of
                (Some e, w2, u2) \<Rightarrow> (Inl e, w2, u2) | (None, w2, u2) \<Rightarrow> (Inr True, w2, u2))
        else (Inr True, w1, u))"
proof -
  obtain s js where t: "extractPayload (im_Payload m) (im_PayloadRaw m) = (Some s, [])"
    and js: "Marshal_outLine (outLine_of m s) = Some js" and l: "l = js @ [lf]"
    using assms(1) extractPayload_metrics [of "im_Payload m" "im_PayloadRaw m"]
    by (cases "extractPayload (im_Payload m) (im_PayloadRaw m)")
      (auto simp: line_of_def split: option.splits)
  have cur: "w_cur w = open_buffer (a_open a)" using assms(2) by (simp add: sim_def)
  show ?thesis
    unfolding Write_def t prod.case option.case js l
    using cur by (simp add: Let_def open_buffer_def newPartBuffer_def full_def ac_simps)
qed

lemma Write_sim:
  assumes "sim d a w" and "Write d m w u = (Inr b, w', u')"
  shows "sim d (case line_of m of None \<Rightarrow> a | Some l \<Rightarrow> a_write (w_maxRows w) (w_maxByte w) l a) w'
    \<and> b = (line_of m \<noteq> None)"
proof (cases "line_of m")
  case None
  with assms show ?thesis by (simp add: Write_skip)
next
  case (Some l)
  let ?a = "a\<lparr>a_open := a_open a @ [l]\<rparr>"
  let ?w = "w\<lparr>w_cur := open_buffer (a_open a @ [l])\<rparr>"
  have sim1: "sim d ?a ?w" using assms(1) by (simp add: sim_def)
  show ?thesis
  proof (cases "full (w_maxRows w) (w_maxByte w) (a_open a @ [l])")
    case True
    with Some assms obtain "flush d ?w u = (None, w', u')" and "b"
      by (auto simp: Write_line Let_def split: prod.splits option.splits)
    with flush_sim [OF sim1] True Some show ?thesis by (simp add: a_write_def Let_def)
  next
    case False
    with Some assms sim1 show ?thesis by (auto simp: Write_line a_write_def Let_def)
  qed
qed


lemma Finish_sim:
  assumes "sim d a w" and "Finish d w u = (Inr (ps, n), w', u')"
  shows "map keyless ps = part_metas d (w_taskID w) (a_closed (a_flush a))
    \<and> n = sum_list (map p_MessageCount ps) \<and> ps = w_parts w' \<and> sim d (a_flush a) w'"
proof -
  from assms(2) have f: "flush d w u = (None, w', u')"
    and ps: "ps = w_parts w'" "n = sum_list (map p_MessageCount ps)"
    by (auto simp: Finish_def split: prod.splits option.splits)
  have "sim d (a_flush a) w'" using assms(1) f by (rule flush_sim)
  moreover have "w_taskID w' = w_taskID w" using flush_same_task [OF f] by (simp add: same_task_def)
  ultimately show ?thesis using ps by (simp add: sim_def)
qed

section \<open>Runs of operations\<close>

text \<open>What a client may do between \<open>NewWriter\<close> and \<open>Finish\<close>; the first error ends the run.\<close>

datatype wop = OpStart string | OpWrite InputMessage

fun write_ops :: "'w WriterEnv \<Rightarrow> wop list \<Rightarrow> Writer \<Rightarrow> 'w \<Rightarrow> err option \<times> Writer \<times> 'w" where
  "write_ops d [] w u = (None, w, u)"
| "write_ops d (OpStart ch # ops) w u =
     (case StartChannel d ch w u of
        (Some e, w1, u1) \<Rightarrow> (Some e, w1, u1)
      | (None, w1, u1) \<Rightarrow> write_ops d ops w1 u1)"
| "write_ops d (OpWrite m # ops) w u =
     (case Write d m w u of
        (Inl e, w1, u1) \<Rightarrow> (Some e, w1, u1)
      | (Inr _, w1, u1) \<Rightarrow> write_ops d ops w1 u1)"

fun a_op :: "int \<Rightarrow> int \<Rightarrow> wop \<Rightarrow> AWriter \<Rightarrow> AWriter" where
  "a_op R B (OpStart ch) a = a_start ch a"
| "a_op R B (OpWrite m) a = (case line_of m of None \<Rightarrow> a | Some l \<Rightarrow> a_write R B l a)"

definition a_run :: "int \<Rightarrow> int \<Rightarrow> wop list \<Rightarrow> AWriter \<Rightarrow> AWriter" where
  "a_run R B ops a = fold (a_op R B) ops a"

lemma a_run_simps [simp]:
  "a_run R B [] a = a"
  "a_run R B (op # ops) a = a_run R B ops (a_op R B op a)"
  "a_run R B (ops @ ops') a = a_run R B ops' (a_run R B ops a)"
  by (simp_all add: a_run_def)

lemma write_ops_sim:
  assumes "sim d a w" and "write_ops d ops w u = (None, w', u')"
  shows "sim d (a_run (w_maxRows w) (w_maxByte w) ops a) w' \<and> same_task w w'"
  using assms
proof (induction d ops w u arbitrary: a rule: write_ops.induct)
  case (1 d w u)
  then show ?case by simp
next
  case (2 d ch ops w u)
  then obtain w1 u1 where s: "StartChannel d ch w u = (None, w1, u1)"
    and r: "write_ops d ops w1 u1 = (None, w', u')"
    by (auto split: prod.splits option.splits)
  have "sim d (a_run (w_maxRows w1) (w_maxByte w1) ops (a_start ch a)) w' \<and> same_task w1 w'"
    using "2.IH" [OF s [symmetric] refl refl StartChannel_sim [OF "2.prems"(1) s] r] .
  moreover have "same_task w w1" using s by (rule StartChannel_same_task)
  ultimately show ?case by (auto simp: same_task_def)
next
  case (3 d m ops w u)
  then obtain b w1 u1 where s: "Write d m w u = (Inr b, w1, u1)"
    and r: "write_ops d ops w1 u1 = (None, w', u')"
    by (auto split: prod.splits sum.splits)
  have "same_task w w1" using s by (rule Write_same_task)
  moreover have "sim d (a_run (w_maxRows w1) (w_maxByte w1) ops
      (a_op (w_maxRows w) (w_maxByte w) (OpWrite m) a)) w' \<and> same_task w1 w'"
    using "3.IH" [OF s [symmetric] refl refl _ r,
        of "a_op (w_maxRows w) (w_maxByte w) (OpWrite m) a"]
      Write_sim [OF "3.prems"(1) s] by simp
  ultimately show ?case by (auto simp: same_task_def)
qed

section \<open>Facts about the abstract writer\<close>

text \<open>Every closed chunk is non-empty, and no shorter beginning of it was already full.\<close>

definition chunk_ok :: "int \<Rightarrow> int \<Rightarrow> string list \<Rightarrow> bool" where
  "chunk_ok R B ls \<longleftrightarrow> ls \<noteq> [] \<and> (butlast ls = [] \<or> \<not> full R B (butlast ls))"

definition a_inv :: "int \<Rightarrow> int \<Rightarrow> AWriter \<Rightarrow> bool" where
  "a_inv R B a \<longleftrightarrow>
     (\<forall>c \<in> set (a_closed a). chunk_ok R B (snd c)) \<and>
     (a_open a = [] \<or> chunk_ok R B (a_open a) \<and> \<not> full R B (a_open a))"

lemma a_inv_init: "a_inv R B a_init"
  by (simp add: a_inv_def a_init_def)

lemma a_inv_flush: "a_inv R B a \<Longrightarrow> a_inv R B (a_flush a)"
  by (auto simp: a_inv_def a_flush_def)

lemma a_inv_op: "a_inv R B a \<Longrightarrow> a_inv R B (a_op R B op a)"
proof (cases op)
  case (OpStart ch)
  assume "a_inv R B a"
  then have "a_inv R B (a_flush a)" by (rule a_inv_flush)
  with OpStart show ?thesis by (simp add: a_inv_def a_start_def)
next
  case (OpWrite m)
  assume "a_inv R B a"
  with OpWrite show ?thesis
    by (auto simp: a_inv_def a_write_def a_flush_def chunk_ok_def Let_def split: option.splits)
qed

lemma a_inv_run: "a_inv R B a \<Longrightarrow> a_inv R B (a_run R B ops a)"
  by (induction ops arbitrary: a) (auto simp: a_inv_op)

text \<open>No line is lost, duplicated or reordered, and each keeps the channel it was written under.\<close>

definition a_tagged :: "AWriter \<Rightarrow> (string \<times> string) list" where
  "a_tagged a =
     concat (map (\<lambda>(ch, ls). map (Pair ch) ls) (a_closed a)) @ map (Pair (a_channel a)) (a_open a)"

fun tagged_lines :: "string \<Rightarrow> wop list \<Rightarrow> (string \<times> string) list" where
  "tagged_lines ch [] = []"
| "tagged_lines ch (OpStart ch' # ops) = tagged_lines ch' ops"
| "tagged_lines ch (OpWrite m # ops) =
     (case line_of m of None \<Rightarrow> [] | Some l \<Rightarrow> [(ch, l)]) @ tagged_lines ch ops"

lemma a_tagged_flush [simp]: "a_tagged (a_flush a) = a_tagged a"
  by (simp add: a_tagged_def a_flush_def)

lemma a_channel_flush [simp]: "a_channel (a_flush a) = a_channel a"
  by (simp add: a_flush_def)

lemma a_open_flush [simp]: "a_open (a_flush a) = []"
  by (simp add: a_flush_def)

lemma a_tagged_start: "a_tagged (a_start ch a) = a_tagged a"
  using a_tagged_flush [of a] by (simp add: a_start_def a_tagged_def)

lemma a_tagged_write: "a_tagged (a_write R B l a) = a_tagged a @ [(a_channel a, l)]"
proof -
  have "a_tagged (a\<lparr>a_open := a_open a @ [l]\<rparr>) = a_tagged a @ [(a_channel a, l)]"
    by (simp add: a_tagged_def)
  then show ?thesis by (simp add: a_write_def Let_def)
qed

lemma a_channel_write [simp]: "a_channel (a_write R B l a) = a_channel a"
  by (simp add: a_write_def Let_def)

lemma a_channel_start [simp]: "a_channel (a_start ch a) = ch"
  by (simp add: a_start_def)

lemma a_tagged_run: "a_tagged (a_run R B ops a) = a_tagged a @ tagged_lines (a_channel a) ops"
proof (induction ops arbitrary: a)
  case Nil
  then show ?case by simp
next
  case (Cons op ops)
  then show ?case
    by (cases op) (auto simp: a_tagged_start a_tagged_write split: option.splits)
qed

text \<open>After the last flush the tagged lines are those of the closed chunks.\<close>

lemma a_tagged_closed:
  "a_tagged (a_flush a) = concat (map (\<lambda>(ch, ls). map (Pair ch) ls) (a_closed (a_flush a)))"
  by (simp add: a_tagged_def [of "a_flush a"] del: a_tagged_flush)

lemma sum_message_counts:
  "map keyless ps = part_metas d t cs \<Longrightarrow>
   sum_list (map p_MessageCount ps) = int (length (concat (map (\<lambda>(ch, ls). map (Pair ch) ls) cs)))"
proof (induction cs arbitrary: ps rule: rev_induct)
  case Nil
  then show ?case by (simp add: part_metas_def)
next
  case (snoc c cs)
  then obtain qs q where "ps = qs @ [q]" "map keyless qs = part_metas d t cs"
    and q: "keyless q = part_meta d t (length cs, c)"
    by (auto simp: part_metas_snoc map_eq_append_conv)
  moreover have "p_MessageCount q = int (length (snd c))"
    using q by (cases c) (simp add: keyless_def part_meta_def, metis Part.select_convs(5) Part.update_convs(3) Part.surjective)
  ultimately show ?case using snoc.IH by (cases c) simp
qed


section \<open>Framing: lines and their decoding\<close>

definition ndjson_line :: "string \<Rightarrow> bool" where
  "ndjson_line l \<longleftrightarrow> (\<exists>js. l = js @ [lf] \<and> js \<noteq> [] \<and> lf \<notin> set js)"

lemma show_int_no_lf: "lf \<notin> set (show_int x)"
  using show_nat_no [of lf] by (auto simp: show_int_def lf_def)

lemma Marshal_no_lf: "Marshal_outLine l = Some js \<Longrightarrow> js \<noteq> [] \<and> lf \<notin> set js"
  using show_int_no_lf json_string_no_lf
  by (auto simp: Marshal_outLine_def json_key_def dq_def lf_def)

lemma line_of_ndjson: "line_of m = Some l \<Longrightarrow> ndjson_line l"
  using Marshal_no_lf by (fastforce simp: line_of_def ndjson_line_def split: option.splits)

lemma tagged_lines_ndjson: "(c, l) \<in> set (tagged_lines ch ops) \<Longrightarrow> ndjson_line l"
  by (induction ch ops rule: tagged_lines.induct)
    (auto split: option.splits intro: line_of_ndjson)

lemma split_ndjson:
  "\<forall>l \<in> set ls. ndjson_line l \<Longrightarrow>
   filter (\<lambda>l. l \<noteq> []) (split_on lf (concat ls)) = map butlast ls"
proof (induction ls)
  case Nil
  then show ?case by simp
next
  case (Cons l ls)
  then obtain js where "l = js @ [lf]" "js \<noteq> []" "lf \<notin> set js"
    by (auto simp: ndjson_line_def)
  with Cons show ?case by (simp add: split_on_append)
qed

lemma gzipDecode_chunk:
  assumes "gunzip (gz (concat ls)) = Some (concat ls)" and "\<forall>l \<in> set ls. ndjson_line l"
  shows "gzipDecode gunzip (gz (concat ls)) = Some (map butlast ls)"
  using assms split_ndjson by (simp add: gzipDecode_def)

subsection \<open>A reference reader of one line\<close>

definition expect :: "string \<Rightarrow> string \<Rightarrow> string option" where
  "expect k s = (if prefix k s then Some (drop (length k) s) else None)"

definition read_int :: "string \<Rightarrow> (int \<times> string) option" where
  "read_int s =
     (let t = takeWhile (\<lambda>c. is_digit c \<or> c = CHR ''-'') s
      in case ParseInt t of (n, e) \<Rightarrow> if e then None else Some (n, drop (length t) s))"

definition read_str :: "string \<Rightarrow> (string \<times> string) option" where
  "read_str s = (case s of [] \<Rightarrow> None | c # r \<Rightarrow> if c = dq then unquote r else None)"

definition read_line :: "string \<Rightarrow> outLine option" where
  "read_line s =
     Option.bind (expect (CHR 0x7B # json_key ''message_seq'') s) (\<lambda>s.
     Option.bind (read_int s) (\<lambda>(n, s).
     Option.bind (expect (CHR '','' # json_key ''from_uid'') s) (\<lambda>s.
     Option.bind (read_str s) (\<lambda>(f, s).
     Option.bind (expect (CHR '','' # json_key ''channel_id'') s) (\<lambda>s.
     Option.bind (read_str s) (\<lambda>(c, s).
     Option.bind (expect (CHR '','' # json_key ''timestamp'') s) (\<lambda>s.
     Option.bind (read_int s) (\<lambda>(t, s).
     Option.bind (expect (CHR '','' # json_key ''payload'') s) (\<lambda>s.
     Option.bind (read_str s) (\<lambda>(p, s).
       if s = [CHR 0x7D]
       then Some \<lparr>ol_MessageSeq = n, ol_FromUID = f, ol_ChannelID = c,
                  ol_Timestamp = t, ol_Payload = p\<rparr>
       else None))))))))))"

lemma expect_append [simp]: "expect k (k @ s) = Some s"
  by (simp add: expect_def)

lemma show_int_chars: "\<forall>c \<in> set (show_int x). is_digit c \<or> c = CHR ''-''"
  using show_nat_digits by (auto simp: show_int_def list_all_iff)

lemma read_int_show:
  assumes "in_i64 x" and "\<not> is_digit c" and "c \<noteq> CHR ''-''"
  shows "read_int (show_int x @ c # s) = Some (x, c # s)"
proof -
  have "takeWhile (\<lambda>c. is_digit c \<or> c = CHR ''-'') (show_int x @ c # s) = show_int x"
    using show_int_chars [of x] assms by (intro takeWhile_append_stop) auto
  with assms(1) show ?thesis by (simp add: read_int_def ParseInt_show_int)
qed

lemma read_str_json: "read_str (json_string t @ s) = Some (to_valid t, s)"
  by (simp add: read_str_def json_string_def unquote_json_escape)

lemma expect_Cons: "expect (c # k) (c # k @ s) = Some s"
  using expect_append [of "c # k" s] by simp

lemma read_Marshal:
  assumes "in_i64 (ol_MessageSeq l)" and "in_i64 (ol_Timestamp l)"
  shows "Option.bind (Marshal_outLine l) read_line =
    Some (l\<lparr>ol_FromUID := to_valid (ol_FromUID l), ol_ChannelID := to_valid (ol_ChannelID l),
            ol_Payload := to_valid (ol_Payload l)\<rparr>)"
proof -
  have "\<not> is_digit (CHR '','')" by (simp add: is_digit_def)
  then show ?thesis
    using assms
    by (simp add: Marshal_outLine_def read_line_def expect_Cons read_int_show read_str_json)
qed

section \<open>Stored parts\<close>

text \<open>
  What the client of a writer relies on of its uploader: a successful upload stores exactly
  the data under the key of its part and nothing else changes; a failed one touches at most
  that key; metrics touch nothing; distinct parts of a task have distinct keys.
\<close>

locale part_store =
  fixes d :: "'w WriterEnv"
    and objects :: "'w \<Rightarrow> string \<Rightarrow> string option"
    and key :: "string \<Rightarrow> string \<Rightarrow> int \<Rightarrow> string \<Rightarrow> string"
  assumes upload_ok: "we_Upload d t c n day data u = (Inr k, u') \<Longrightarrow>
      k = key t c n day \<and> objects u' = (objects u)(k \<mapsto> data)"
    and upload_err: "we_Upload d t c n day data u = (Inl e, u') \<Longrightarrow>
      k \<noteq> key t c n day \<Longrightarrow> objects u' k = objects u k"
    and metric_objects: "objects (we_metric d x u) = objects u"
    and key_inject: "0 \<le> m \<Longrightarrow> 0 \<le> n \<Longrightarrow> key t c m day = key t c n day \<Longrightarrow> m = n"

text \<open>Every closed chunk is stored, compressed, under the key its part records.\<close>

definition holds ::
  "('w \<Rightarrow> string \<Rightarrow> string option) \<Rightarrow> (string \<Rightarrow> string \<Rightarrow> int \<Rightarrow> string \<Rightarrow> string) \<Rightarrow>
   'w WriterEnv \<Rightarrow> AWriter \<Rightarrow> Writer \<Rightarrow> 'w \<Rightarrow> bool" where
  "holds objects key d a w u \<longleftrightarrow>
     (\<forall>i < length (a_closed a).
        (let k = key (w_taskID w) (w_caller w) (int i) (w_day w)
         in p_S3Key (w_parts w ! i) = k \<and>
            objects u k = Some (we_gzip d (concat (snd (a_closed a ! i))))))"

context part_store begin

lemma flush_holds:
  assumes sim: "sim d a w" and h: "holds objects key d a w u" and f: "flush d w u = (None, w', u')"
  shows "holds objects key d (a_flush a) w' u'"
proof (cases "a_open a = []")
  case True
  with assms show ?thesis by (simp add: a_flush_def sim_def open_buffer_def flush_def)
next
  case False
  let ?n = "length (a_closed a)"
  let ?data = "we_gzip d (concat (a_open a))"
  have len: "length (w_parts w) = ?n"
    using sim by (metis sim_def length_map length_part_metas)
  obtain k u1 p where
    up: "we_Upload d (w_taskID w) (w_caller w) (int ?n) (w_day w) ?data u = (Inr k, u1)"
    and w': "w_parts w' = w_parts w @ [p]" "p_S3Key p = k" and u': "objects u' = objects u1"
    using sim f False
    by (auto simp: sim_def flush_def open_buffer_def Let_def metric_objects
        split: prod.splits sum.splits)
  have same: "same_task w w'" using f by (rule flush_same_task)
  have k: "k = key (w_taskID w) (w_caller w) (int ?n) (w_day w)"
    and obj: "objects u1 = (objects u)(k \<mapsto> ?data)"
    using upload_ok [OF up] by auto
  have "key (w_taskID w) (w_caller w) (int i) (w_day w) \<noteq> k" if "i < ?n" for i
    using that key_inject [of "int i" "int ?n"] k by auto
  with h False len w' u' obj k same show ?thesis
    by (auto simp: holds_def a_flush_def nth_append same_task_def less_Suc_eq Let_def)
qed

lemma StartChannel_holds:
  assumes "sim d a w" and "holds objects key d a w u" and "StartChannel d ch w u = (None, w', u')"
  shows "holds objects key d (a_start ch a) w' u'"
proof (cases "w_cur w")
  case None
  with assms show ?thesis
    by (auto simp: StartChannel_def holds_def sim_def open_buffer_def a_start_def a_flush_def
        split: if_splits)
next
  case (Some pb)
  with assms(3) obtain w1 where "flush d w u = (None, w1, u')" "w' = w1\<lparr>w_curChannel := ch\<rparr>"
    by (auto simp: StartChannel_def split: prod.splits option.splits)
  with flush_holds [OF assms(1,2)] show ?thesis by (simp add: holds_def a_start_def)
qed

lemma Write_holds:
  assumes "sim d a w" and "holds objects key d a w u" and "Write d m w u = (Inr b, w', u')"
  shows "holds objects key d (a_op (w_maxRows w) (w_maxByte w) (OpWrite m) a) w' u'"
proof (cases "line_of m")
  case None
  with assms show ?thesis by (auto simp: Write_skip holds_def metric_objects)
next
  case (Some l)
  let ?a = "a\<lparr>a_open := a_open a @ [l]\<rparr>"
  let ?w = "w\<lparr>w_cur := open_buffer (a_open a @ [l])\<rparr>"
  have sim1: "sim d ?a ?w" and h1: "holds objects key d ?a ?w u"
    using assms(1,2) by (simp_all add: sim_def holds_def)
  show ?thesis
  proof (cases "full (w_maxRows w) (w_maxByte w) (a_open a @ [l])")
    case True
    with Some assms(1,3) have "flush d ?w u = (None, w', u')"
      by (auto simp: Write_line Let_def split: prod.splits option.splits)
    with flush_holds [OF sim1 h1] True Some show ?thesis by (simp add: a_write_def Let_def)
  next
    case False
    with Some assms(1,3) h1 show ?thesis by (auto simp: Write_line a_write_def Let_def)
  qed
qed

lemma write_ops_holds:
  assumes "sim d a w" and "holds objects key d a w u" and "write_ops d ops w u = (None, w', u')"
  shows "holds objects key d (a_run (w_maxRows w) (w_maxByte w) ops a) w' u'"
  using assms
proof (induction ops arbitrary: a w u)
  case Nil
  then show ?case by simp
next
  case (Cons op ops)
  then obtain w1 u1 where step: "sim d (a_op (w_maxRows w) (w_maxByte w) op a) w1"
    "holds objects key d (a_op (w_maxRows w) (w_maxByte w) op a) w1 u1" "same_task w w1"
    and rest: "write_ops d ops w1 u1 = (None, w', u')"
  proof (cases op)
    case (OpStart ch)
    with Cons.prems that show ?thesis
      by (auto split: prod.splits option.splits
          dest: StartChannel_sim StartChannel_holds StartChannel_same_task)
  next
    case (OpWrite m)
    with Cons.prems(3) obtain b w1 u1 where w: "Write d m w u = (Inr b, w1, u1)"
      and r: "write_ops d ops w1 u1 = (None, w', u')"
      by (auto split: prod.splits sum.splits)
    have "sim d (a_op (w_maxRows w) (w_maxByte w) op a) w1"
      using Write_sim [OF Cons.prems(1) w] OpWrite by simp
    with Write_holds [OF Cons.prems(1,2) w] Write_same_task [OF w] r OpWrite that
    show ?thesis by simp
  qed
  with Cons.IH [OF step(1,2) rest] show ?case by (simp add: same_task_def)
qed

lemma Finish_holds:
  assumes "sim d a w" and "holds objects key d a w u" and "Finish d w u = (Inr (ps, n), w', u')"
  shows "holds objects key d (a_flush a) w' u'"
  using assms by (auto simp: Finish_def split: prod.splits option.splits dest: flush_holds)

end

end
