(* ===== verification/Gate.thy ===== *)
theory Gate
  imports Prelude
begin

text \<open>
  \<open>internal/executor/gate.go\<close>: the counting semaphore that bounds the tasks in the system. A
  buffered channel of empty structs is its capacity and its length.
\<close>

record Gate =
  g_cap :: int
  g_len :: int

definition NewGate :: "int \<Rightarrow> Gate" where
  "NewGate m0 = \<lparr>g_cap = (if m0 \<le> 0 then 1 else m0), g_len = 0\<rparr>"

text \<open>
  The select of \<open>Acquire\<close> at the moment it proceeds: \<open>cdone\<close> says whether the context is done
  there, \<open>fired\<close> whether the timer has fired, and \<open>pick\<close> chooses among the ready cases, as the
  runtime does. With none ready the default branch runs (\<open>wait \<le> 0\<close>), or the caller has
  waited until the timer fired.
\<close>

datatype sel = SelSend | SelTimer | SelDone

definition ready_cases :: "bool \<Rightarrow> bool \<Rightarrow> int \<Rightarrow> Gate \<Rightarrow> sel list" where
  "ready_cases cdone fired wait g =
     (if g_len g < g_cap g then [SelSend] else [])
     @ (if 0 < wait \<and> fired then [SelTimer] else [])
     @ (if cdone then [SelDone] else [])"

record select_env =
  se_pick :: nat
  se_fired :: bool

definition Acquire :: "select_env \<Rightarrow> bool \<Rightarrow> int \<Rightarrow> Gate \<Rightarrow> bool \<times> Gate" where
  "Acquire se cdone wait g =
     (let rs = ready_cases cdone (se_fired se) wait g
      in if rs = [] then (False, g)
         else (case rs ! (se_pick se mod length rs) of
                 SelSend \<Rightarrow> (True, g\<lparr>g_len := g_len g + 1\<rparr>)
               | SelTimer \<Rightarrow> (False, g)
               | SelDone \<Rightarrow> (False, g)))"

definition Release :: "Gate \<Rightarrow> Gate" where
  "Release g = (if 0 < g_len g then g\<lparr>g_len := g_len g - 1\<rparr> else g)"

definition InFlight :: "Gate \<Rightarrow> int" where
  "InFlight g = g_len g"

section \<open>The length stays within the capacity\<close>

definition gate_ok :: "Gate \<Rightarrow> bool" where
  "gate_ok g \<longleftrightarrow> 1 \<le> g_cap g \<and> 0 \<le> g_len g \<and> g_len g \<le> g_cap g"

lemma NewGate_ok: "gate_ok (NewGate m0)"
  by (simp add: gate_ok_def NewGate_def)

lemma Acquire_cases:
  assumes "Acquire se cdone wait g = (b, g')"
  shows "b \<and> g_len g < g_cap g \<and> g' = g\<lparr>g_len := g_len g + 1\<rparr> \<or> \<not> b \<and> g' = g"
proof (cases "ready_cases cdone (se_fired se) wait g = []")
  case True
  with assms show ?thesis by (simp add: Acquire_def)
next
  case False
  let ?rs = "ready_cases cdone (se_fired se) wait g"
  have "?rs ! (se_pick se mod length ?rs) \<in> set ?rs" using False by (intro nth_mem) simp
  then have "?rs ! (se_pick se mod length ?rs) = SelSend \<longrightarrow> g_len g < g_cap g"
    by (auto simp: ready_cases_def split: if_splits)
  with assms False show ?thesis by (auto simp: Acquire_def Let_def split: sel.splits)
qed

lemma Acquire_ok: "Acquire se cdone wait g = (b, g') \<Longrightarrow> gate_ok g \<Longrightarrow> gate_ok g'"
  by (drule Acquire_cases) (auto simp: gate_ok_def)

lemma Release_ok: "gate_ok g \<Longrightarrow> gate_ok (Release g)"
  by (simp add: gate_ok_def Release_def)

lemma Acquire_free:
  "g_len g < g_cap g \<Longrightarrow> \<not> cdone \<Longrightarrow> \<not> se_fired se \<Longrightarrow>
   Acquire se cdone wait g = (True, g\<lparr>g_len := g_len g + 1\<rparr>)"
  by (simp add: Acquire_def ready_cases_def)

lemma Release_Acquire:
  "Acquire se cdone wait g = (True, g') \<Longrightarrow> gate_ok g \<Longrightarrow> Release g' = g"
  by (drule Acquire_cases) (auto simp: gate_ok_def Release_def)

end
