(* ===== verification/Go_Time.thy ===== *)
theory Go_Time
  imports Go_Strings
begin

text \<open>
  The calendar day \<open>t.UTC().Format("2006-01-02")\<close> of a time in nanoseconds since 1970, in the
  proleptic Gregorian calendar of package \<open>time\<close>: days are counted in eras of 400 years of
  146097 days that begin on the first of March.
\<close>

definition day_number :: "int \<Rightarrow> int" where
  "day_number t = t div (86400 * 1000000000)"

text \<open>Year, month and day of the month of a day number.\<close>

definition civil :: "int \<Rightarrow> int \<times> int \<times> int" where
  "civil n =
     (let z = n + 719468;
          era = z div 146097;
          doe = z mod 146097;
          yoe = (doe - doe div 1460 + doe div 36524 - doe div 146096) div 365;
          doy = doe - (365 * yoe + yoe div 4 - yoe div 100);
          mp = (5 * doy + 2) div 153;
          d = doy - (153 * mp + 2) div 5 + 1;
          m = (if mp < 10 then mp + 3 else mp - 9);
          y = yoe + era * 400
      in (if m \<le> 2 then y + 1 else y, m, d))"

definition two_digits :: "int \<Rightarrow> string" where
  "two_digits n = pad_left 2 (show_nat (nat n))"

definition four_digits :: "int \<Rightarrow> string" where
  "four_digits n =
     (if n < 0 then CHR ''-'' # pad_left 4 (show_nat (nat (- n))) else pad_left 4 (show_nat (nat n)))"

definition format_day :: "int \<Rightarrow> string" where
  "format_day t =
     (case civil (day_number t) of
        (y, m, d) \<Rightarrow> four_digits y @ ''-'' @ two_digits m @ ''-'' @ two_digits d)"

lemma slash_no_digit: "list_all is_digit s \<Longrightarrow> CHR ''/'' \<notin> set s"
  by (auto simp: list_all_iff is_digit_def)

lemma padded_no_slash: "CHR ''/'' \<notin> set (pad_left k (show_nat n))"
  by (rule slash_no_digit, rule pad_left_digits, rule show_nat_digits)

lemma format_day_no_slash: "CHR ''/'' \<notin> set (format_day t)"
proof -
  obtain y m d where "civil (day_number t) = (y, m, d)" by (metis prod.exhaust)
  then show ?thesis
    using padded_no_slash
    by (simp add: format_day_def four_digits_def two_digits_def del: show_nat.simps)
qed

text \<open>Dates around leap days.\<close>

lemma civil_samples:
  "civil 0 = (1970, 1, 1)" "civil 11016 = (2000, 2, 29)" "civil 11017 = (2000, 3, 1)"
  "civil 20819 = (2027, 1, 1)" "civil 19781 = (2024, 2, 28)" "civil 19782 = (2024, 2, 29)"
  by code_simp+

end
