(* ===== verification/Executor.thy ===== *)
theory Executor
  imports Store_Interface OS_Client Writer_Spec Gate Metrics_Audit Go_Time
    "HOL-Library.List_Lexorder" "HOL-Library.Char_ord"
begin

text \<open>
  \<open>internal/executor/executor.go\<close>: the task queue, the registry of running tasks, the paging
  loop over one channel, the run over all channels of a task, and the life of a task from
  the queue to its final status. The client, the store, the uploader and the auditor are
  arguments over a world that extends \<open>World\<close>; whatever they do to the world, such as
  cancelling a context in the middle of a call, is covered.
\<close>

section \<open>State\<close>

record ExecutorConfig =
  ec_Index :: string
  ec_PITKeepAlive :: int
  ec_Workers :: int
  ec_QueueBuffer :: int
  ec_PartMaxRows :: int
  ec_PartMaxBytes :: int
  ec_MaxTaskHits :: int
  ec_PerChannelHardCap :: int
  ec_PageSize :: int

text \<open>The queue channel holds task identifiers; the registry maps a running task to the context
  its cancel function cancels.\<close>

record 'w Executor =
  ex_cfg :: ExecutorConfig
  ex_os :: "'w Client"
  ex_store :: "'w Store"
  ex_up :: "'w WriterEnv"
  ex_gate :: Gate
  ex_audit :: "(AuditEvent \<Rightarrow> 'w \<Rightarrow> 'w) option"
  ex_queue :: "string list"
  ex_cancels :: "string \<Rightarrow> ctx option"

definition Executor_New :: "ExecutorConfig \<Rightarrow> 'w Client \<Rightarrow> 'w Store \<Rightarrow> 'w WriterEnv \<Rightarrow> Gate
  \<Rightarrow> (AuditEvent \<Rightarrow> 'w \<Rightarrow> 'w) option \<Rightarrow> 'w Executor" where
  "Executor_New cfg os st up gate audit =
     (let cfg1 = (if ec_PageSize cfg \<le> 0 then cfg\<lparr>ec_PageSize := 1000\<rparr> else cfg);
          cfg2 = (if ec_QueueBuffer cfg1 \<le> 0 then cfg1\<lparr>ec_QueueBuffer := 1\<rparr> else cfg1)
      in \<lparr>ex_cfg = cfg2, ex_os = os, ex_store = st, ex_up = up, ex_gate = gate, ex_audit = audit,
          ex_queue = [], ex_cancels = (\<lambda>_. None)\<rparr>)"

type_synonym 'a world_executor = "'a World_scheme Executor"

section \<open>Queue and registry\<close>

definition set_queue_depth :: "'a world_executor \<Rightarrow> 'a World_scheme \<Rightarrow> 'a World_scheme" where
  "set_queue_depth e u = emit (SetGauge ''executor_queue_depth'' (int (length (ex_queue e)))) u"

definition Enqueue :: "string \<Rightarrow> 'a world_executor \<Rightarrow> 'a World_scheme
  \<Rightarrow> err option \<times> 'a world_executor \<times> 'a World_scheme" where
  "Enqueue taskID e u =
     (if int (length (ex_queue e)) < ec_QueueBuffer (ex_cfg e)
      then (let e1 = e\<lparr>ex_queue := ex_queue e @ [taskID]\<rparr> in (None, e1, set_queue_depth e1 u))
      else (Some ErrQueueFull, e, u))"

definition CancelTask :: "string \<Rightarrow> 'a world_executor \<Rightarrow> 'a World_scheme \<Rightarrow> 'a World_scheme" where
  "CancelTask taskID e u =
     (case ex_cancels e taskID of None \<Rightarrow> u | Some c \<Rightarrow> cancel_ctx c u)"

definition register :: "string \<Rightarrow> ctx \<Rightarrow> 'w Executor \<Rightarrow> 'w Executor" where
  "register taskID c e = e\<lparr>ex_cancels := (ex_cancels e)(taskID \<mapsto> c)\<rparr>"

definition unregister :: "string \<Rightarrow> 'w Executor \<Rightarrow> 'w Executor" where
  "unregister taskID e = e\<lparr>ex_cancels := (ex_cancels e)(taskID := None)\<rparr>"

section \<open>Draining one channel\<close>

definition input_of :: "Hit \<Rightarrow> InputMessage" where
  "input_of h =
     \<lparr>im_MessageSeq = hit_MessageSeq h, im_From = hit_From h, im_ChannelID = hit_ChannelID h,
      im_Timestamp = hit_Timestamp h, im_Payload = hit_Payload h, im_PayloadRaw = hit_PayloadRaw h\<rparr>"

text \<open>
  The inner loop over one page. It ends with \<open>PageDone\<close>, or leaves the whole function with
  the two truncation flags and the error.
\<close>

datatype page_end = PageDone | PageReturn bool bool "err option"

fun write_page :: "ExecutorConfig \<Rightarrow> 'w WriterEnv \<Rightarrow> Hit list \<Rightarrow> int \<Rightarrow> int \<Rightarrow> Writer \<Rightarrow> 'w
  \<Rightarrow> page_end \<times> int \<times> int \<times> Writer \<times> 'w" where
  "write_page cfg d [] chSeen totalSeen w u = (PageDone, chSeen, totalSeen, w, u)"
| "write_page cfg d (h # hs) chSeen totalSeen w u =
     (if ec_MaxTaskHits cfg \<le> totalSeen then (PageReturn False True None, chSeen, totalSeen, w, u)
      else if ec_PerChannelHardCap cfg \<le> chSeen
      then (PageReturn True False None, chSeen, totalSeen, w, u)
      else case Write d (input_of h) w u of
             (Inl er, w1, u1) \<Rightarrow> (PageReturn False False (Some er), chSeen, totalSeen, w1, u1)
           | (Inr _, w1, u1) \<Rightarrow> write_page cfg d hs (chSeen + 1) (totalSeen + 1) w1 u1)"

text \<open>What a page that was written to its end did to the counters.\<close>

lemma write_page_done:
  "write_page cfg d hs chSeen totalSeen w u = (PageDone, chSeen', totalSeen', w', u') \<Longrightarrow>
   chSeen' = chSeen + int (length hs) \<and> totalSeen' = totalSeen + int (length hs) \<and>
   (hs \<noteq> [] \<longrightarrow> chSeen' \<le> ec_PerChannelHardCap cfg \<and> totalSeen' \<le> ec_MaxTaskHits cfg)"
proof (induction hs arbitrary: chSeen totalSeen w u)
  case Nil
  then show ?case by simp
next
  case (Cons h hs)
  then obtain b w1 u1 where lim: "totalSeen < ec_MaxTaskHits cfg" "chSeen < ec_PerChannelHardCap cfg"
    and r: "write_page cfg d hs (chSeen + 1) (totalSeen + 1) w1 u1 = (PageDone, chSeen', totalSeen', w', u')"
    by (auto split: if_splits prod.splits sum.splits)
  from Cons.IH [OF r] lim show ?case by (cases hs) auto
qed

definition search_request :: "'w Executor \<Rightarrow> string \<Rightarrow> Task \<Rightarrow> string \<Rightarrow> gval list \<Rightarrow> SearchRequest" where
  "search_request e pitID t channelID after =
     \<lparr>sr_PITID = pitID, sr_KeepAlive = ec_PITKeepAlive (ex_cfg e), sr_ChannelID = channelID,
      sr_StartTS = tr_StartTS (t_TimeRange t), sr_EndTS = tr_EndTS (t_TimeRange t),
      sr_Size = ec_PageSize (ex_cfg e), sr_SearchAfter = after\<rparr>"

text \<open>
  The paging loop from a given cursor; it returns the hits seen in the channel, the
  truncation flags and the error, then the total, the writer and the world. It ends because
  every further page found the channel counter below the cap and raised it.
\<close>

type_synonym 'w drained = "(int \<times> bool \<times> bool \<times> err option) \<times> int \<times> Writer \<times> 'w"

function drain_from :: "'a world_executor \<Rightarrow> ctx \<Rightarrow> string \<Rightarrow> Task \<Rightarrow> string \<Rightarrow> gval list \<Rightarrow> int \<Rightarrow> int
  \<Rightarrow> Writer \<Rightarrow> 'a World_scheme \<Rightarrow> 'a World_scheme drained" where
  "drain_from e c pitID t channelID after chSeen totalSeen w u =
     (if ctx_Err c u
      then ((chSeen, False, False, Some (ErrMsg ''context canceled'')), totalSeen, w, u)
      else case os_Search (ex_os e) c (search_request e pitID t channelID after) u of
        (Inl er, u1) \<Rightarrow> ((chSeen, False, False, Some er), totalSeen, w, u1)
      | (Inr page, u1) \<Rightarrow>
          if page = [] then ((chSeen, False, False, None), totalSeen, w, u1)
          else case write_page (ex_cfg e) (ex_up e) page chSeen totalSeen w u1 of
                 (PageReturn tr tc er, chSeen1, totalSeen1, w1, u2) \<Rightarrow>
                   ((chSeen1, tr, tc, er), totalSeen1, w1, u2)
               | (PageDone, chSeen1, totalSeen1, w1, u2) \<Rightarrow>
                   if int (length page) < ec_PageSize (ex_cfg e)
                   then ((chSeen1, False, False, None), totalSeen1, w1, u2)
                   else drain_from e c pitID t channelID (hit_Sort (last page)) chSeen1 totalSeen1 w1 u2)"
  by pat_completeness auto
termination
proof (relation "measure (\<lambda>(e, c, pitID, t, channelID, after, chSeen, totalSeen, w, u).
    nat (ec_PerChannelHardCap (ex_cfg e) - chSeen))", goal_cases)
  case 1
  show ?case by simp
next
  case (2 e c pitID t channelID after chSeen totalSeen w u r u1 page pe x chSeen1 y totalSeen1 z w1 u2)
  then have "write_page (ex_cfg e) (ex_up e) page chSeen totalSeen w u1 =
      (PageDone, chSeen1, totalSeen1, w1, u2)" and "page \<noteq> []" by simp_all
  from write_page_done [OF this(1)] this(2) show ?case by (cases page) auto
qed

declare drain_from.simps [simp del]

definition drainChannel :: "'a world_executor \<Rightarrow> ctx \<Rightarrow> Writer \<Rightarrow> string \<Rightarrow> Task \<Rightarrow> string \<Rightarrow> int
  \<Rightarrow> 'a World_scheme \<Rightarrow> 'a World_scheme drained" where
  "drainChannel e c w pitID t channelID totalSeen u =
     drain_from e c pitID t channelID [] 0 totalSeen w u"

section \<open>Running a task\<close>

text \<open>The loop over the channels: the warnings and the total, or the failure message.\<close>

fun drain_channels :: "'a world_executor \<Rightarrow> ctx \<Rightarrow> string \<Rightarrow> Task \<Rightarrow> string list \<Rightarrow> int \<Rightarrow> Warning list
  \<Rightarrow> Writer \<Rightarrow> 'a World_scheme \<Rightarrow> (string + Warning list \<times> int) \<times> Writer \<times> 'a World_scheme" where
  "drain_channels e c pitID t [] totalSeen ws w u = (Inr (ws, totalSeen), w, u)"
| "drain_channels e c pitID t (ch # chs) totalSeen ws w u =
     (if ctx_Err c u then (Inl ''cancelled'', w, u)
      else case StartChannel (ex_up e) ch w u of
        (Some _, w1, u1) \<Rightarrow> (Inl ''writer start channel failed'', w1, u1)
      | (None, w1, u1) \<Rightarrow>
          (case drainChannel e c w1 pitID t ch totalSeen u1 of
             ((chSeen, chTrunc, totalCap, chErr), totalSeen2, w2, u2) \<Rightarrow>
               if chErr \<noteq> None then (Inl ''search failed'', w2, u2)
               else
                 (let ws1 = (if chTrunc
                        then ws @ [\<lparr>wn_ChannelID = ch, wn_Code = WarnPerChannelTruncated,
                                    wn_Limit = ec_PerChannelHardCap (ex_cfg e),
                                    wn_ActualSeen = chSeen\<rparr>]
                        else ws)
                  in if totalCap
                     then (Inr (ws1 @ [\<lparr>wn_ChannelID = ch, wn_Code = WarnTotalTruncated,
                                        wn_Limit = ec_MaxTaskHits (ex_cfg e),
                                        wn_ActualSeen = totalSeen2\<rparr>], totalSeen2), w2, u2)
                     else drain_channels e c pitID t chs totalSeen2 ws1 w2 u2)))"

fun append_parts :: "'w Store \<Rightarrow> ctx \<Rightarrow> Part list \<Rightarrow> 'w \<Rightarrow> err option \<times> 'w" where
  "append_parts S c [] u = (None, u)"
| "append_parts S c (p # ps) u =
     (case st_AppendPart S c p u of
        (Some er, u1) \<Rightarrow> (Some er, u1)
      | (None, u1) \<Rightarrow> append_parts S c ps u1)"

text \<open>Status, actual count, warnings, error code and error message.\<close>

type_synonym run_result = "Status \<times> int \<times> Warning list \<times> string \<times> string"

definition run_failed :: "string \<Rightarrow> run_result" where
  "run_failed msg = (StatusFailed, 0, [], ''internal_error'', msg)"

definition sorted_channels :: "Task \<Rightarrow> string list" where
  "sorted_channels t = sort (map ch_ChannelID (sc_Channels (t_Scope t)))"

text \<open>The body of \<open>run\<close> between opening and closing the handle.\<close>

definition run_pit :: "'a world_executor \<Rightarrow> ctx \<Rightarrow> Task \<Rightarrow> string \<Rightarrow> 'a World_scheme
  \<Rightarrow> run_result \<times> 'a World_scheme" where
  "run_pit e c t pitID u =
     (let w = NewWriter (t_TaskID t) (t_CallerService t) (ec_PartMaxRows (ex_cfg e))
                (ec_PartMaxBytes (ex_cfg e)) (format_day (wd_clock u))
      in case drain_channels e c pitID t (sorted_channels t) 0 [] w u of
        (Inl msg, w1, u1) \<Rightarrow> (run_failed msg, u1)
      | (Inr (ws, totalSeen), w1, u1) \<Rightarrow>
          (case Finish (ex_up e) w1 u1 of
             (Inl _, w2, u2) \<Rightarrow> (run_failed ''finish writer failed'', u2)
           | (Inr (parts, written), w2, u2) \<Rightarrow>
               (case append_parts (ex_store e) c parts u2 of
                  (Some _, u3) \<Rightarrow> (run_failed ''append part failed'', u3)
                | (None, u3) \<Rightarrow>
                    (if ws \<noteq> [] then (StatusPartial, written, ws, [], [])
                     else (StatusCompleted, written, [], [], []), u3))))"

text \<open>Closing uses a context of its own; its five-second deadline is not modelled.\<close>

definition run :: "'a world_executor \<Rightarrow> ctx \<Rightarrow> Task \<Rightarrow> 'a World_scheme
  \<Rightarrow> run_result \<times> 'a World_scheme" where
  "run e c t u =
     (case os_OpenPIT (ex_os e) c (ec_Index (ex_cfg e)) (ec_PITKeepAlive (ex_cfg e)) u of
        (Inl _, u1) \<Rightarrow> (run_failed ''open pit failed'', u1)
      | (Inr pitID, u1) \<Rightarrow>
          (case run_pit e c t pitID u1 of
             (r, u2) \<Rightarrow> (r, snd (os_ClosePIT (ex_os e) Background pitID u2))))"

section \<open>The life of a task\<close>

definition set_inflight :: "'a world_executor \<Rightarrow> 'a World_scheme \<Rightarrow> 'a World_scheme" where
  "set_inflight e u = emit (SetGauge ''executor_inflight'' (InFlight (ex_gate e))) u"

text \<open>A failed run under a cancelled task context is a cancelled one.\<close>

definition final_result :: "ctx \<Rightarrow> run_result \<Rightarrow> 'a World_scheme \<Rightarrow> run_result" where
  "final_result tc r u =
     (case r of (status, n, ws, ec, em) \<Rightarrow>
       if status = StatusFailed \<and> ctx_Err tc u then (StatusCancelled, n, ws, [], [])
       else (status, n, ws, ec, em))"

definition finalize_task :: "'a world_executor \<Rightarrow> ctx \<Rightarrow> ctx \<Rightarrow> string \<Rightarrow> Task \<Rightarrow> run_result
  \<Rightarrow> 'a World_scheme \<Rightarrow> 'a World_scheme" where
  "finalize_task e parent tc taskID t r u =
     (case final_result tc r u of (status, n, ws, ec, em) \<Rightarrow>
       (let fc = (if ctx_Err parent u then Background else parent)
        in case st_Finalize (ex_store e) fc taskID status n ws ec em u of
             (Some _, u1) \<Rightarrow> u1
           | (None, u1) \<Rightarrow>
               (let u2 = emit (Observe ''batch_execute_duration_seconds''
                               [t_CallerService t, SizeBucket n]) u1;
                    u3 = emit (Inc ''task_status_total'' [Status_String status]) u2;
                    u4 = set_inflight e u3
                in case ex_audit e of
                     None \<Rightarrow> u4
                   | Some logev \<Rightarrow>
                       logev ((audit_event ''execute'' taskID (t_CallerService t) (t_RequestID t)
                                (Status_String status))\<lparr>ae_HitCount := n\<rparr>) u4)))"

definition process_body :: "'a world_executor \<Rightarrow> ctx \<Rightarrow> ctx \<Rightarrow> string \<Rightarrow> 'a World_scheme
  \<Rightarrow> 'a World_scheme" where
  "process_body e parent tc taskID u =
     (case st_Get (ex_store e) tc taskID u of
        (Inl _, u1) \<Rightarrow> u1
      | (Inr t, u1) \<Rightarrow>
          if IsTerminal (t_Status t) then u1
          else (case st_UpdateStatus (ex_store e) tc taskID StatusRunning u1 of
                  (Some _, u2) \<Rightarrow>
                    snd (st_Finalize (ex_store e) parent taskID StatusFailed 0 []
                           ''internal_error'' ''update status running failed'' u2)
                | (None, u2) \<Rightarrow>
                    (case run e tc t (set_inflight e u2) of
                       (r, u3) \<Rightarrow> finalize_task e parent tc taskID t r u3)))"

text \<open>
  \<open>process\<close>: the deferred calls run in reverse order on every path. The \<open>k\<close>-th run gets the
  task context \<open>TaskCtx k\<close>.
\<close>

definition process :: "ctx \<Rightarrow> nat \<Rightarrow> string \<Rightarrow> 'a world_executor \<Rightarrow> 'a World_scheme
  \<Rightarrow> 'a world_executor \<times> 'a World_scheme" where
  "process parent k taskID e u =
     (let e1 = register taskID (TaskCtx k) e;
          u1 = process_body e1 parent (TaskCtx k) taskID u;
          e2 = unregister taskID e1;
          u2 = cancel_ctx (TaskCtx k) u1
      in (e2\<lparr>ex_gate := Release (ex_gate e2)\<rparr>, u2))"

text \<open>The receive branch of \<open>worker\<close>; with an empty queue it blocks.\<close>

definition worker_step :: "ctx \<Rightarrow> nat \<Rightarrow> 'a world_executor \<Rightarrow> 'a World_scheme
  \<Rightarrow> ('a world_executor \<times> 'a World_scheme) option" where
  "worker_step parent k e u =
     (case ex_queue e of
        [] \<Rightarrow> None
      | taskID # q \<Rightarrow>
          (let e1 = e\<lparr>ex_queue := q\<rparr> in Some (process parent k taskID e1 (set_queue_depth e1 u))))"

end
