(* ===== verification/Submitter.thy ===== *)
theory Submitter
  imports Config Executor
begin

text \<open>
  \<open>internal/submit/submit.go\<close>: field checks, the count of hits over all channels, the slot of
  the gate, the persisted task and its place in the queue; and the task identifiers. The gate
  and the queue are those of the executor, as \<open>main\<close> wires them.
\<close>

section \<open>Errors and requests\<close>

record SubmitError =
  se_HTTPStatus :: int
  se_Code :: string
  se_Message :: string

definition newErr :: "int \<Rightarrow> string \<Rightarrow> string \<Rightarrow> SubmitError" where
  "newErr status code msg = \<lparr>se_HTTPStatus = status, se_Code = code, se_Message = msg\<rparr>"

record Request =
  rq_Scope :: Scope
  rq_TimeRange :: TimeRange

definition maxChannels :: int where "maxChannels = 30"
definition maxRangeDays :: int where "maxRangeDays = 31"
definition msThreshold :: int where "msThreshold = 1000000000000"

text \<open>The first channel without an identifier.\<close>

fun empty_channel :: "int \<Rightarrow> Channel list \<Rightarrow> int option" where
  "empty_channel i [] = None"
| "empty_channel i (c # cs) = (if ch_ChannelID c = [] then Some i else empty_channel (i + 1) cs)"

definition validate :: "Request \<Rightarrow> SubmitError option" where
  "validate req =
     (let chs = sc_Channels (rq_Scope req); n = int (length chs); tr = rq_TimeRange req
      in if n = 0 then Some (newErr 400 ''invalid_request'' ''scope.channels must not be empty'')
         else if maxChannels < n
         then Some (newErr 413 ''single_task_too_large''
                (''scope.channels '' @ show_int n @ '' exceeds limit '' @ show_int maxChannels))
         else case empty_channel 0 chs of
           Some i \<Rightarrow> Some (newErr 400 ''invalid_request''
                       (''scope.channels['' @ show_int i @ ''].channel_id is empty''))
         | None \<Rightarrow>
             if tr_StartTS tr \<le> 0 \<or> tr_EndTS tr \<le> 0
             then Some (newErr 400 ''invalid_request'' ''time_range.start_ts and end_ts are required'')
             else if msThreshold \<le> tr_StartTS tr \<or> msThreshold \<le> tr_EndTS tr
             then Some (newErr 400 ''invalid_request'' ''timestamps must be in seconds, not milliseconds'')
             else if tr_EndTS tr < tr_StartTS tr
             then Some (newErr 400 ''invalid_request'' ''time_range.end_ts must be >= start_ts'')
             else if maxRangeDays * 24 * 3600 < tr_EndTS tr - tr_StartTS tr
             then Some (newErr 422 ''time_range_too_long''
                    (''time_range exceeds '' @ show_int maxRangeDays @ '' days''))
             else None)"

section \<open>Task identifiers\<close>

definition base32Alphabet :: string where
  "base32Alphabet = ''0123456789ABCDEFGHJKMNPQRSTVWXYZ''"

definition base32 :: "int \<Rightarrow> char" where
  "base32 n = base32Alphabet ! nat (n mod 32)"

text \<open>
  The loop from index 7 down to 0 over the milliseconds as a \<open>uint64\<close>: the digits of the low
  40 bits, most significant first.
\<close>

fun time_digits :: "nat \<Rightarrow> int \<Rightarrow> string" where
  "time_digits 0 ms = []"
| "time_digits (Suc k) ms = time_digits k (ms div 32) @ [base32 ms]"

text \<open>\<open>rnd\<close> are the 16 random bytes (the read never fails), \<open>now\<close> the clock.\<close>

definition NewTaskID :: "int \<Rightarrow> int list \<Rightarrow> string" where
  "NewTaskID now rnd = ''ost_'' @ time_digits 8 (now div 1000000 mod 2 ^ 64) @ map base32 rnd"

section \<open>Submitting\<close>

record 'w Submitter =
  sb_cfg :: ProtectConfig
  sb_index :: string
  sb_Count :: "ctx \<Rightarrow> string \<Rightarrow> string \<Rightarrow> int \<Rightarrow> int \<Rightarrow> 'w \<Rightarrow> int res \<times> 'w"
  sb_store :: "'w Store"

definition SubmitTotal :: "string \<Rightarrow> string \<Rightarrow> metric" where
  "SubmitTotal caller result = Inc ''batch_submit_total'' [caller, result]"

definition ProtectionRejected :: "string \<Rightarrow> metric" where
  "ProtectionRejected reason = Inc ''system_protection_rejected_total'' [reason]"

text \<open>The sum over the channels, in \<open>int64\<close>; the first failed count ends it.\<close>

fun count_channels :: "'w Submitter \<Rightarrow> ctx \<Rightarrow> TimeRange \<Rightarrow> Channel list \<Rightarrow> int \<Rightarrow> 'w \<Rightarrow> int res \<times> 'w" where
  "count_channels s c tr [] tot u = (Inr tot, u)"
| "count_channels s c tr (ch # chs) tot u =
     (case sb_Count s c (sb_index s) (ch_ChannelID ch) (tr_StartTS tr) (tr_EndTS tr) u of
        (Inl e, u1) \<Rightarrow> (Inl e, u1)
      | (Inr n, u1) \<Rightarrow> count_channels s c tr chs (i64 (tot + n)) u1)"

definition new_task :: "string \<Rightarrow> string \<Rightarrow> string \<Rightarrow> int \<Rightarrow> Request \<Rightarrow> Task" where
  "new_task taskID caller requestID tot req =
     \<lparr>t_TaskID = taskID, t_CallerService = caller, t_Status = StatusQueued, t_ActualCount = tot,
      t_Scope = rq_Scope req, t_TimeRange = rq_TimeRange req, t_RequestID = requestID,
      t_Warnings = [], t_ErrorCode = [], t_ErrorMessage = [], t_CreatedAt = 0, t_UpdatedAt = 0,
      t_ExpiresAt = 0\<rparr>"

text \<open>
  \<open>Submit\<close>; \<open>se\<close> resolves the select of the gate, \<open>rnd\<close> are the random bytes. The result comes
  with the executor, whose gate and queue it may have changed.
\<close>

type_synonym 'a submitted = "(SubmitError + string) \<times> 'a world_executor \<times> 'a World_scheme"

text \<open>The last steps, with the slot held: persist, enqueue, and undo what a failure leaves.\<close>

definition submit_admitted :: "'a World_scheme Submitter \<Rightarrow> int list \<Rightarrow> ctx \<Rightarrow> string \<Rightarrow> string
  \<Rightarrow> Request \<Rightarrow> int \<Rightarrow> 'a world_executor \<Rightarrow> 'a World_scheme \<Rightarrow> 'a submitted" where
  "submit_admitted s rnd c caller requestID req tot e u =
     (let taskID = NewTaskID (wd_clock u) rnd;
          t = new_task taskID caller requestID tot req
      in case st_Create (sb_store s) c t u of
           (Inl _, u1) \<Rightarrow>
             (Inl (newErr 500 ''internal_error'' ''persist task failed''),
              e\<lparr>ex_gate := Release (ex_gate e)\<rparr>, emit (SubmitTotal caller ''store_err'') u1)
         | (Inr _, u1) \<Rightarrow>
             (case Enqueue taskID e u1 of
                (Some _, e1, u2) \<Rightarrow>
                  (let e2 = e1\<lparr>ex_gate := Release (ex_gate e1)\<rparr>;
                       u3 = snd (st_Finalize (sb_store s) c taskID StatusFailed 0 []
                                  ''service_degraded'' ''queue full'' u2);
                       u4 = emit (ProtectionRejected ''queue_full'') u3;
                       u5 = emit (SubmitTotal caller ''degraded'') u4
                   in (Inl (newErr 503 ''service_degraded'' ''executor queue full''), e2, u5))
              | (None, e1, u2) \<Rightarrow> (Inr taskID, e1, emit (SubmitTotal caller ''ok'') u2)))"

definition Submit :: "'a World_scheme Submitter \<Rightarrow> select_env \<Rightarrow> int list \<Rightarrow> ctx \<Rightarrow> string \<Rightarrow> string
  \<Rightarrow> Request \<Rightarrow> 'a world_executor \<Rightarrow> 'a World_scheme \<Rightarrow> 'a submitted" where
  "Submit s se rnd c caller requestID req e u =
     (case validate req of
        Some er \<Rightarrow> (Inl er, e, emit (SubmitTotal caller ''invalid'') u)
      | None \<Rightarrow>
          (case count_channels s c (rq_TimeRange req) (sc_Channels (rq_Scope req)) 0 u of
             (Inl _, u1) \<Rightarrow>
               (Inl (newErr 503 ''service_degraded'' ''count check failed''), e,
                emit (SubmitTotal caller ''count_err'') u1)
           | (Inr tot, u1) \<Rightarrow>
               (let u2 = emit (Observe ''batch_count_check_duration_seconds'' []) u1
                in if pc_MaxTaskHits (sb_cfg s) < tot
                   then (Inl (newErr 413 ''single_task_too_large''
                                (''estimated hits '' @ show_int tot @ '' exceeds limit ''
                                 @ show_int (pc_MaxTaskHits (sb_cfg s)))),
                         e, emit (SubmitTotal caller ''too_large'')
                              (emit (ProtectionRejected ''max_task_hits'') u2))
                   else (case Acquire se (ctx_Err c u2) (pc_SubmitWait (sb_cfg s)) (ex_gate e) of
                           (False, g) \<Rightarrow>
                             (Inl (newErr 503 ''service_degraded'' ''global inflight limit reached''),
                              e\<lparr>ex_gate := g\<rparr>,
                              emit (SubmitTotal caller ''degraded'')
                                (emit (ProtectionRejected ''inflight_full'') u2))
                         | (True, g) \<Rightarrow>
                             submit_admitted s rnd c caller requestID req tot (e\<lparr>ex_gate := g\<rparr>) u2))))"

section \<open>Validation\<close>

lemma empty_channel_None: "empty_channel i cs = None \<longleftrightarrow> list_all (\<lambda>c. ch_ChannelID c \<noteq> []) cs"
  by (induction cs arbitrary: i) auto

definition request_valid :: "Request \<Rightarrow> bool" where
  "request_valid req \<longleftrightarrow>
     (let chs = sc_Channels (rq_Scope req); s = tr_StartTS (rq_TimeRange req);
          e = tr_EndTS (rq_TimeRange req)
      in chs \<noteq> [] \<and> length chs \<le> 30 \<and> list_all (\<lambda>c. ch_ChannelID c \<noteq> []) chs \<and>
         0 < s \<and> s \<le> e \<and> e < 10 ^ 12 \<and> e - s \<le> 31 * 24 * 3600)"

lemma validate_iff: "validate req = None \<longleftrightarrow> request_valid req"
proof (cases "empty_channel 0 (sc_Channels (rq_Scope req))")
  case None
  have "list_all (\<lambda>c. ch_ChannelID c \<noteq> []) (sc_Channels (rq_Scope req))"
    using None by (simp only: empty_channel_None)
  then show ?thesis
    by (auto simp: None validate_def request_valid_def Let_def maxChannels_def maxRangeDays_def
        msThreshold_def)
next
  case (Some i)
  then have "\<not> list_all (\<lambda>c. ch_ChannelID c \<noteq> []) (sc_Channels (rq_Scope req))"
    using empty_channel_None [of 0] by (metis option.distinct(1))
  with Some show ?thesis by (auto simp: validate_def request_valid_def Let_def)
qed

lemma validate_status: "validate req = Some er \<Longrightarrow> se_HTTPStatus er \<in> {400, 413, 422}"
  by (auto simp: validate_def Let_def newErr_def split: if_splits option.splits)

text \<open>The range check cannot wrap: both ends are below \<open>10 ^ 12\<close> where it is made.\<close>

section \<open>Identifiers\<close>

lemma time_digits_length [simp]: "length (time_digits k ms) = k"
  by (induction k arbitrary: ms) auto

lemma NewTaskID_length: "length rnd = 16 \<Longrightarrow> length (NewTaskID now rnd) = 28"
  by (simp add: NewTaskID_def)

lemma base32_digits: "list_all (\<lambda>k. base32 (int k) = base32Alphabet ! k) [0..<32]"
  by code_simp

lemma base32_in: "base32 n \<in> set base32Alphabet"
proof -
  have "nat (n mod 32) < length base32Alphabet"
    by (simp add: base32Alphabet_def nat_less_iff)
  then show ?thesis by (simp add: base32_def)
qed

lemma time_digits_set: "set (time_digits k ms) \<subseteq> set base32Alphabet"
  by (induction k arbitrary: ms) (auto simp: base32_in)

text \<open>Digits compare as their values do.\<close>

lemma base32_mono: "0 \<le> m \<Longrightarrow> m < n \<Longrightarrow> n < 32 \<Longrightarrow> base32 m < base32 n"
proof -
  have all: "list_all (\<lambda>i. list_all (\<lambda>j. i < j \<longrightarrow> base32Alphabet ! i < base32Alphabet ! j) [0..<32]) [0..<32]"
    by code_simp
  assume "0 \<le> m" "m < n" "n < 32"
  then have "nat m < nat n" "nat n < 32" by auto
  with all have "base32Alphabet ! nat m < base32Alphabet ! nat n"
    by (auto simp: list_all_iff)
  with \<open>0 \<le> m\<close> \<open>m < n\<close> \<open>n < 32\<close> show ?thesis by (simp add: base32_def)
qed

text \<open>The time digits depend on the low bits only, and order as the numbers do.\<close>

lemma base32_mod [simp]: "base32 (n mod 32) = base32 n"
  by (simp add: base32_def)

lemma time_digits_mod: "time_digits k (ms mod 32 ^ k) = time_digits k ms"
proof (induction k arbitrary: ms)
  case 0
  then show ?case by simp
next
  case (Suc k)
  have m: "ms mod 32 ^ Suc k = 32 * (ms div 32 mod 32 ^ k) + ms mod 32"
    using zmod_zmult2_eq [of "32 ^ k" ms 32] by simp
  then have "ms mod 32 ^ Suc k div 32 = ms div 32 mod 32 ^ k" by simp
  moreover have "base32 (ms mod 32 ^ Suc k) = base32 ms"
    unfolding m by (subst base32_mod [symmetric]) simp
  ultimately show ?case using Suc.IH [of "ms div 32"] by simp
qed

lemma list_less_append: "length xs = length ys \<Longrightarrow> xs < ys \<Longrightarrow> xs @ as < ys @ (zs :: 'a::order list)"
  by (simp add: list_less_def lexord_sufI)

lemma list_less_same: "(xs :: 'a::order list) @ as < xs @ zs \<longleftrightarrow> as < zs"
  by (induction xs) auto

lemma time_digits_mono:
  "0 \<le> m \<Longrightarrow> m < n \<Longrightarrow> n < 32 ^ k \<Longrightarrow> time_digits k m < time_digits k n"
proof (induction k arbitrary: m n)
  case 0
  then show ?case by simp
next
  case (Suc k)
  then have le: "m div 32 \<le> n div 32" by (simp add: zdiv_mono1)
  show ?case
  proof (cases "m div 32 = n div 32")
    case True
    with Suc.prems(2) have "m mod 32 < n mod 32"
      by (metis add_less_cancel_left mult_div_mod_eq)
    then have "base32 (m mod 32) < base32 (n mod 32)" by (intro base32_mono) simp_all
    with True show ?thesis by (simp add: list_less_same)
  next
    case False
    with le Suc.prems have "time_digits k (m div 32) < time_digits k (n div 32)"
      by (intro Suc.IH) auto
    then show ?thesis by (simp add: list_less_append)
  qed
qed

lemma NewTaskID_mono:
  assumes "now1 div 1000000 mod 2 ^ 40 < now2 div 1000000 mod 2 ^ 40"
  shows "NewTaskID now1 r1 < NewTaskID now2 r2"
proof -
  have "time_digits 8 (x mod 2 ^ 64) = time_digits 8 (x mod 2 ^ 40)" for x :: int
    using time_digits_mod [of 8 "x mod 2 ^ 64"] mod_mod_cancel [of "2 ^ 40" "2 ^ 64" x]
    by (simp add: le_imp_power_dvd)
  moreover have "time_digits 8 (now1 div 1000000 mod 2 ^ 40) < time_digits 8 (now2 div 1000000 mod 2 ^ 40)"
    using assms by (intro time_digits_mono) simp_all
  ultimately show ?thesis by (simp add: NewTaskID_def list_less_append)
qed

section \<open>Slots and queue\<close>

text \<open>An accepted task holds one more slot and is last in the queue; a refused one leaves both.\<close>

lemma Enqueue_cases:
  assumes "Enqueue taskID e u = (q, e', u')"
  shows "q = None \<and> e' = e\<lparr>ex_queue := ex_queue e @ [taskID]\<rparr> \<and> u' = set_queue_depth e' u
      \<and> int (length (ex_queue e)) < ec_QueueBuffer (ex_cfg e)
    \<or> q = Some ErrQueueFull \<and> e' = e \<and> u' = u
      \<and> ec_QueueBuffer (ex_cfg e) \<le> int (length (ex_queue e))"
  using assms by (auto simp: Enqueue_def Let_def split: if_splits)

lemma submit_admitted_slot:
  assumes "submit_admitted s rnd c caller requestID req tot e u = (r, e', u')"
  shows "case r of
      Inl _ \<Rightarrow> e' = e\<lparr>ex_gate := Release (ex_gate e)\<rparr>
    | Inr taskID \<Rightarrow> e' = e\<lparr>ex_queue := ex_queue e @ [taskID]\<rparr> \<and> taskID = NewTaskID (wd_clock u) rnd"
  using assms
  by (auto simp: submit_admitted_def Let_def split: prod.splits sum.splits option.splits
      dest!: Enqueue_cases)

lemma Submit_slot:
  assumes "Submit s se rnd c caller requestID req e u = (r, e', u')" and ok: "gate_ok (ex_gate e)"
  shows "case r of
      Inl _ \<Rightarrow> e' = e
    | Inr taskID \<Rightarrow> g_len (ex_gate e) < g_cap (ex_gate e) \<and>
        e' = e\<lparr>ex_gate := (ex_gate e)\<lparr>g_len := g_len (ex_gate e) + 1\<rparr>,
               ex_queue := ex_queue e @ [taskID]\<rparr>"
proof -
  obtain n u1 where cnt: "count_channels s c (rq_TimeRange req) (sc_Channels (rq_Scope req)) 0 u = (n, u1)"
    by fastforce
  let ?u2 = "emit (Observe ''batch_count_check_duration_seconds'' []) u1"
  obtain b g where acq: "Acquire se (ctx_Err c ?u2) (pc_SubmitWait (sb_cfg s)) (ex_gate e) = (b, g)"
    by fastforce
  note a = Acquire_cases [OF acq]
  have early: "e' = e \<and> (\<exists>er. r = Inl er) \<or> b \<and> (\<exists>tot. submit_admitted s rnd c caller requestID req tot
      (e\<lparr>ex_gate := g\<rparr>) ?u2 = (r, e', u'))"
    using assms(1) cnt acq a
    by (auto simp: Submit_def Let_def split: option.splits sum.splits if_splits)
  show ?thesis
  proof (cases "e' = e \<and> (\<exists>er. r = Inl er)")
    case True
    then show ?thesis by auto
  next
    case False
    with early obtain tot where b: "b" and ad: "submit_admitted s rnd c caller requestID req tot
      (e\<lparr>ex_gate := g\<rparr>) ?u2 = (r, e', u')" by blast
    from a b have g: "g_len (ex_gate e) < g_cap (ex_gate e)"
      "g = (ex_gate e)\<lparr>g_len := g_len (ex_gate e) + 1\<rparr>" by auto
    have "Release g = ex_gate e" using Release_Acquire [of se _ _ "ex_gate e" g] acq b ok by simp
    with submit_admitted_slot [OF ad] g show ?thesis by (cases r) auto
  qed
qed

section \<open>What is persisted\<close>

text \<open>
  What \<open>Submit\<close> relies on: the store's contract, counts that report the hits of an index that
  does not change meanwhile, and that counts and metric calls leave the tasks alone.
\<close>

locale submit_env = task_store "sb_store s" tasks invar
  for s :: "'a World_scheme Submitter" and tasks :: "'a World_scheme \<Rightarrow> tasks"
    and invar :: "'a World_scheme \<Rightarrow> bool" +
  fixes hits :: "string \<Rightarrow> int \<Rightarrow> int \<Rightarrow> int"
  assumes count_ok: "sb_Count s c (sb_index s) ch st en u = (Inr n, u') \<Longrightarrow> in_i64 st \<Longrightarrow> in_i64 en \<Longrightarrow>
      n = hits ch st en"
    and count_frame: "sb_Count s c (sb_index s) ch st en u = (x, u') \<Longrightarrow>
      tasks u' = tasks u \<and> (invar u \<longrightarrow> invar u')"
    and emit_frame: "tasks (emit m u) = tasks u \<and> (invar u \<longrightarrow> invar (emit m u))"

text \<open>The estimate of a request: the hits of its channels, a repeated channel repeatedly.\<close>

definition estimate :: "(string \<Rightarrow> int \<Rightarrow> int \<Rightarrow> int) \<Rightarrow> Request \<Rightarrow> int" where
  "estimate hits req =
     sum_list (map (\<lambda>ch. hits (ch_ChannelID ch) (tr_StartTS (rq_TimeRange req)) (tr_EndTS (rq_TimeRange req)))
       (sc_Channels (rq_Scope req)))"

context submit_env begin

lemma count_channels_frame:
  "count_channels s c tr chs tot u = (x, u') \<Longrightarrow> tasks u' = tasks u \<and> (invar u \<longrightarrow> invar u')"
proof (induction chs arbitrary: tot u)
  case Nil
  then show ?case by auto
next
  case (Cons ch chs)
  obtain y u1 where c1: "sb_Count s c (sb_index s) (ch_ChannelID ch) (tr_StartTS tr) (tr_EndTS tr) u = (y, u1)"
    by fastforce
  from count_frame [OF c1] Cons.prems c1 show ?case
  proof (cases y)
    case (Inr n)
    with Cons.prems c1 Cons.IH [of "i64 (tot + n)" u1] count_frame [OF c1] show ?thesis by auto
  qed auto
qed

text \<open>With at most 30 channels of fewer than \<open>2 ^ 58\<close> hits the sum does not wrap.\<close>

lemma count_channels_sum:
  assumes "count_channels s c tr chs tot u = (Inr n, u')"
    and "in_i64 (tr_StartTS tr)" and "in_i64 (tr_EndTS tr)"
    and "\<forall>ch. 0 \<le> hits ch (tr_StartTS tr) (tr_EndTS tr) \<and> hits ch (tr_StartTS tr) (tr_EndTS tr) < 2 ^ 58"
    and "0 \<le> tot" and "tot + int (length chs) * 2 ^ 58 \<le> 2 ^ 63"
  shows "n = tot + sum_list (map (\<lambda>ch. hits (ch_ChannelID ch) (tr_StartTS tr) (tr_EndTS tr)) chs)"
  using assms
proof (induction chs arbitrary: tot u)
  case Nil
  then show ?case by simp
next
  case (Cons ch chs)
  let ?h = "hits (ch_ChannelID ch) (tr_StartTS tr) (tr_EndTS tr)"
  from Cons.prems(1) obtain k u1 where
    c1: "sb_Count s c (sb_index s) (ch_ChannelID ch) (tr_StartTS tr) (tr_EndTS tr) u = (Inr k, u1)"
    and r: "count_channels s c tr chs (i64 (tot + k)) u1 = (Inr n, u')"
    by (auto split: prod.splits sum.splits)
  have k: "k = ?h" using count_ok [OF c1 Cons.prems(2,3)] .
  have b: "0 \<le> ?h" "?h < 2 ^ 58" using Cons.prems(4) by auto
  have "in_i64 (tot + ?h)"
    using b Cons.prems(5,6) by (simp add: in_i64_def algebra_simps)
  then have "i64 (tot + k) = tot + ?h" using k by (simp add: i64_id)
  with r have r1: "count_channels s c tr chs (tot + ?h) u1 = (Inr n, u')" by simp
  have "tot + ?h + int (length chs) * 2 ^ 58 \<le> 2 ^ 63"
    using Cons.prems(6) b by (simp add: algebra_simps)
  from Cons.IH [OF r1 Cons.prems(2,3,4) _ this] b Cons.prems(5) show ?case by simp
qed

lemma set_queue_depth_frame:
  "tasks (set_queue_depth e u) = tasks u \<and> (invar u \<longrightarrow> invar (set_queue_depth e u))"
  using emit_frame by (simp add: set_queue_depth_def)

text \<open>Acceptance: a valid request within the limit, persisted as a queued task.\<close>

lemma Submit_accepts:
  assumes sub: "Submit s se rnd c caller requestID req e u = (Inr taskID, e', u')" and inv: "invar u"
    and sc: "storable_scope (rq_Scope req)"
    and hb: "\<forall>ch. 0 \<le> hits ch (tr_StartTS (rq_TimeRange req)) (tr_EndTS (rq_TimeRange req))
      \<and> hits ch (tr_StartTS (rq_TimeRange req)) (tr_EndTS (rq_TimeRange req)) < 2 ^ 58"
  shows "request_valid req \<and> estimate hits req \<le> pc_MaxTaskHits (sb_cfg s) \<and>
    tasks u taskID = None \<and> invar u' \<and>
    (\<exists>t. tasks u' = (tasks u)(taskID \<mapsto> t) \<and> t_TaskID t = taskID \<and> t_Status t = StatusQueued \<and>
       t_CallerService t = caller \<and> t_RequestID t = requestID \<and> t_Scope t = rq_Scope req \<and>
       t_TimeRange t = rq_TimeRange req \<and> t_ActualCount t = 0)"
proof -
  have v: "validate req = None"
    using sub by (auto simp: Submit_def split: option.splits)
  then have rv: "request_valid req" by (simp add: validate_iff)
  obtain n u1 where cnt: "count_channels s c (rq_TimeRange req) (sc_Channels (rq_Scope req)) 0 u = (Inr n, u1)"
    using sub v by (auto simp: Submit_def split: prod.splits sum.splits)
  let ?u2 = "emit (Observe ''batch_count_check_duration_seconds'' []) u1"
  from sub v cnt obtain g where le: "n \<le> pc_MaxTaskHits (sb_cfg s)"
    and ad: "submit_admitted s rnd c caller requestID req n (e\<lparr>ex_gate := g\<rparr>) ?u2 = (Inr taskID, e', u')"
    by (auto simp: Submit_def Let_def split: prod.splits bool.splits if_splits)
  let ?t = "new_task taskID caller requestID n req"
  have tid: "taskID = NewTaskID (wd_clock ?u2) rnd" using submit_admitted_slot [OF ad] by simp
  obtain t' u3 where cr: "st_Create (sb_store s) c ?t ?u2 = (Inr t', u3)"
    and fin: "tasks u' = tasks u3 \<and> (invar u3 \<longrightarrow> invar u')"
    using ad emit_frame set_queue_depth_frame
    by (auto simp: submit_admitted_def Let_def tid split: prod.splits sum.splits option.splits
        dest!: Enqueue_cases)
  have u2: "tasks ?u2 = tasks u" "invar ?u2"
    using count_channels_frame [OF cnt] emit_frame inv by auto
  have nt: "t_TaskID ?t = taskID" "t_Scope ?t = rq_Scope req" "t_Status ?t = StatusQueued"
    by (simp_all add: new_task_def)
  from create_ok [OF cr u2(2)] sc nt obtain n1 n2 n3 where "tasks u taskID = None"
    "tasks u3 = (tasks u)(taskID \<mapsto> (set_final StatusQueued 0 [] [] [] ?t)
       \<lparr>t_CreatedAt := n1, t_UpdatedAt := n2, t_ExpiresAt := n3\<rparr>)"
    using u2 by auto
  moreover have "in_i64 (tr_StartTS (rq_TimeRange req))" "in_i64 (tr_EndTS (rq_TimeRange req))"
    "int (length (sc_Channels (rq_Scope req))) \<le> 30"
    using rv by (auto simp: request_valid_def in_i64_def Let_def)
  moreover from this have "n = estimate hits req"
    using count_channels_sum [OF cnt _ _ hb] by (simp add: estimate_def)
  ultimately show ?thesis
    using rv le fin create_invar [OF cr u2(2)] by (auto simp: new_task_def set_final_def)
qed

text \<open>Refusal before a task exists leaves the tasks as they were.\<close>

lemma Submit_refuses:
  assumes sub: "Submit s se rnd c caller requestID req e u = (Inl er, e', u')"
    and early: "se_HTTPStatus er \<in> {400, 413, 422} \<or> se_Message er = ''count check failed''
      \<or> se_Message er = ''global inflight limit reached''"
  shows "tasks u' = tasks u \<and> e' = e"
proof (cases "validate req")
  case (Some x)
  with sub emit_frame show ?thesis by (auto simp: Submit_def)
next
  case None
  obtain x u1 where cnt: "count_channels s c (rq_TimeRange req) (sc_Channels (rq_Scope req)) 0 u = (x, u1)"
    by fastforce
  let ?u2 = "emit (Observe ''batch_count_check_duration_seconds'' []) u1"
  obtain b g where acq: "Acquire se (ctx_Err c ?u2) (pc_SubmitWait (sb_cfg s)) (ex_gate e) = (b, g)"
    by fastforce
  note a = Acquire_cases [OF acq]
  have late: "se_HTTPStatus er \<in> {500, 503} \<and> se_Message er \<in> {''persist task failed'', ''executor queue full''}"
    if "submit_admitted s rnd c caller requestID req tot e1 v = (Inl er, e', u')" for tot e1 v
    using that by (auto simp: submit_admitted_def Let_def newErr_def split: prod.splits sum.splits option.splits)
  show ?thesis
  proof (cases x)
    case (Inl y)
    with sub None cnt count_channels_frame [OF cnt] emit_frame show ?thesis
      by (auto simp: Submit_def)
  next
    case (Inr n)
    show ?thesis
    proof (cases "pc_MaxTaskHits (sb_cfg s) < n \<or> \<not> b")
      case True
      with sub None cnt Inr acq a count_channels_frame [OF cnt] emit_frame show ?thesis
        by (auto simp: Submit_def Let_def split: if_splits)
    next
      case False
      with sub None cnt Inr acq have "submit_admitted s rnd c caller requestID req n
          (e\<lparr>ex_gate := g\<rparr>) ?u2 = (Inl er, e', u')"
        by (auto simp: Submit_def Let_def)
      from late [OF this] early show ?thesis by auto
    qed
  qed
qed

end

end
