(* ===== verification/Canceller.thy ===== *)
theory Canceller
  imports Store_Interface Metrics_Audit Go_Time
begin

text \<open>
  \<open>internal/cancel/cancel.go\<close>: cancelling a task. The signaller, the cleaner and the auditor
  are optional dependencies, as in the source.
\<close>

record 'w Cleaner =
  cn_DeletePrefix :: "string \<Rightarrow> 'w \<Rightarrow> err option \<times> 'w"
  cn_TaskPrefix :: "string \<Rightarrow> string \<Rightarrow> string \<Rightarrow> string"

record 'w Canceller =
  cc_store :: "'w Store"
  cc_sig :: "(string \<Rightarrow> 'w \<Rightarrow> 'w) option"
  cc_clean :: "'w Cleaner option"
  cc_audit :: "(AuditEvent \<Rightarrow> 'w \<Rightarrow> 'w) option"

record CancelResult =
  cr_Status :: Status
  cr_NotFound :: bool

definition signal :: "'w Canceller \<Rightarrow> string \<Rightarrow> 'w \<Rightarrow> 'w" where
  "signal cn taskID u = (case cc_sig cn of None \<Rightarrow> u | Some f \<Rightarrow> f taskID u)"

text \<open>The prefix is that of the current day; the outcome of the deletion is dropped.\<close>

definition clean :: "'a World_scheme Canceller \<Rightarrow> string \<Rightarrow> string \<Rightarrow> 'a World_scheme
  \<Rightarrow> 'a World_scheme" where
  "clean cn taskID caller u =
     (case cc_clean cn of
        None \<Rightarrow> u
      | Some k \<Rightarrow> snd (cn_DeletePrefix k (cn_TaskPrefix k (format_day (wd_clock u)) caller taskID) u))"

definition audit_cancel :: "'w Canceller \<Rightarrow> string \<Rightarrow> string \<Rightarrow> string \<Rightarrow> 'w \<Rightarrow> 'w" where
  "audit_cancel cn taskID caller reqID u =
     (case cc_audit cn of
        None \<Rightarrow> u
      | Some logev \<Rightarrow> logev (audit_event ''delete'' taskID caller reqID ''cancelled'') u)"

text \<open>The zero value of \<open>Status\<close> is \<open>StatusQueued\<close>.\<close>

definition Cancel :: "'a World_scheme Canceller \<Rightarrow> ctx \<Rightarrow> string \<Rightarrow> string \<Rightarrow> 'a World_scheme
  \<Rightarrow> CancelResult res \<times> 'a World_scheme" where
  "Cancel cn c taskID caller u =
     (case st_Get (cc_store cn) c taskID u of
        (Inl ErrNotFound, u1) \<Rightarrow> (Inr \<lparr>cr_Status = StatusQueued, cr_NotFound = True\<rparr>, u1)
      | (Inl e, u1) \<Rightarrow> (Inl e, u1)
      | (Inr t, u1) \<Rightarrow>
          if t_CallerService t \<noteq> caller
          then (Inr \<lparr>cr_Status = StatusQueued, cr_NotFound = True\<rparr>, u1)
          else if IsTerminal (t_Status t)
          then (Inr \<lparr>cr_Status = t_Status t, cr_NotFound = False\<rparr>, u1)
          else (case st_CancelCAS (cc_store cn) c taskID u1 of
                  (Inl e, u2) \<Rightarrow> (Inl e, u2)
                | (Inr (False, cur), u2) \<Rightarrow> (Inr \<lparr>cr_Status = cur, cr_NotFound = False\<rparr>, u2)
                | (Inr (True, _), u2) \<Rightarrow>
                    (Inr \<lparr>cr_Status = StatusCancelled, cr_NotFound = False\<rparr>,
                     audit_cancel cn taskID caller (t_RequestID t)
                       (clean cn taskID caller (signal cn taskID u2)))))"

section \<open>The contract\<close>

locale cancel_env = task_store "cc_store cn" tasks invar
  for cn :: "'a World_scheme Canceller" and tasks :: "'a World_scheme \<Rightarrow> tasks"
    and invar :: "'a World_scheme \<Rightarrow> bool" +
  assumes signal_frame: "tasks (signal cn tid u) = tasks u \<and> (invar u \<longrightarrow> invar (signal cn tid u))"
    and clean_frame: "tasks (clean cn tid cl u) = tasks u \<and> (invar u \<longrightarrow> invar (clean cn tid cl u))"
    and audit_frame: "tasks (audit_cancel cn tid cl rid u) = tasks u \<and>
      (invar u \<longrightarrow> invar (audit_cancel cn tid cl rid u))"

context cancel_env begin

lemma after_frame:
  "tasks (audit_cancel cn tid cl rid (clean cn tid cl (signal cn tid u))) = tasks u \<and>
   (invar u \<longrightarrow> invar (audit_cancel cn tid cl rid (clean cn tid cl (signal cn tid u))))"
  using signal_frame clean_frame audit_frame by simp

lemma Cancel_invar: "Cancel cn c tid caller u = (r, u') \<Longrightarrow> invar u \<Longrightarrow> invar u'"
proof -
  assume can: "Cancel cn c tid caller u = (r, u')" and inv: "invar u"
  obtain x u1 where g: "st_Get (cc_store cn) c tid u = (x, u1)" by fastforce
  have i1: "invar u1" using get_invar [OF g inv] .
  obtain y u2 where cas: "st_CancelCAS (cc_store cn) c tid u1 = (y, u2)" by fastforce
  have i2: "invar u2" using cas_invar [OF cas i1] .
  show ?thesis
    using can g cas i1 i2 after_frame
    by (auto simp: Cancel_def split: sum.splits err.splits if_splits prod.splits bool.splits)
qed

text \<open>A missing task and one of another caller look the same and stay as they are.\<close>

lemma Cancel_not_found:
  assumes "Cancel cn c tid caller u = (Inr res, u')" and "invar u" and "cr_NotFound res"
  shows "res = \<lparr>cr_Status = StatusQueued, cr_NotFound = True\<rparr> \<and> tasks u' = tasks u \<and>
    (\<forall>t. tasks u tid = Some t \<longrightarrow> t_CallerService t \<noteq> caller)"
proof -
  obtain x u1 where g: "st_Get (cc_store cn) c tid u = (x, u1)" by fastforce
  obtain y u2 where cas: "st_CancelCAS (cc_store cn) c tid u1 = (y, u2)" by fastforce
  have fr: "tasks u1 = tasks u" using get_frame [OF g] .
  show ?thesis
  proof (cases x)
    case (Inl e)
    with assms g get_missing [of c tid u u1] fr show ?thesis
      by (auto simp: Cancel_def split: err.splits)
  next
    case (Inr t)
    with get_ok [of c tid u t u1] g assms(2) have "tasks u tid = Some t" by simp
    with assms g Inr cas fr show ?thesis
      by (auto simp: Cancel_def split: if_splits sum.splits bool.splits prod.splits)
  qed
qed

text \<open>
  Otherwise the answer is the status after the call, and the task either keeps a status that
  cannot be cancelled or goes from queued or running to cancelled.
\<close>

lemma Cancel_found:
  assumes "Cancel cn c tid caller u = (Inr res, u')" and "invar u" and "\<not> cr_NotFound res"
  shows "\<exists>t. tasks u tid = Some t \<and> t_CallerService t = caller \<and>
    (t_Status t \<notin> {StatusQueued, StatusRunning} \<and> cr_Status res = t_Status t \<and> tasks u' = tasks u
     \<or> t_Status t \<in> {StatusQueued, StatusRunning} \<and> cr_Status res = StatusCancelled \<and>
       touched tid (set_status StatusCancelled) (tasks u) (tasks u'))"
proof -
  obtain x u1 where g: "st_Get (cc_store cn) c tid u = (x, u1)" by fastforce
  obtain y u2 where cas: "st_CancelCAS (cc_store cn) c tid u1 = (y, u2)" by fastforce
  have fr: "tasks u1 = tasks u" and i1: "invar u1" using get_frame [OF g] get_invar [OF g] assms(2) by auto
  from assms g obtain t where x: "x = Inr t" and cl: "t_CallerService t = caller"
    by (auto simp: Cancel_def split: sum.splits err.splits if_splits)
  with get_ok [of c tid u t u1] g assms(2) have t: "tasks u tid = Some t" by simp
  show ?thesis
  proof (cases "IsTerminal (t_Status t)")
    case True
    with assms g x cl have "cr_Status res = t_Status t \<and> u' = u1" by (auto simp: Cancel_def)
    moreover have "t_Status t \<notin> {StatusQueued, StatusRunning}" using True by auto
    ultimately show ?thesis using t cl fr by auto
  next
    case False
    show ?thesis
    proof (cases y)
      case (Inl e)
      with assms g x cl False cas show ?thesis by (simp add: Cancel_def)
    next
      case (Inr p)
      show ?thesis
      proof (cases "fst p")
        case True
        with Inr cas cas_done [of c tid u1 "snd p" u2] i1 fr t
        have "t_Status t \<in> {StatusQueued, StatusRunning}"
          "touched tid (set_status StatusCancelled) (tasks u) (tasks u2)" by (cases p; auto)+
        moreover have "cr_Status res = StatusCancelled" "tasks u' = tasks u2"
          using assms g x cl False cas Inr True after_frame by (cases p; auto simp: Cancel_def)+
        ultimately show ?thesis using t cl by auto
      next
        case no: False
        with Inr cas cas_lost [of c tid u1 "snd p" u2] i1 fr t
        have "t_Status t \<notin> {StatusQueued, StatusRunning}" "tasks u2 = tasks u" "snd p = t_Status t"
          by (cases p; auto)+
        moreover have "cr_Status res = snd p" "u' = u2"
          using assms g x cl False cas Inr no by (cases p; auto simp: Cancel_def)+
        ultimately show ?thesis using t cl by auto
      qed
    qed
  qed
qed

text \<open>Cancelling again gives the same answer and changes nothing more.\<close>

lemma Cancel_again:
  assumes one: "Cancel cn c tid caller u = (Inr res, u')" and inv: "invar u"
    and two: "Cancel cn c' tid caller u' = (Inr res', u'')"
  shows "res' = res \<and> tasks u'' = tasks u'"
proof (cases "cr_NotFound res")
  case nf: True
  note n1 = Cancel_not_found [OF one inv nf]
  have inv': "invar u'" using Cancel_invar [OF one inv] .
  have "cr_NotFound res'"
  proof (rule ccontr)
    assume "\<not> cr_NotFound res'"
    from Cancel_found [OF two inv' this] n1 show False by auto
  qed
  with Cancel_not_found [OF two inv'] n1 show ?thesis by simp
next
  case found: False
  have inv': "invar u'" using Cancel_invar [OF one inv] .
  from Cancel_found [OF one inv found] obtain t where t: "tasks u tid = Some t" "t_CallerService t = caller"
    and alt: "t_Status t \<notin> {StatusQueued, StatusRunning} \<and> cr_Status res = t_Status t \<and> tasks u' = tasks u
     \<or> t_Status t \<in> {StatusQueued, StatusRunning} \<and> cr_Status res = StatusCancelled \<and>
       touched tid (set_status StatusCancelled) (tasks u) (tasks u')" by blast
  then obtain t' where t': "tasks u' tid = Some t'" "t_CallerService t' = caller"
    "t_Status t' = cr_Status res" "t_Status t' \<notin> {StatusQueued, StatusRunning}"
    by (auto simp: touched_def set_status_def)
  have nf': "\<not> cr_NotFound res'"
  proof
    assume "cr_NotFound res'"
    from Cancel_not_found [OF two inv' this] t' show False by auto
  qed
  from Cancel_found [OF two inv' nf'] t' have "cr_Status res' = cr_Status res" "tasks u'' = tasks u'"
    by auto
  moreover have "res' = res" using calculation(1) found nf' by (simp add: CancelResult.equality)
  ultimately show ?thesis by simp
qed

end

end
