(* ===== verification/MySQL_Store.thy ===== *)
theory MySQL_Store
  imports Store_Interface
begin

text \<open>
  \<open>internal/store/mysql.go\<close> over the two tables of \<open>migrations/schema.sql\<close>. A table is its
  list of rows in insertion order, a statement is a function on the tables, and a JSON column
  holds the JSON value of the text the code writes. Times in a row are whole seconds, as in a
  \<open>DATETIME\<close> column; the clock counts nanoseconds.
\<close>

section \<open>Tables\<close>

record TaskRow =
  r_task_id :: string
  r_caller_service :: string
  r_status :: int
  r_actual_count :: int
  r_scope_json :: gval
  r_time_range_start :: int
  r_time_range_end :: int
  r_request_id :: string
  r_warnings_json :: "gval option"
  r_error_code :: string
  r_error_message :: "string option"
  r_created_at :: int
  r_updated_at :: int
  r_expires_at :: int

record PartRow =
  pr_task_id :: string
  pr_part_seq :: int
  pr_s3_key :: string
  pr_size_bytes :: int
  pr_message_count :: int
  pr_sha256 :: string
  pr_channel_ids_json :: gval
  pr_created_at :: int

record MySQL = World +
  batch_task :: "TaskRow list"
  batch_task_part :: "PartRow list"

section \<open>JSON columns\<close>

definition scope_json :: "Scope \<Rightarrow> gval" where
  "scope_json sc =
     GMap [(''channels'',
       GSlice (map (\<lambda>c. GMap [(''channel_id'', GString (to_valid (ch_ChannelID c)))])
                   (sc_Channels sc)))]"

fun channel_of_json :: "gval \<Rightarrow> Channel option" where
  "channel_of_json (GMap m) = map_option (\<lambda>s. \<lparr>ch_ChannelID = s\<rparr>) (string_field (gget m ''channel_id''))"
| "channel_of_json GNil = Some \<lparr>ch_ChannelID = []\<rparr>"
| "channel_of_json _ = None"

fun scope_of_json :: "gval \<Rightarrow> Scope option" where
  "scope_of_json (GMap m) =
     map_option (\<lambda>cs. \<lparr>sc_Channels = cs\<rparr>) (list_field channel_of_json (gget m ''channels''))"
| "scope_of_json GNil = Some \<lparr>sc_Channels = []\<rparr>"
| "scope_of_json _ = None"

definition warning_json :: "Warning \<Rightarrow> gval" where
  "warning_json x = GMap
     ((if wn_ChannelID x = [] then [] else [(''channel_id'', GString (to_valid (wn_ChannelID x)))])
      @ [(''code'', GString (to_valid (wn_Code x))),
         (''limit'', GNumber (show_int (wn_Limit x))),
         (''actual_seen'', GNumber (show_int (wn_ActualSeen x)))])"

fun warning_of_json :: "gval \<Rightarrow> Warning option" where
  "warning_of_json (GMap m) =
     (case (string_field (gget m ''channel_id''), string_field (gget m ''code''),
            int_field (gget m ''limit''), int_field (gget m ''actual_seen'')) of
        (Some c, Some k, Some l, Some s) \<Rightarrow>
          Some \<lparr>wn_ChannelID = c, wn_Code = k, wn_Limit = l, wn_ActualSeen = s\<rparr>
      | _ \<Rightarrow> None)"
| "warning_of_json GNil = Some \<lparr>wn_ChannelID = [], wn_Code = [], wn_Limit = 0, wn_ActualSeen = 0\<rparr>"
| "warning_of_json _ = None"

definition strings_json :: "string list \<Rightarrow> gval" where
  "strings_json ss = GSlice (map (\<lambda>s. GString (to_valid s)) ss)"

section \<open>Operations\<close>

text \<open>\<open>t.Unix()\<close>, and the value a nanosecond time takes in a \<open>DATETIME\<close> column (rounded).\<close>

definition unix :: "int \<Rightarrow> int" where
  "unix t = t div 1000000000"

definition datetime :: "int \<Rightarrow> int" where
  "datetime t = (t + 500000000) div 1000000000"

definition nullableStr :: "string \<Rightarrow> string option" where
  "nullableStr s = (if s = [] then None else Some s)"

text \<open>An INSERT with a primary key already present fails and changes nothing.\<close>

definition insert_task :: "TaskRow \<Rightarrow> 'a MySQL_scheme \<Rightarrow> 'a MySQL_scheme" where
  "insert_task r w = w\<lparr>batch_task := batch_task w @ [r]\<rparr>"

definition has_task :: "string \<Rightarrow> 'a MySQL_scheme \<Rightarrow> bool" where
  "has_task taskID w \<longleftrightarrow> list_ex (\<lambda>r. r_task_id r = taskID) (batch_task w)"

text \<open>
  A \<open>VARCHAR(n)\<close> column takes valid texts of at most \<open>n\<close> characters; in strict mode, the
  default, any other value fails the statement.
\<close>

definition varchar_ok :: "nat \<Rightarrow> string \<Rightarrow> bool" where
  "varchar_ok n s \<longleftrightarrow> valid_utf8 s \<and> length (runes s) \<le> n"

definition task_row_fits :: "TaskRow \<Rightarrow> bool" where
  "task_row_fits r \<longleftrightarrow>
     varchar_ok 40 (r_task_id r) \<and> varchar_ok 64 (r_caller_service r) \<and> varchar_ok 40 (r_request_id r)"

definition part_row_fits :: "PartRow \<Rightarrow> bool" where
  "part_row_fits r \<longleftrightarrow>
     varchar_ok 40 (pr_task_id r) \<and> varchar_ok 256 (pr_s3_key r) \<and> varchar_ok 64 (pr_sha256 r)"

definition insert_refused :: "TaskRow \<Rightarrow> 'a MySQL_scheme \<Rightarrow> bool" where
  "insert_refused r w \<longleftrightarrow> has_task (r_task_id r) w \<or> \<not> task_row_fits r"

definition MySQLStore_Create :: "ctx \<Rightarrow> Task \<Rightarrow> 'a MySQL_scheme \<Rightarrow> Task res \<times> 'a MySQL_scheme" where
  "MySQLStore_Create c t w =
     (let now = wd_clock w;
          expires = (if 0 < t_ExpiresAt t then t_ExpiresAt t * 1000000000
                     else now + 7 * 24 * 3600 * 1000000000);
          row = \<lparr>r_task_id = t_TaskID t, r_caller_service = t_CallerService t,
                 r_status = status_int8 (t_Status t), r_actual_count = 0,
                 r_scope_json = scope_json (t_Scope t),
                 r_time_range_start = tr_StartTS (t_TimeRange t),
                 r_time_range_end = tr_EndTS (t_TimeRange t),
                 r_request_id = t_RequestID t, r_warnings_json = None,
                 r_error_code = [], r_error_message = None,
                 r_created_at = datetime now, r_updated_at = datetime now,
                 r_expires_at = datetime expires\<rparr>
      in if insert_refused row w
         then (case remote_exec c id w of (_, w1) \<Rightarrow> (Inl (ErrMsg ''insert task''), w1))
         else (case remote_exec c (insert_task row) w of
                 (Some _, w1) \<Rightarrow> (Inl (ErrMsg ''insert task''), w1)
               | (None, w1) \<Rightarrow>
                   (Inr (t\<lparr>t_CreatedAt := unix now, t_UpdatedAt := unix now,
                           t_ExpiresAt := unix expires\<rparr>), w1)))"

definition scanTask :: "TaskRow option \<Rightarrow> Task res" where
  "scanTask row =
     (case row of
        None \<Rightarrow> Inl ErrNotFound
      | Some r \<Rightarrow>
          (case scope_of_json (r_scope_json r) of
             None \<Rightarrow> Inl (ErrMsg ''unmarshal scope'')
           | Some sc \<Rightarrow> Inr
               \<lparr>t_TaskID = r_task_id r, t_CallerService = r_caller_service r,
                t_Status = int8_status (r_status r), t_ActualCount = r_actual_count r,
                t_Scope = sc,
                t_TimeRange = \<lparr>tr_StartTS = r_time_range_start r, tr_EndTS = r_time_range_end r\<rparr>,
                t_RequestID = r_request_id r,
                t_Warnings = (case r_warnings_json r of
                    None \<Rightarrow> []
                  | Some v \<Rightarrow> (case list_field warning_of_json v of None \<Rightarrow> [] | Some ws \<Rightarrow> ws)),
                t_ErrorCode = r_error_code r,
                t_ErrorMessage = (case r_error_message r of None \<Rightarrow> [] | Some s \<Rightarrow> s),
                t_CreatedAt = r_created_at r, t_UpdatedAt = r_updated_at r,
                t_ExpiresAt = r_expires_at r\<rparr>))"

definition select_task :: "string \<Rightarrow> 'a MySQL_scheme \<Rightarrow> TaskRow option" where
  "select_task taskID w = find (\<lambda>r. r_task_id r = taskID) (batch_task w)"

definition MySQLStore_Get :: "ctx \<Rightarrow> string \<Rightarrow> 'a MySQL_scheme \<Rightarrow> Task res \<times> 'a MySQL_scheme" where
  "MySQLStore_Get c taskID w =
     (case remote_query c (select_task taskID) w of
        (Inl _, w1) \<Rightarrow> (Inl (ErrMsg ''scan task''), w1)
      | (Inr row, w1) \<Rightarrow> (scanTask row, w1))"

text \<open>\<open>UPDATE batch_task SET ... WHERE ...\<close>.\<close>

definition update_tasks ::
  "(TaskRow \<Rightarrow> bool) \<Rightarrow> (TaskRow \<Rightarrow> TaskRow) \<Rightarrow> 'a MySQL_scheme \<Rightarrow> 'a MySQL_scheme" where
  "update_tasks P f w = w\<lparr>batch_task := map (\<lambda>r. if P r then f r else r) (batch_task w)\<rparr>"

definition MySQLStore_UpdateStatus ::
  "ctx \<Rightarrow> string \<Rightarrow> Status \<Rightarrow> 'a MySQL_scheme \<Rightarrow> err option \<times> 'a MySQL_scheme" where
  "MySQLStore_UpdateStatus c taskID status w =
     (let now = datetime (wd_clock w) in
      case remote_exec c
             (update_tasks (\<lambda>r. r_task_id r = taskID)
                (\<lambda>r. r\<lparr>r_status := status_int8 status, r_updated_at := now\<rparr>)) w of
        (Some _, w1) \<Rightarrow> (Some (ErrMsg ''update status''), w1)
      | (None, w1) \<Rightarrow> (None, w1))"

definition MySQLStore_Finalize ::
  "ctx \<Rightarrow> string \<Rightarrow> Status \<Rightarrow> int \<Rightarrow> Warning list \<Rightarrow> string \<Rightarrow> string
   \<Rightarrow> 'a MySQL_scheme \<Rightarrow> err option \<times> 'a MySQL_scheme" where
  "MySQLStore_Finalize c taskID status actualCount warnings errCode errMsg w =
     (let now = datetime (wd_clock w);
          warningsJSON = (if warnings = [] then None else Some (GSlice (map warning_json warnings)))
      in case remote_exec c
                (update_tasks (\<lambda>r. r_task_id r = taskID)
                   (\<lambda>r. r\<lparr>r_status := status_int8 status, r_actual_count := actualCount,
                          r_warnings_json := warningsJSON, r_error_code := errCode,
                          r_error_message := nullableStr errMsg, r_updated_at := now\<rparr>)) w of
           (Some _, w1) \<Rightarrow> (Some (ErrMsg ''finalize task''), w1)
         | (None, w1) \<Rightarrow> (None, w1))"

text \<open>\<open>INSERT ... ON DUPLICATE KEY UPDATE\<close> on the unique key \<open>(task_id, part_seq)\<close>.\<close>

fun upsert_part :: "PartRow \<Rightarrow> PartRow list \<Rightarrow> PartRow list" where
  "upsert_part r [] = [r]"
| "upsert_part r (q # qs) =
     (if pr_task_id q = pr_task_id r \<and> pr_part_seq q = pr_part_seq r then r # qs
      else q # upsert_part r qs)"

definition MySQLStore_AppendPart ::
  "ctx \<Rightarrow> Part \<Rightarrow> 'a MySQL_scheme \<Rightarrow> err option \<times> 'a MySQL_scheme" where
  "MySQLStore_AppendPart c p w =
     (let row = \<lparr>pr_task_id = p_TaskID p, pr_part_seq = p_PartSeq p, pr_s3_key = p_S3Key p,
                 pr_size_bytes = p_SizeBytes p, pr_message_count = p_MessageCount p,
                 pr_sha256 = p_SHA256 p, pr_channel_ids_json = strings_json (p_ChannelIDs p),
                 pr_created_at = datetime (wd_clock w)\<rparr>
      in case remote_exec c (\<lambda>w. if part_row_fits row
                then w\<lparr>batch_task_part := upsert_part row (batch_task_part w)\<rparr> else w) w of
           (Some _, w1) \<Rightarrow> (Some (ErrMsg ''append part''), w1)
         | (None, w1) \<Rightarrow> (if part_row_fits row then None else Some (ErrMsg ''append part''), w1))"

definition scanPart :: "PartRow \<Rightarrow> Part" where
  "scanPart r =
     \<lparr>p_TaskID = pr_task_id r, p_PartSeq = pr_part_seq r, p_S3Key = pr_s3_key r,
      p_SizeBytes = pr_size_bytes r, p_MessageCount = pr_message_count r, p_SHA256 = pr_sha256 r,
      p_ChannelIDs = (case list_field string_field (pr_channel_ids_json r) of
                        None \<Rightarrow> [] | Some ss \<Rightarrow> ss),
      p_CreatedAt = pr_created_at r\<rparr>"

definition MySQLStore_GetParts ::
  "ctx \<Rightarrow> string \<Rightarrow> 'a MySQL_scheme \<Rightarrow> Part list res \<times> 'a MySQL_scheme" where
  "MySQLStore_GetParts c taskID w =
     (case remote_query c
             (\<lambda>w. sort_key pr_part_seq (filter (\<lambda>r. pr_task_id r = taskID) (batch_task_part w))) w of
        (Inl _, w1) \<Rightarrow> (Inl (ErrMsg ''query parts''), w1)
      | (Inr rows, w1) \<Rightarrow> (Inr (map scanPart rows), w1))"

text \<open>
  The guarded update of \<open>CancelCAS\<close>. A matching row always changes, so the affected rows are
  the matching ones; they are counted before the statement runs.
\<close>

definition cancellable :: "string \<Rightarrow> TaskRow \<Rightarrow> bool" where
  "cancellable taskID r \<longleftrightarrow>
     r_task_id r = taskID
     \<and> r_status r \<in> {status_int8 StatusQueued, status_int8 StatusRunning}"

definition MySQLStore_CancelCAS ::
  "ctx \<Rightarrow> string \<Rightarrow> 'a MySQL_scheme \<Rightarrow> (bool \<times> Status) res \<times> 'a MySQL_scheme" where
  "MySQLStore_CancelCAS c taskID w =
     (let now = datetime (wd_clock w);
          affected = length (filter (cancellable taskID) (batch_task w))
      in case remote_exec c
                (update_tasks (cancellable taskID)
                   (\<lambda>r. r\<lparr>r_status := status_int8 StatusCancelled, r_updated_at := now\<rparr>)) w of
           (Some _, w1) \<Rightarrow> (Inl (ErrMsg ''cancel cas''), w1)
         | (None, w1) \<Rightarrow>
             if 0 < affected then (Inr (True, StatusCancelled), w1)
             else (case MySQLStore_Get c taskID w1 of
                     (Inl e, w2) \<Rightarrow> (Inl e, w2)
                   | (Inr t, w2) \<Rightarrow> (Inr (False, t_Status t), w2)))"

definition MySQLStore_ListStuck ::
  "ctx \<Rightarrow> int \<Rightarrow> 'a MySQL_scheme \<Rightarrow> string list res \<times> 'a MySQL_scheme" where
  "MySQLStore_ListStuck c cutoff w =
     (case remote_query c
             (\<lambda>w. map r_task_id (filter (\<lambda>r. r_status r = status_int8 StatusRunning
                     \<and> r_updated_at r * 1000000000 < cutoff) (batch_task w))) w of
        (Inl _, w1) \<Rightarrow> (Inl (ErrMsg ''list stuck''), w1)
      | (Inr ids, w1) \<Rightarrow> (Inr ids, w1))"

fun scan_all :: "TaskRow list \<Rightarrow> Task list res" where
  "scan_all [] = Inr []"
| "scan_all (r # rs) =
     (case scanTask (Some r) of
        Inl e \<Rightarrow> Inl e
      | Inr t \<Rightarrow> (case scan_all rs of Inl e \<Rightarrow> Inl e | Inr ts \<Rightarrow> Inr (t # ts)))"

definition MySQLStore_ListExpired ::
  "ctx \<Rightarrow> int \<Rightarrow> 'a MySQL_scheme \<Rightarrow> Task list res \<times> 'a MySQL_scheme" where
  "MySQLStore_ListExpired c now w =
     (case remote_query c
             (\<lambda>w. filter (\<lambda>r. r_expires_at r * 1000000000 < now) (batch_task w)) w of
        (Inl _, w1) \<Rightarrow> (Inl (ErrMsg ''list expired''), w1)
      | (Inr rows, w1) \<Rightarrow> (scan_all rows, w1))"

text \<open>Both deletes are one transaction: rolled back together unless the commit succeeds. Each
  of the four round trips (begin, two deletes, commit) can fail.\<close>

definition delete_task :: "string \<Rightarrow> 'a MySQL_scheme \<Rightarrow> 'a MySQL_scheme" where
  "delete_task taskID w =
     w\<lparr>batch_task_part := filter (\<lambda>r. pr_task_id r \<noteq> taskID) (batch_task_part w),
       batch_task := filter (\<lambda>r. r_task_id r \<noteq> taskID) (batch_task w)\<rparr>"

definition MySQLStore_Delete :: "ctx \<Rightarrow> string \<Rightarrow> 'a MySQL_scheme \<Rightarrow> err option \<times> 'a MySQL_scheme" where
  "MySQLStore_Delete c taskID w =
     (case remote_exec c id w of
        (Some _, w1) \<Rightarrow> (Some (ErrMsg ''begin tx''), w1)
      | (None, w1) \<Rightarrow>
     (case remote_exec c id w1 of
        (Some _, w2) \<Rightarrow> (Some (ErrMsg ''delete parts''), w2)
      | (None, w2) \<Rightarrow>
     (case remote_exec c id w2 of
        (Some _, w3) \<Rightarrow> (Some (ErrMsg ''delete task''), w3)
      | (None, w3) \<Rightarrow> remote_exec c (delete_task taskID) w3)))"

definition MySQLStore_Ping :: "ctx \<Rightarrow> 'a MySQL_scheme \<Rightarrow> err option \<times> 'a MySQL_scheme" where
  "MySQLStore_Ping c w = remote_exec c id w"


definition MySQLStore :: "'a MySQL_scheme Store" where
  "MySQLStore =
     \<lparr>st_Create = MySQLStore_Create, st_Get = MySQLStore_Get,
      st_UpdateStatus = MySQLStore_UpdateStatus, st_Finalize = MySQLStore_Finalize,
      st_AppendPart = MySQLStore_AppendPart, st_GetParts = MySQLStore_GetParts,
      st_CancelCAS = MySQLStore_CancelCAS, st_ListStuck = MySQLStore_ListStuck,
      st_ListExpired = MySQLStore_ListExpired, st_Delete = MySQLStore_Delete,
      st_Ping = MySQLStore_Ping\<rparr>"

section \<open>Round trips through the JSON columns\<close>

lemma scope_of_json_total: "scope_of_json (scope_json sc) \<noteq> None"
proof -
  have "list_all (\<lambda>v. channel_of_json v \<noteq> None)
      (map (\<lambda>c. GMap [(''channel_id'', GString (to_valid (ch_ChannelID c)))]) (sc_Channels sc))"
    by (auto simp: list_all_iff gget_def)
  from all_some_total [OF this] show ?thesis by (auto simp: scope_json_def gget_def)
qed

lemma scope_roundtrip: "storable_scope sc \<Longrightarrow> scope_of_json (scope_json sc) = Some sc"
proof -
  let ?g = "\<lambda>c. GMap [(''channel_id'', GString (to_valid (ch_ChannelID c)))]"
  assume "storable_scope sc"
  then have "list_all (\<lambda>c. channel_of_json (?g c) = Some c) (sc_Channels sc)"
    by (auto simp: storable_scope_def list_all_iff gget_def to_valid_id)
  then have "all_some (map channel_of_json (map ?g (sc_Channels sc))) = Some (sc_Channels sc)"
    by (rule all_some_map)
  then show ?thesis by (simp add: scope_json_def gget_def)
qed

lemma warning_roundtrip: "storable_warning x \<Longrightarrow> warning_of_json (warning_json x) = Some x"
  by (cases "wn_ChannelID x = []")
    (auto simp: storable_warning_def warning_json_def gget_def to_valid_id ParseInt_show_int)

lemma warnings_roundtrip:
  "list_all storable_warning ws \<Longrightarrow>
   list_field warning_of_json (GSlice (map warning_json ws)) = Some ws"
  using all_some_map [of warning_of_json warning_json ws]
  by (simp add: list_all_iff warning_roundtrip del: map_map)

lemma strings_roundtrip:
  "list_all valid_utf8 ss \<Longrightarrow> list_field string_field (strings_json ss) = Some ss"
  using all_some_map [of string_field "\<lambda>s. GString (to_valid s)" ss]
  by (simp add: list_all_iff strings_json_def to_valid_id del: map_map)

section \<open>The tasks of a table\<close>

definition table_tasks :: "TaskRow list \<Rightarrow> tasks" where
  "table_tasks rows tid =
     (case scanTask (find (\<lambda>r. r_task_id r = tid) rows) of Inl _ \<Rightarrow> None | Inr t \<Rightarrow> Some t)"

definition mysql_tasks :: "'a MySQL_scheme \<Rightarrow> tasks" where
  "mysql_tasks w = table_tasks (batch_task w)"

text \<open>The primary key, and every scope column decodes.\<close>

definition table_ok :: "TaskRow list \<Rightarrow> bool" where
  "table_ok rows \<longleftrightarrow>
     distinct (map r_task_id rows) \<and> list_all (\<lambda>r. scope_of_json (r_scope_json r) \<noteq> None) rows"

definition mysql_invar :: "'a MySQL_scheme \<Rightarrow> bool" where
  "mysql_invar w \<longleftrightarrow> table_ok (batch_task w)"

lemma mysql_faults [simp]:
  "mysql_tasks (w\<lparr>wd_faults := fs\<rparr>) = mysql_tasks w"
  "mysql_invar (w\<lparr>wd_faults := fs\<rparr>) = mysql_invar w"
  "batch_task (w\<lparr>wd_faults := fs\<rparr>) = batch_task w"
  by (simp_all add: mysql_tasks_def mysql_invar_def)

lemma scanTask_missing: "scanTask row = Inl ErrNotFound \<longleftrightarrow> row = None"
  by (auto simp: scanTask_def split: option.splits)

lemma scanTask_total: "scope_of_json (r_scope_json r) \<noteq> None \<Longrightarrow> \<exists>t. scanTask (Some r) = Inr t"
  by (auto simp: scanTask_def)

lemma find_key: "find (\<lambda>r. r_task_id r = tid) rows = Some r \<Longrightarrow> r \<in> set rows \<and> r_task_id r = tid"
  by (induction rows) (auto split: if_splits)

text \<open>An update of the rows of one task that keeps key and scope, seen on the tasks.\<close>

lemma table_tasks_update:
  assumes "\<And>r. r_task_id (f r) = r_task_id r"
    and "\<And>r. scanTask (Some (f r)) = map_sum (\<lambda>e. e) g (scanTask (Some r))"
    and "\<And>r. r \<in> set rows \<Longrightarrow> r_task_id r = tid \<Longrightarrow> P r"
    and "\<And>r. P r \<Longrightarrow> r_task_id r = tid"
  shows "table_tasks (map (\<lambda>r. if P r then f r else r) rows) =
    (table_tasks rows)(tid := map_option g (table_tasks rows tid))"
proof
  fix j
  have find: "find (\<lambda>r. r_task_id r = j) (map (\<lambda>r. if P r then f r else r) rows) =
      map_option (\<lambda>r. if P r then f r else r) (find (\<lambda>r. r_task_id r = j) rows)" for rows
    using assms(1) by (induction rows) auto
  show "table_tasks (map (\<lambda>r. if P r then f r else r) rows) j =
      ((table_tasks rows)(tid := map_option g (table_tasks rows tid))) j"
  proof (cases "find (\<lambda>r. r_task_id r = j) rows")
    case None
    then show ?thesis using find [of rows] by (auto simp: table_tasks_def scanTask_def)
  next
    case (Some r)
    with find_key have r: "r \<in> set rows" "r_task_id r = j" by blast+
    show ?thesis
    proof (cases "j = tid")
      case True
      with r assms(3) have "P r" by simp
      with Some find [of rows] True assms(2) show ?thesis
        by (cases "scanTask (Some r)") (auto simp: table_tasks_def)
    next
      case False
      with r assms(4) have "\<not> P r" by blast
      with Some find [of rows] False show ?thesis by (simp add: table_tasks_def)
    qed
  qed
qed

lemma table_ok_update:
  assumes "\<And>r. r_task_id (f r) = r_task_id r" "\<And>r. r_scope_json (f r) = r_scope_json r"
  shows "table_ok rows \<Longrightarrow> table_ok (map (\<lambda>r. if P r then f r else r) rows)"
proof -
  have "map r_task_id (map (\<lambda>r. if P r then f r else r) rows) = map r_task_id rows"
    using assms(1) by simp
  moreover assume "table_ok rows"
  ultimately show ?thesis
    using assms(2) by (auto simp: table_ok_def list_all_iff simp del: map_map)
qed


section \<open>The store keeps its contract\<close>

lemma mysql_update_tasks [simp]:
  "mysql_tasks (update_tasks P f w) = table_tasks (map (\<lambda>r. if P r then f r else r) (batch_task w))"
  "mysql_invar (update_tasks P f w) = table_ok (map (\<lambda>r. if P r then f r else r) (batch_task w))"
  by (simp_all add: mysql_tasks_def mysql_invar_def update_tasks_def)

text \<open>The row changes of the three updates, read back.\<close>

lemma scan_set_status:
  "named_status s \<Longrightarrow> scanTask (Some (r\<lparr>r_status := status_int8 s, r_updated_at := n\<rparr>)) =
     map_sum (\<lambda>e. e) (\<lambda>t. (set_status s t)\<lparr>t_UpdatedAt := n\<rparr>) (scanTask (Some r))"
  by (auto simp: scanTask_def set_status_def int8_status_int8 split: option.splits)

text \<open>Warnings that do not survive the column are read back as others, or as none.\<close>

definition kept_warnings :: "Warning list \<Rightarrow> Warning list" where
  "kept_warnings ws =
     (if ws = [] then []
      else case list_field warning_of_json (GSlice (map warning_json ws)) of None \<Rightarrow> [] | Some x \<Rightarrow> x)"

lemma kept_warnings_id: "list_all storable_warning ws \<Longrightarrow> kept_warnings ws = ws"
  using warnings_roundtrip [of ws] by (simp add: kept_warnings_def)

lemma scan_set_final:
  "named_status s \<Longrightarrow>
   scanTask (Some (r\<lparr>r_status := status_int8 s, r_actual_count := a,
       r_warnings_json := (if ws = [] then None else Some (GSlice (map warning_json ws))),
       r_error_code := ec, r_error_message := nullableStr em, r_updated_at := n\<rparr>)) =
     map_sum (\<lambda>e. e) (\<lambda>t. (set_final s a (kept_warnings ws) ec em t)\<lparr>t_UpdatedAt := n\<rparr>) (scanTask (Some r))"
  by (auto simp: scanTask_def set_final_def int8_status_int8 nullableStr_def kept_warnings_def
      split: option.splits)

lemma touched_rows:
  assumes "\<And>r. r_task_id (f r) = r_task_id r"
    and "\<And>r. scanTask (Some (f r)) = map_sum (\<lambda>e. e) (\<lambda>t. (g t)\<lparr>t_UpdatedAt := n\<rparr>) (scanTask (Some r))"
  shows "touched tid g (table_tasks rows) (table_tasks (map (\<lambda>r. if r_task_id r = tid then f r else r) rows))"
  using table_tasks_update [of f _ rows tid "\<lambda>r. r_task_id r = tid", OF assms]
  by (auto simp: touched_def)

lemma mysql_UpdateStatus:
  assumes "MySQLStore_UpdateStatus c tid s w = (q, w')" and "named_status s"
  shows "(q = None \<longrightarrow> touched tid (set_status s) (mysql_tasks w) (mysql_tasks w')) \<and>
    (q \<noteq> None \<longrightarrow> mysql_tasks w' = mysql_tasks w
       \<or> touched tid (set_status s) (mysql_tasks w) (mysql_tasks w'))"
proof -
  let ?f = "\<lambda>r. r\<lparr>r_status := status_int8 s, r_updated_at := datetime (wd_clock w)\<rparr>"
  have t: "touched tid (set_status s) (table_tasks rows)
      (table_tasks (map (\<lambda>r. if r_task_id r = tid then ?f r else r) rows))" for rows
    by (rule touched_rows) (simp_all add: scan_set_status assms(2))
  obtain q0 where "remote_exec c (update_tasks (\<lambda>r. r_task_id r = tid) ?f) w = (q0, w')"
    and "q = None \<longleftrightarrow> q0 = None"
    using assms(1)
    by (auto simp: MySQLStore_UpdateStatus_def Let_def split: prod.splits option.splits)
  then show ?thesis
    by (elim remote_exec_cases) (use t [of "batch_task w"] in \<open>auto simp: mysql_tasks_def [of w]\<close>)
qed

lemma mysql_Finalize:
  assumes "MySQLStore_Finalize c tid s a ws ec em w = (q, w')" and "named_status s"
  shows "(q = None \<longrightarrow> touched tid (set_final s a (kept_warnings ws) ec em) (mysql_tasks w) (mysql_tasks w')) \<and>
    (q \<noteq> None \<longrightarrow> mysql_tasks w' = mysql_tasks w
       \<or> touched tid (set_final s a (kept_warnings ws) ec em) (mysql_tasks w) (mysql_tasks w'))"
proof -
  let ?f = "\<lambda>r. r\<lparr>r_status := status_int8 s, r_actual_count := a,
       r_warnings_json := (if ws = [] then None else Some (GSlice (map warning_json ws))),
       r_error_code := ec, r_error_message := nullableStr em,
       r_updated_at := datetime (wd_clock w)\<rparr>"
  have t: "touched tid (set_final s a (kept_warnings ws) ec em) (table_tasks rows)
      (table_tasks (map (\<lambda>r. if r_task_id r = tid then ?f r else r) rows))" for rows
    by (rule touched_rows) (simp, rule scan_set_final [OF assms(2)])
  obtain q0 where "remote_exec c (update_tasks (\<lambda>r. r_task_id r = tid) ?f) w = (q0, w')"
    and "q = None \<longleftrightarrow> q0 = None"
    using assms(1) by (auto simp: MySQLStore_Finalize_def Let_def split: prod.splits option.splits)
  then show ?thesis
    by (elim remote_exec_cases) (use t [of "batch_task w"] in \<open>auto simp: mysql_tasks_def [of w]\<close>)
qed

text \<open>No update touches a key or a scope.\<close>

lemma exec_invar:
  assumes "remote_exec c f w = (q, w')" and "\<And>w. mysql_invar w \<Longrightarrow> mysql_invar (f w)"
  shows "mysql_invar w \<Longrightarrow> mysql_invar w'"
  using assms(1) by (elim remote_exec_cases) (auto intro: assms(2))

lemma update_tasks_invar:
  assumes "\<And>r. r_task_id (f r) = r_task_id r" "\<And>r. r_scope_json (f r) = r_scope_json r"
  shows "mysql_invar w \<Longrightarrow> mysql_invar (update_tasks P f w)"
  using table_ok_update [of f "batch_task w" P] assms by (simp add: mysql_invar_def [of w])

lemma query_frame:
  assumes "remote_query c f w = (r, w')"
  shows "mysql_tasks w' = mysql_tasks w" "mysql_invar w' = mysql_invar w" "batch_task w' = batch_task w"
  using assms by (auto elim!: remote_query_cases)

lemma mysql_Get:
  assumes "MySQLStore_Get c tid w = (r, w')"
  shows "mysql_tasks w' = mysql_tasks w \<and> mysql_invar w' = mysql_invar w \<and>
    (case r of Inr t \<Rightarrow> mysql_tasks w tid = Some t
     | Inl e \<Rightarrow> e = ErrNotFound \<longrightarrow> mysql_tasks w tid = None)"
proof -
  obtain x where q: "remote_query c (select_task tid) w = (x, w')"
    and r: "r = (case x of Inl _ \<Rightarrow> Inl (ErrMsg ''scan task'') | Inr row \<Rightarrow> scanTask row)"
    using assms by (auto simp: MySQLStore_Get_def split: prod.splits sum.splits)
  have "x = Inr row \<Longrightarrow> row = find (\<lambda>r. r_task_id r = tid) (batch_task w)" for row
    using q by (auto elim!: remote_query_cases simp: select_task_def)
  with query_frame [OF q] r show ?thesis
    by (auto simp: mysql_tasks_def [of w] table_tasks_def scanTask_missing split: sum.splits)
qed


text \<open>With unique keys the guarded update changes the one task, or nothing at all.\<close>

lemma distinct_key_eq:
  "distinct (map r_task_id rows) \<Longrightarrow> r \<in> set rows \<Longrightarrow> q \<in> set rows \<Longrightarrow>
   r_task_id r = r_task_id q \<Longrightarrow> r = q"
  by (metis distinct_map inj_onD)

lemma cancellable_touched:
  assumes "table_ok rows" and "r \<in> set rows" and "cancellable tid r"
  shows "touched tid (set_status StatusCancelled) (table_tasks rows)
      (table_tasks (map (\<lambda>r. if cancellable tid r
         then r\<lparr>r_status := status_int8 StatusCancelled, r_updated_at := n\<rparr> else r) rows)) \<and>
    (\<exists>t. table_tasks rows tid = Some t \<and> t_Status t \<in> {StatusQueued, StatusRunning})"
proof
  have uniq: "q = r" if "q \<in> set rows" "r_task_id q = tid" for q
    using assms that by (intro distinct_key_eq [of rows]) (auto simp: cancellable_def table_ok_def)
  have "scanTask (Some (r\<lparr>r_status := status_int8 StatusCancelled, r_updated_at := n\<rparr>)) =
      map_sum (\<lambda>e. e) (\<lambda>t. (set_status StatusCancelled t)\<lparr>t_UpdatedAt := n\<rparr>) (scanTask (Some r))" for r
    by (rule scan_set_status) simp
  then have "table_tasks (map (\<lambda>r. if cancellable tid r
         then r\<lparr>r_status := status_int8 StatusCancelled, r_updated_at := n\<rparr> else r) rows) =
      (table_tasks rows)(tid := map_option (\<lambda>t. (set_status StatusCancelled t)\<lparr>t_UpdatedAt := n\<rparr>)
         (table_tasks rows tid))"
    using uniq assms(3) by (intro table_tasks_update) (auto simp: cancellable_def)
  then show "touched tid (set_status StatusCancelled) (table_tasks rows)
      (table_tasks (map (\<lambda>r. if cancellable tid r
         then r\<lparr>r_status := status_int8 StatusCancelled, r_updated_at := n\<rparr> else r) rows))"
    by (auto simp: touched_def)
  have "r_task_id r = tid" using assms(3) by (simp add: cancellable_def)
  then have "find (\<lambda>r. r_task_id r = tid) rows \<noteq> None"
    using assms(2) by (auto simp: find_None_iff)
  then obtain q where q: "find (\<lambda>r. r_task_id r = tid) rows = Some q" by blast
  with uniq find_key [OF q] have f: "find (\<lambda>r. r_task_id r = tid) rows = Some r" by simp
  have "scope_of_json (r_scope_json r) \<noteq> None"
    using assms(1,2) by (simp add: table_ok_def list_all_iff)
  then obtain t where t: "scanTask (Some r) = Inr t" using scanTask_total by blast
  then have "t_Status t = int8_status (r_status r)"
    by (auto simp: scanTask_def split: option.splits)
  with f t assms(3)
  show "\<exists>t. table_tasks rows tid = Some t \<and> t_Status t \<in> {StatusQueued, StatusRunning}"
    by (auto simp: table_tasks_def cancellable_def int8_status_def)
qed

lemma no_cancellable:
  assumes "\<forall>r \<in> set rows. \<not> cancellable tid r"
  shows "map (\<lambda>r. if cancellable tid r then f r else r) rows = rows"
    and "table_tasks rows tid = Some t \<Longrightarrow> t_Status t \<notin> {StatusQueued, StatusRunning}"
proof -
  show "map (\<lambda>r. if cancellable tid r then f r else r) rows = rows"
    using assms by (simp add: map_idI)
  assume "table_tasks rows tid = Some t"
  then obtain r where r: "find (\<lambda>r. r_task_id r = tid) rows = Some r" and t: "scanTask (Some r) = Inr t"
    by (cases "find (\<lambda>r. r_task_id r = tid) rows")
      (auto simp: table_tasks_def scanTask_def split: option.splits)
  have "t_Status t = int8_status (r_status r)"
    using t by (auto simp: scanTask_def split: option.splits)
  moreover have "r_status r \<noteq> 0 \<and> r_status r \<noteq> 1"
    using assms find_key [OF r] by (auto simp: cancellable_def)
  ultimately show "t_Status t \<notin> {StatusQueued, StatusRunning}"
    by (simp add: int8_status_def)
qed

lemma mysql_CancelCAS:
  assumes ok: "mysql_invar w" and cas: "MySQLStore_CancelCAS c tid w = (x, w')"
  shows "mysql_invar w' \<and>
    (case x of
       Inr (True, s) \<Rightarrow> s = StatusCancelled \<and>
         (\<exists>t. mysql_tasks w tid = Some t \<and> t_Status t \<in> {StatusQueued, StatusRunning}) \<and>
         touched tid (set_status StatusCancelled) (mysql_tasks w) (mysql_tasks w')
     | Inr (False, s) \<Rightarrow> mysql_tasks w' = mysql_tasks w \<and>
         (\<exists>t. mysql_tasks w tid = Some t \<and> t_Status t = s \<and> s \<notin> {StatusQueued, StatusRunning})
     | Inl _ \<Rightarrow> mysql_tasks w' = mysql_tasks w \<or>
         (\<exists>t. mysql_tasks w tid = Some t \<and> t_Status t \<in> {StatusQueued, StatusRunning}) \<and>
         touched tid (set_status StatusCancelled) (mysql_tasks w) (mysql_tasks w'))"
proof -
  let ?rows = "batch_task w"
  let ?f = "\<lambda>r. r\<lparr>r_status := status_int8 StatusCancelled, r_updated_at := datetime (wd_clock w)\<rparr>"
  let ?upd = "update_tasks (cancellable tid) ?f"
  obtain q w1 where e: "remote_exec c ?upd w = (q, w1)" by fastforce
  have inv1: "mysql_invar w1"
    by (rule exec_invar [OF e _ ok], rule update_tasks_invar) simp_all
  have w1: "mysql_tasks w1 = mysql_tasks w \<or>
      mysql_tasks w1 = table_tasks (map (\<lambda>r. if cancellable tid r then ?f r else r) ?rows)"
    "q = None \<Longrightarrow>
      mysql_tasks w1 = table_tasks (map (\<lambda>r. if cancellable tid r then ?f r else r) ?rows)"
    using e by (auto elim!: remote_exec_cases simp del: status_int8.simps)
  show ?thesis
  proof (cases "\<exists>r \<in> set ?rows. cancellable tid r")
    case True
    then obtain r where "r \<in> set ?rows" "cancellable tid r" by blast
    note t = cancellable_touched [OF ok [unfolded mysql_invar_def] this]
    have "0 < length (filter (cancellable tid) ?rows)" using True by (auto simp: filter_empty_conv)
    with cas e have x: "x = (if q = None then Inr (True, StatusCancelled) else Inl (ErrMsg ''cancel cas''))"
      "w' = w1"
      by (auto simp: MySQLStore_CancelCAS_def Let_def split: option.splits)
    with t w1 inv1 show ?thesis by (auto simp: mysql_tasks_def [of w] simp del: status_int8.simps)
  next
    case False
    then have none: "\<forall>r \<in> set ?rows. \<not> cancellable tid r" by blast
    then have same: "mysql_tasks w1 = mysql_tasks w"
      using w1(1) no_cancellable(1) [OF none] by (auto simp: mysql_tasks_def)
    have aff: "filter (cancellable tid) ?rows = []" using none by (simp add: filter_empty_conv)
    show ?thesis
    proof (cases q)
      case (Some e0)
      with cas e same inv1 show ?thesis by (auto simp: MySQLStore_CancelCAS_def Let_def)
    next
      case None
      with cas e aff obtain r where g: "MySQLStore_Get c tid w1 = (r, w')"
        and x: "x = (case r of Inl e \<Rightarrow> Inl e | Inr t \<Rightarrow> Inr (False, t_Status t))"
        by (auto simp: MySQLStore_CancelCAS_def Let_def split: prod.splits sum.splits)
      from mysql_Get [OF g] same inv1 x show ?thesis
        using no_cancellable(2) [OF none] by (auto simp: mysql_tasks_def [of w] split: sum.splits)
    qed
  qed
qed

lemma find_append: "find P (xs @ ys) = (case find P xs of Some x \<Rightarrow> Some x | None \<Rightarrow> find P ys)"
  by (induction xs) auto

lemma mysql_insert:
  assumes ok: "mysql_invar w" and new: "\<not> has_task (r_task_id r) w"
    and dec: "scope_of_json (r_scope_json r) \<noteq> None"
  shows "mysql_invar (insert_task r w)"
    and "scanTask (Some r) = Inr t \<Longrightarrow>
      mysql_tasks w (r_task_id r) = None \<and>
      mysql_tasks (insert_task r w) = (mysql_tasks w)(r_task_id r \<mapsto> t)"
proof -
  show "mysql_invar (insert_task r w)"
    using assms by (auto simp: mysql_invar_def insert_task_def table_ok_def has_task_def list_ex_iff)
  assume t: "scanTask (Some r) = Inr t"
  have f: "find (\<lambda>q. r_task_id q = r_task_id r) (batch_task w) = None"
    using new by (auto simp: has_task_def list_ex_iff find_None_iff)
  show "mysql_tasks w (r_task_id r) = None \<and>
      mysql_tasks (insert_task r w) = (mysql_tasks w)(r_task_id r \<mapsto> t)"
    using f t by (auto simp: mysql_tasks_def insert_task_def table_tasks_def fun_eq_iff find_append
        scanTask_def split: option.splits)
qed


lemma mysql_Create:
  assumes ok: "mysql_invar w" and cr: "MySQLStore_Create c t w = (r, w')"
  shows "mysql_invar w'"
    and "j \<noteq> t_TaskID t \<Longrightarrow> mysql_tasks w' j = mysql_tasks w j"
    and "storable_scope (t_Scope t) \<Longrightarrow> named_status (t_Status t) \<Longrightarrow>
      mysql_tasks w' = mysql_tasks w \<or> mysql_tasks w (t_TaskID t) = None \<and>
      (\<exists>n1 n2 n3. mysql_tasks w' = (mysql_tasks w)(t_TaskID t \<mapsto>
        (set_final (t_Status t) 0 [] [] [] t)\<lparr>t_CreatedAt := n1, t_UpdatedAt := n2, t_ExpiresAt := n3\<rparr>))"
    and "r = Inr t' \<Longrightarrow> storable_scope (t_Scope t) \<Longrightarrow> named_status (t_Status t) \<Longrightarrow>
      mysql_tasks w (t_TaskID t) = None \<and>
      (\<exists>n1 n2 n3. mysql_tasks w' = (mysql_tasks w)(t_TaskID t \<mapsto>
        (set_final (t_Status t) 0 [] [] [] t)\<lparr>t_CreatedAt := n1, t_UpdatedAt := n2, t_ExpiresAt := n3\<rparr>))"
proof -
  define expires where "expires = (if 0 < t_ExpiresAt t then t_ExpiresAt t * 1000000000
      else wd_clock w + 7 * 24 * 3600 * 1000000000)"
  define row where "row = \<lparr>r_task_id = t_TaskID t, r_caller_service = t_CallerService t,
      r_status = status_int8 (t_Status t), r_actual_count = 0, r_scope_json = scope_json (t_Scope t),
      r_time_range_start = tr_StartTS (t_TimeRange t), r_time_range_end = tr_EndTS (t_TimeRange t),
      r_request_id = t_RequestID t, r_warnings_json = None, r_error_code = [], r_error_message = None,
      r_created_at = datetime (wd_clock w), r_updated_at = datetime (wd_clock w),
      r_expires_at = datetime expires\<rparr>"
  have row: "r_task_id row = t_TaskID t" "scope_of_json (r_scope_json row) \<noteq> None"
    using scope_of_json_total by (simp_all add: row_def)
  then obtain u where u: "scanTask (Some row) = Inr u" using scanTask_total by blast
  have ins: "mysql_invar (insert_task row (w\<lparr>wd_faults := fs\<rparr>))"
    "mysql_tasks (insert_task row (w\<lparr>wd_faults := fs\<rparr>)) = (mysql_tasks w)(t_TaskID t \<mapsto> u)"
    "mysql_tasks w (t_TaskID t) = None"
    if "\<not> insert_refused row w" for fs
    using mysql_insert [of "w\<lparr>wd_faults := fs\<rparr>" row] that ok row u
    by (auto simp: has_task_def insert_refused_def)
  have out: "insert_refused row w \<and> remote_exec c (\<lambda>w. w) w = (q, w') \<and> (\<exists>e. r = Inl e)
      \<or> \<not> insert_refused row w \<and> remote_exec c (insert_task row) w = (q, w') \<and>
        (q = None \<longleftrightarrow> (\<exists>t'. r = Inr t'))" if "q = (if insert_refused row w
      then fst (remote_exec c (\<lambda>w. w) w) else fst (remote_exec c (insert_task row) w))" for q
    using cr that
    by (auto simp: MySQLStore_Create_def Let_def id_def row_def expires_def
        split: prod.splits option.splits if_splits)
  have "\<exists>fs. w' = w\<lparr>wd_faults := fs\<rparr> \<or> \<not> insert_refused row w \<and>
      w' = insert_task row (w\<lparr>wd_faults := fs\<rparr>)"
    using out by (auto elim!: remote_exec_cases)
  then obtain fs where step: "w' = w\<lparr>wd_faults := fs\<rparr> \<or> \<not> insert_refused row w \<and>
      w' = insert_task row (w\<lparr>wd_faults := fs\<rparr>)" by blast
  show "mysql_invar w'" using step ok ins(1) by auto
  show "j \<noteq> t_TaskID t \<Longrightarrow> mysql_tasks w' j = mysql_tasks w j"
    using step ins(2) by auto
  have u_eq: "u = (set_final (t_Status t) 0 [] [] [] t)\<lparr>t_CreatedAt := datetime (wd_clock w),
      t_UpdatedAt := datetime (wd_clock w), t_ExpiresAt := datetime expires\<rparr>"
    if "storable_scope (t_Scope t)" "named_status (t_Status t)"
    using u that by (auto simp: scanTask_def row_def set_final_def scope_roundtrip int8_status_int8)
  show "mysql_tasks w' = mysql_tasks w \<or> mysql_tasks w (t_TaskID t) = None \<and>
      (\<exists>n1 n2 n3. mysql_tasks w' = (mysql_tasks w)(t_TaskID t \<mapsto>
        (set_final (t_Status t) 0 [] [] [] t)\<lparr>t_CreatedAt := n1, t_UpdatedAt := n2, t_ExpiresAt := n3\<rparr>))"
    if "storable_scope (t_Scope t)" "named_status (t_Status t)"
    using step ins(2,3) u_eq [OF that] by auto
  assume r: "r = Inr t'" and sc: "storable_scope (t_Scope t)" and st: "named_status (t_Status t)"
  from out r obtain fs where new: "\<not> insert_refused row w"
    and w': "w' = insert_task row (w\<lparr>wd_faults := fs\<rparr>)"
    by (auto elim!: remote_exec_cases)
  from ins(2,3) [OF new] w' u_eq [OF sc st] show "mysql_tasks w (t_TaskID t) = None \<and>
      (\<exists>n1 n2 n3. mysql_tasks w' = (mysql_tasks w)(t_TaskID t \<mapsto>
        (set_final (t_Status t) 0 [] [] [] t)\<lparr>t_CreatedAt := n1, t_UpdatedAt := n2, t_ExpiresAt := n3\<rparr>))"
    by blast
qed

lemma mysql_AppendPart:
  assumes "MySQLStore_AppendPart c p w = (q, w')"
  shows "mysql_tasks w' = mysql_tasks w" "mysql_invar w' = mysql_invar w"
  using assms
  by (auto simp: MySQLStore_AppendPart_def Let_def mysql_tasks_def mysql_invar_def
      elim!: remote_exec_cases split: prod.splits option.splits if_splits)

lemma mysql_update_invar:
  "MySQLStore_UpdateStatus c tid s w = (q, w') \<Longrightarrow> mysql_invar w \<Longrightarrow> mysql_invar w'"
  "MySQLStore_Finalize c tid s n ws ec em w = (q, w') \<Longrightarrow> mysql_invar w \<Longrightarrow> mysql_invar w'"
  by (auto simp: MySQLStore_UpdateStatus_def MySQLStore_Finalize_def Let_def
      simp del: mysql_update_tasks
      split: prod.splits option.splits intro!: update_tasks_invar elim!: exec_invar)

interpretation mysql: task_store MySQLStore mysql_tasks mysql_invar
proof (unfold_locales, unfold MySQLStore_def Store.simps, goal_cases)
  case (1 c tid w t w')
  with mysql_Get [OF 1(1)] show ?case by simp
next
  case (2 c tid w w')
  with mysql_Get [OF 2(1)] show ?case by simp
next
  case (3 c tid w r w')
  with mysql_Get [OF 3(1)] show ?case by simp
next
  case (4 c tid w r w')
  with mysql_Get [OF 4(1)] show ?case by simp
next
  case (5 c t w t' w')
  with mysql_Create(4) [OF 5(2,1) refl] show ?case by blast
next
  case (6 c t w r w')
  with mysql_Create(1) show ?case by blast
next
  case (7 c t w r w' j)
  with mysql_Create(2) show ?case by blast
next
  case (8 c t w e w')
  from mysql_Create(3) [OF 8(2,1,3,4)] show ?case .
next
  case (9 c tid s w w')
  with mysql_UpdateStatus [OF 9(1)] show ?case by simp
next
  case (10 c tid s w e w')
  with mysql_UpdateStatus [OF 10(1)] show ?case by simp
next
  case (11 c tid s w q w')
  with mysql_update_invar(1) show ?case by blast
next
  case (12 c tid s n ws ec em w w')
  with mysql_Finalize [OF 12(1,2)] kept_warnings_id show ?case by blast
next
  case (13 c tid s n ws ec em w e w')
  with mysql_Finalize [OF 13(1,2)] kept_warnings_id show ?case by blast
next
  case (14 c tid s n ws ec em w q w')
  with mysql_update_invar(2) show ?case by blast
next
  case (15 c p w q w')
  with mysql_AppendPart [OF 15] show ?case by simp
next
  case (16 c p w q w')
  with mysql_AppendPart [OF 16(1)] show ?case by simp
next
  case (17 c tid w s w')
  with mysql_CancelCAS [OF 17(2,1)] show ?case by simp
next
  case (18 c tid w s w')
  with mysql_CancelCAS [OF 18(2,1)] show ?case by simp
next
  case (19 c tid w e w')
  with mysql_CancelCAS [OF 19(2,1)] show ?case by simp
next
  case (20 c tid w x w')
  with mysql_CancelCAS [OF 20(2,1)] show ?case by simp
qed

end
