(* ===== verification/Handler.thy ===== *)
theory Handler
  imports Auth Submitter Canceller MySQL_Store
begin

text \<open>
  \<open>internal/handler/handler.go\<close>: routing, decoding of requests and the responses. The state a
  request works on is the executor (its gate, queue and registry) with the world.
\<close>

section \<open>Dependencies\<close>

record 'w Presigner =
  ps_Presign :: "string \<Rightarrow> 'w \<Rightarrow> (string \<times> int) res \<times> 'w"

text \<open>The canceller signals the executor of the moment; \<open>hd_metrics_page\<close> renders the
  collectors (a third-party package).\<close>

record 'w Deps =
  hd_Auth :: AuthConfig
  hd_Submitter :: "'w Submitter"
  hd_Canceller :: "'w Executor \<Rightarrow> 'w Canceller"
  hd_Store :: "'w Store"
  hd_Presign :: "'w Presigner"
  hd_Audit :: "(AuditEvent \<Rightarrow> 'w \<Rightarrow> 'w) option"
  hd_DBPing :: "(ctx \<Rightarrow> 'w \<Rightarrow> err option \<times> 'w) option"
  hd_OSPing :: "(ctx \<Rightarrow> 'w \<Rightarrow> err option \<times> 'w) option"
  hd_Ready :: "bool option"
  hd_metrics_page :: "'w \<Rightarrow> string"

type_synonym 'a site = "'a world_executor \<times> 'a World_scheme"

text \<open>What a request is given by the runtime: its context, the gate's select, random bytes.\<close>

record request_env =
  re_ctx :: ctx
  re_select :: select_env
  re_task_bytes :: "int list"
  re_id_bytes :: "8 word list option"

section \<open>Responses\<close>

definition writeJSON :: "int \<Rightarrow> gval \<Rightarrow> HttpResponse" where
  "writeJSON status v =
     \<lparr>hp_Status = status, hp_XRequestId = [], hp_ProtoVersion = ''v0.1'', hp_Body = JsonBody v\<rparr>"

definition writeError :: "int \<Rightarrow> string \<Rightarrow> string \<Rightarrow> string \<Rightarrow> HttpResponse" where
  "writeError status code msg reqID =
     writeJSON status (GMap [(''error_code'', json_of_string code), (''error_message'', json_of_string msg),
       (''request_id'', json_of_string reqID)])"

definition plain_response :: "int \<Rightarrow> string \<Rightarrow> HttpResponse" where
  "plain_response status txt =
     \<lparr>hp_Status = status, hp_XRequestId = [], hp_ProtoVersion = [], hp_Body = TextBody txt\<rparr>"

section \<open>Submitting\<close>

fun time_range_of_json :: "gval \<Rightarrow> TimeRange option" where
  "time_range_of_json (GMap m) =
     (case (int_field (gget m ''start_ts''), int_field (gget m ''end_ts'')) of
        (Some s, Some e) \<Rightarrow> Some \<lparr>tr_StartTS = s, tr_EndTS = e\<rparr>
      | _ \<Rightarrow> None)"
| "time_range_of_json GNil = Some \<lparr>tr_StartTS = 0, tr_EndTS = 0\<rparr>"
| "time_range_of_json _ = None"

fun request_of_json :: "gval \<Rightarrow> Request option" where
  "request_of_json (GMap m) =
     (case (scope_of_json (gget m ''scope''), time_range_of_json (gget m ''time_range'')) of
        (Some sc, Some tr) \<Rightarrow> Some \<lparr>rq_Scope = sc, rq_TimeRange = tr\<rparr>
      | _ \<Rightarrow> None)"
| "request_of_json GNil =
     Some \<lparr>rq_Scope = \<lparr>sc_Channels = []\<rparr>, rq_TimeRange = \<lparr>tr_StartTS = 0, tr_EndTS = 0\<rparr>\<rparr>"
| "request_of_json _ = None"

definition submit_event :: "string \<Rightarrow> string \<Rightarrow> string \<Rightarrow> Request \<Rightarrow> AuditEvent" where
  "submit_event taskID caller reqID req =
     (audit_event ''submit'' taskID caller reqID ''accepted'')
       \<lparr>ae_ChannelCount := int (length (sc_Channels (rq_Scope req))),
        ae_TimeStart := tr_StartTS (rq_TimeRange req), ae_TimeEnd := tr_EndTS (rq_TimeRange req)\<rparr>"

definition handleSubmit :: "'a World_scheme Deps \<Rightarrow> request_env \<Rightarrow> string \<Rightarrow> string \<Rightarrow> HttpRequest
  \<Rightarrow> 'a site \<Rightarrow> HttpResponse \<times> 'a site" where
  "handleSubmit d re caller reqID r s =
     (case Option.bind (hr_Body r) request_of_json of
        None \<Rightarrow> (writeError 400 ''invalid_request'' ''malformed JSON body'' reqID, s)
      | Some req \<Rightarrow>
          (case s of (e, u) \<Rightarrow>
            (case Submit (hd_Submitter d) (re_select re) (re_task_bytes re) (re_ctx re) caller reqID req e u of
               (Inl er, e1, u1) \<Rightarrow> (writeError (se_HTTPStatus er) (se_Code er) (se_Message er) reqID, (e1, u1))
             | (Inr taskID, e1, u1) \<Rightarrow>
                 (let u2 = emit (Observe ''batch_submit_duration_seconds'' [caller]) u1;
                      u3 = (case hd_Audit d of None \<Rightarrow> u2
                              | Some logev \<Rightarrow> logev (submit_event taskID caller reqID req) u2)
                  in (writeJSON 202 (GMap [(''task_id'', json_of_string taskID),
                                          (''request_id'', json_of_string reqID)]), (e1, u3))))))"

section \<open>Reading a task\<close>

definition partOut :: "string \<Rightarrow> int \<Rightarrow> Part \<Rightarrow> gval" where
  "partOut url expires p = GMap
     [(''url'', json_of_string url), (''size_bytes'', json_of_int (p_SizeBytes p)),
      (''message_count'', json_of_int (p_MessageCount p)), (''sha256'', json_of_string (p_SHA256 p)),
      (''expires_at'', json_of_int expires), (''channel_ids'', strings_json (p_ChannelIDs p))]"

fun presign_parts :: "'w Presigner \<Rightarrow> Part list \<Rightarrow> 'w \<Rightarrow> gval list res \<times> 'w" where
  "presign_parts ps [] u = (Inr [], u)"
| "presign_parts ps (p # qs) u =
     (case ps_Presign ps (p_S3Key p) u of
        (Inl er, u1) \<Rightarrow> (Inl er, u1)
      | (Inr (url, expires), u1) \<Rightarrow>
          (case presign_parts ps qs u1 of
             (Inl er, u2) \<Rightarrow> (Inl er, u2)
           | (Inr outs, u2) \<Rightarrow> (Inr (partOut url expires p # outs), u2)))"

definition get_head :: "Task \<Rightarrow> string \<Rightarrow> gmap" where
  "get_head t reqID =
     [(''status'', json_of_string (Status_String (t_Status t))), (''request_id'', json_of_string reqID)]"

definition get_warnings :: "Task \<Rightarrow> gmap" where
  "get_warnings t =
     (if t_Warnings t = [] then [] else [(''warnings'', GSlice (map warning_json (t_Warnings t)))])"

definition get_error :: "Task \<Rightarrow> gmap" where
  "get_error t =
     (if t_Status t = StatusFailed
      then [(''error_code'', json_of_string (t_ErrorCode t)),
            (''error_message'', json_of_string (t_ErrorMessage t))]
      else [])"

definition handleGet :: "'a World_scheme Deps \<Rightarrow> request_env \<Rightarrow> string \<Rightarrow> string \<Rightarrow> string
  \<Rightarrow> 'a site \<Rightarrow> HttpResponse \<times> 'a site" where
  "handleGet d re caller reqID taskID s =
     (case s of (e, u) \<Rightarrow>
       (case st_Get (hd_Store d) (re_ctx re) taskID u of
          (Inl ErrNotFound, u1) \<Rightarrow> (writeError 404 ''not_found'' ''task not found'' reqID, (e, u1))
        | (Inl _, u1) \<Rightarrow> (writeError 500 ''internal_error'' ''get task failed'' reqID, (e, u1))
        | (Inr t, u1) \<Rightarrow>
            if t_CallerService t \<noteq> caller
            then (writeError 404 ''not_found'' ''task not found'' reqID, (e, u1))
            else if t_Status t \<noteq> StatusCompleted \<and> t_Status t \<noteq> StatusPartial
            then (writeJSON 200 (GMap (get_head t reqID @ get_error t)), (e, u1))
            else (case st_GetParts (hd_Store d) (re_ctx re) taskID u1 of
                    (Inl _, u2) \<Rightarrow> (writeError 500 ''internal_error'' ''get parts failed'' reqID, (e, u2))
                  | (Inr parts, u2) \<Rightarrow>
                      (case presign_parts (hd_Presign d) parts u2 of
                         (Inl _, u3) \<Rightarrow> (writeError 500 ''internal_error'' ''presign failed'' reqID, (e, u3))
                       | (Inr outs, u3) \<Rightarrow>
                           (writeJSON 200 (GMap (get_head t reqID
                              @ [(''actual_count'', json_of_int (t_ActualCount t)), (''parts'', GSlice outs)]
                              @ get_warnings t @ get_error t)), (e, u3))))))"

section \<open>Cancelling\<close>

definition handleCancel :: "'a World_scheme Deps \<Rightarrow> request_env \<Rightarrow> string \<Rightarrow> string \<Rightarrow> string
  \<Rightarrow> 'a site \<Rightarrow> HttpResponse \<times> 'a site" where
  "handleCancel d re caller reqID taskID s =
     (case s of (e, u) \<Rightarrow>
       (case Cancel (hd_Canceller d e) (re_ctx re) taskID caller u of
          (Inl _, u1) \<Rightarrow> (writeError 500 ''internal_error'' ''cancel failed'' reqID, (e, u1))
        | (Inr res, u1) \<Rightarrow>
            if cr_NotFound res then (writeError 404 ''not_found'' ''task not found'' reqID, (e, u1))
            else (writeJSON 200 (GMap [(''task_id'', json_of_string taskID),
                    (''status'', json_of_string (Status_String (cr_Status res))),
                    (''request_id'', json_of_string reqID)]), (e, u1))))"

section \<open>Readiness\<close>

definition ping_opt :: "(ctx \<Rightarrow> 'w \<Rightarrow> err option \<times> 'w) option \<Rightarrow> ctx \<Rightarrow> 'w \<Rightarrow> err option \<times> 'w" where
  "ping_opt p c u = (case p of None \<Rightarrow> (None, u) | Some f \<Rightarrow> f c u)"

text \<open>\<open>http.Error\<close> ends the text with a line feed; the two-second deadline is not modelled.\<close>

definition handleReadyz :: "'a World_scheme Deps \<Rightarrow> request_env \<Rightarrow> 'a site \<Rightarrow> HttpResponse \<times> 'a site" where
  "handleReadyz d re s =
     (case s of (e, u) \<Rightarrow>
       if hd_Ready d = Some False then (plain_response 503 (''draining'' @ [lf]), s)
       else (case ping_opt (hd_DBPing d) (re_ctx re) u of
               (Some _, u1) \<Rightarrow> (plain_response 503 (''db not ready'' @ [lf]), (e, u1))
             | (None, u1) \<Rightarrow>
                 (case ping_opt (hd_OSPing d) (re_ctx re) u1 of
                    (Some _, u2) \<Rightarrow> (plain_response 503 (''os not ready'' @ [lf]), (e, u2))
                  | (None, u2) \<Rightarrow> (plain_response 200 ''ready'', (e, u2)))))"

section \<open>Routing\<close>

definition not_found :: HttpResponse where
  "not_found = plain_response 404 (''404 page not found'' @ [lf])"

definition not_allowed :: HttpResponse where
  "not_allowed = plain_response 405 (''Method Not Allowed'' @ [lf])"

text \<open>A pattern for GET also serves HEAD.\<close>

definition is_get :: "string \<Rightarrow> bool" where
  "is_get meth \<longleftrightarrow> meth = ''GET'' \<or> meth = ''HEAD''"

text \<open>The business routes; the wildcard takes one segment that is not empty.\<close>

definition biz :: "'a World_scheme Deps \<Rightarrow> request_env \<Rightarrow> string \<Rightarrow> string \<Rightarrow> HttpRequest
  \<Rightarrow> 'a site \<Rightarrow> HttpResponse \<times> 'a site" where
  "biz d re caller reqID r s =
     (case drop 1 (hr_Path r) of
        [m, b] \<Rightarrow>
          if m = ''messages'' \<and> b = ''batch''
          then (if hr_Method r = ''POST'' then handleSubmit d re caller reqID r s else (not_allowed, s))
          else (not_found, s)
      | [m, b, tid] \<Rightarrow>
          if m = ''messages'' \<and> b = ''batch'' \<and> tid \<noteq> []
          then (if is_get (hr_Method r) then handleGet d re caller reqID tid s
                else if hr_Method r = ''DELETE'' then handleCancel d re caller reqID tid s
                else (not_allowed, s))
          else (not_found, s)
      | _ \<Rightarrow> (not_found, s))"

definition audit_site :: "'a World_scheme Deps \<Rightarrow> (AuditEvent \<Rightarrow> 'a site \<Rightarrow> 'a site) option" where
  "audit_site d = map_option (\<lambda>logev ev (e, u). (e, logev ev u)) (hd_Audit d)"

text \<open>The handler: everything below \<open>/v1/\<close> goes through the middleware; \<open>/v1\<close> alone is
  redirected there.\<close>

definition serve :: "'a World_scheme Deps \<Rightarrow> (string \<Rightarrow> bool) \<Rightarrow> request_env \<Rightarrow> HttpRequest
  \<Rightarrow> 'a site \<Rightarrow> HttpResponse \<times> 'a site" where
  "serve d isPrint re r s =
     (case hr_Path r of
        [] \<Rightarrow> (not_found, s)
      | v # rest \<Rightarrow>
          if v = ''v1'' \<and> rest \<noteq> []
          then Middleware (hd_Auth d) (audit_site d) isPrint (re_id_bytes re) (biz d re) r s
          else if v = ''v1'' then (plain_response 301 [], s)
          else if rest \<noteq> [] \<or> v \<notin> set [''healthz'', ''readyz'', ''metrics''] then (not_found, s)
          else if \<not> is_get (hr_Method r) then (not_allowed, s)
          else if v = ''healthz'' then (plain_response 200 ''ok'', s)
          else if v = ''readyz'' then handleReadyz d re s
          else (plain_response 200 (hd_metrics_page d (snd s)), s))"

section \<open>Facts\<close>

text \<open>A task of another caller answers as one that does not exist.\<close>

lemma handleGet_foreign:
  assumes "st_Get (hd_Store d) (re_ctx re) tid u = (Inr t, u1)" and "t_CallerService t \<noteq> caller"
  shows "handleGet d re caller reqID tid (e, u) =
    (writeError 404 ''not_found'' ''task not found'' reqID, (e, u1))"
  using assms by (simp add: handleGet_def)

lemma presign_parts_map:
  assumes "\<And>k u. ps_Presign ps k u = (Inr (url k, ex), u)"
  shows "presign_parts ps qs u = (Inr (map (\<lambda>p. partOut (url (p_S3Key p)) ex p) qs), u)"
  using assms by (induction qs) simp_all

text \<open>Only requests the middleware lets through reach a business handler.\<close>

lemma serve_unauthorized:
  assumes "hr_Path r = ''v1'' # x # xs" and "ac_Enabled (hd_Auth d)"
    and "map_of (ac_CallerTokens (hd_Auth d)) (bearerToken (hr_Authorization r)) = None"
  shows "fst (serve d isPrint re r (e, u)) = writeUnauthorized isPrint (request_id (re_id_bytes re) r)
    \<and> fst (snd (serve d isPrint re r (e, u))) = e
    \<and> snd (snd (serve d isPrint re r (e, u))) = (case hd_Audit d of None \<Rightarrow> u
        | Some logev \<Rightarrow> logev (audit_event ''auth_fail'' [] [] (request_id (re_id_bytes re) r) ''unauthorized'') u)"
  using assms by (simp add: serve_def Middleware_def audit_site_def Let_def split: option.splits)

end
