(* ===== verification/S3_Uploader.thy ===== *)
theory S3_Uploader
  imports World Writer_Spec
begin

text \<open>
  \<open>internal/result/s3.go\<close>: object keys, upload, presigning and prefix deletion over an S3
  client. The client (a third-party SDK) is a record of operations over a world \<open>'w\<close>; the
  locale \<open>object_store\<close> states the documented behaviour the code relies on, and from it the
  uploader meets the writer's contract \<open>part_store\<close>.
\<close>

section \<open>Configuration and client\<close>

record S3Config =
  s3_Endpoint :: string
  s3_Bucket :: string
  s3_Region :: string
  s3_AccessKey :: string
  s3_SecretKey :: string
  s3_UsePathStyle :: bool
  s3_PresignTTL :: int
  s3_KeyPrefix :: string

text \<open>
  The calls the code makes on the SDK: \<open>uploader.Upload\<close>, \<open>ListObjectsV2\<close> (the keys of one
  reply), \<open>DeleteObject\<close>, \<open>HeadBucket\<close>, \<open>CreateBucket\<close>, \<open>PresignGetObject\<close>; with the clock and
  the metric calls.
\<close>

record 'w S3Client =
  cl_Upload :: "string \<Rightarrow> string \<Rightarrow> string \<Rightarrow> 'w \<Rightarrow> err option \<times> 'w"
  cl_ListObjectsV2 :: "string \<Rightarrow> string \<Rightarrow> 'w \<Rightarrow> string list res \<times> 'w"
  cl_DeleteObject :: "string \<Rightarrow> string \<Rightarrow> 'w \<Rightarrow> err option \<times> 'w"
  cl_HeadBucket :: "string \<Rightarrow> 'w \<Rightarrow> err option \<times> 'w"
  cl_CreateBucket :: "string \<Rightarrow> 'w \<Rightarrow> err option \<times> 'w"
  cl_PresignGetObject :: "string \<Rightarrow> string \<Rightarrow> int \<Rightarrow> 'w \<Rightarrow> string res \<times> 'w"
  cl_now :: "'w \<Rightarrow> int"
  cl_metric :: "metric \<Rightarrow> 'w \<Rightarrow> 'w"

text \<open>\<open>manager.DefaultUploadPartSize\<close>, a constant of the SDK, is an argument where it is used.\<close>

section \<open>Keys\<close>

definition objectRoot :: string where
  "objectRoot = ''octo-message-export-api''"

definition PartKey :: "string \<Rightarrow> string \<Rightarrow> string \<Rightarrow> int \<Rightarrow> string" where
  "PartKey day caller taskID seq =
     objectRoot @ ''/'' @ day @ ''/'' @ caller @ ''/'' @ taskID @ ''/part-'' @ fmt_03d seq
     @ ''.ndjson.gz''"

definition withPrefix :: "S3Config \<Rightarrow> string \<Rightarrow> string" where
  "withPrefix cfg s =
     (let p = trim_char (CHR ''/'') (s3_KeyPrefix cfg)
      in if p = [] then s else p @ ''/'' @ s)"

definition TaskPrefix :: "S3Config \<Rightarrow> string \<Rightarrow> string \<Rightarrow> string \<Rightarrow> string" where
  "TaskPrefix cfg day caller taskID =
     withPrefix cfg (objectRoot @ ''/'' @ day @ ''/'' @ caller @ ''/'' @ taskID @ ''/'')"

section \<open>Operations\<close>

definition S3Uploader_Upload ::
  "nat \<Rightarrow> S3Config \<Rightarrow> 'w S3Client \<Rightarrow> string \<Rightarrow> string \<Rightarrow> int \<Rightarrow> string \<Rightarrow> string \<Rightarrow> 'w
   \<Rightarrow> string res \<times> 'w" where
  "S3Uploader_Upload partSize cfg cl taskID caller partSeq day data u =
     (let key = withPrefix cfg (PartKey day caller taskID partSeq);
          op = (if partSize < length data then ''multipart'' else ''single'')
      in case cl_Upload cl (s3_Bucket cfg) key data u of
           (e, u1) \<Rightarrow>
             (let u2 = cl_metric cl (Observe ''s3_upload_duration_seconds'' [op]) u1
              in case e of
                   Some e \<Rightarrow> (Inl (ErrMsg (''s3 upload: '' @ err_text e)), u2)
                 | None \<Rightarrow> (Inr key, cl_metric cl (Inc ''s3_upload_bytes_total'' []) u2)))"

definition S3Uploader_Presign ::
  "S3Config \<Rightarrow> 'w S3Client \<Rightarrow> string \<Rightarrow> 'w \<Rightarrow> (string \<times> int) res \<times> 'w" where
  "S3Uploader_Presign cfg cl key u =
     (case cl_PresignGetObject cl (s3_Bucket cfg) key (s3_PresignTTL cfg) u of
        (Inl e, u1) \<Rightarrow> (Inl (ErrMsg (''presign: '' @ err_text e)), u1)
      | (Inr url, u1) \<Rightarrow> (Inr (url, (cl_now cl u1 + s3_PresignTTL cfg) div 1000000000), u1))"

definition S3Uploader_EnsureBucket :: "S3Config \<Rightarrow> 'w S3Client \<Rightarrow> 'w \<Rightarrow> err option \<times> 'w" where
  "S3Uploader_EnsureBucket cfg cl u =
     (case cl_HeadBucket cl (s3_Bucket cfg) u of
        (None, u1) \<Rightarrow> (None, u1)
      | (Some _, u1) \<Rightarrow>
          (case cl_CreateBucket cl (s3_Bucket cfg) u1 of
             (Some e, u2) \<Rightarrow> (Some (ErrMsg (''create bucket: '' @ err_text e)), u2)
           | (None, u2) \<Rightarrow> (None, u2)))"

fun delete_objects :: "S3Config \<Rightarrow> 'w S3Client \<Rightarrow> string list \<Rightarrow> 'w \<Rightarrow> err option \<times> 'w" where
  "delete_objects cfg cl [] u = (None, u)"
| "delete_objects cfg cl (k # ks) u =
     (case cl_DeleteObject cl (s3_Bucket cfg) k u of
        (Some e, u1) \<Rightarrow> (Some (ErrMsg (''delete object: '' @ err_text e)), u1)
      | (None, u1) \<Rightarrow> delete_objects cfg cl ks u1)"

definition S3Uploader_DeletePrefix ::
  "S3Config \<Rightarrow> 'w S3Client \<Rightarrow> string \<Rightarrow> 'w \<Rightarrow> err option \<times> 'w" where
  "S3Uploader_DeletePrefix cfg cl pre u =
     (case cl_ListObjectsV2 cl (s3_Bucket cfg) pre u of
        (Inl e, u1) \<Rightarrow> (Some (ErrMsg (''list objects: '' @ err_text e)), u1)
      | (Inr ks, u1) \<Rightarrow> delete_objects cfg cl ks u1)"

definition S3Uploader_Ping :: "S3Config \<Rightarrow> 'w S3Client \<Rightarrow> 'w \<Rightarrow> err option \<times> 'w" where
  "S3Uploader_Ping cfg cl u = cl_HeadBucket cl (s3_Bucket cfg) u"

section \<open>Keys name their task and part\<close>

lemma withPrefix_inject: "withPrefix cfg s = withPrefix cfg t \<longleftrightarrow> s = t"
  by (simp add: withPrefix_def Let_def)

lemma withPrefix_prefix: "prefix (withPrefix cfg s) (withPrefix cfg t) \<longleftrightarrow> prefix s t"
  by (simp add: withPrefix_def Let_def)

lemma PartKey_inject_seq:
  "0 \<le> m \<Longrightarrow> 0 \<le> n \<Longrightarrow> PartKey day caller taskID m = PartKey day caller taskID n \<Longrightarrow> m = n"
  by (simp add: PartKey_def fmt_03d_inject)

text \<open>
  The deletion prefix of a task covers each of its part keys of that day, and no part key of
  another task, caller or day: path segments hold no slash.
\<close>

lemma TaskPrefix_covers: "prefix (TaskPrefix cfg day caller taskID) (withPrefix cfg (PartKey day caller taskID n))"
  by (simp add: TaskPrefix_def withPrefix_prefix PartKey_def)

lemma prefix_segment:
  assumes "prefix (xs @ CHR ''/'' # s) (ys @ CHR ''/'' # t)"
    and "CHR ''/'' \<notin> set xs" and "CHR ''/'' \<notin> set ys"
  shows "xs = ys \<and> prefix s t"
proof -
  have "prefix (xs @ [CHR ''/'']) (ys @ CHR ''/'' # t)"
    using assms(1) by (metis append.assoc append_Cons append_Nil append_prefixD)
  then have "xs = ys" using assms(2,3) by (rule append_sep_prefix)
  with assms(1) show ?thesis by simp
qed

lemma TaskPrefix_separates:
  assumes "prefix (TaskPrefix cfg day caller taskID) (withPrefix cfg (PartKey day' caller' taskID' n))"
    and "\<forall>s \<in> {day, caller, taskID, day', caller', taskID'}. CHR ''/'' \<notin> set s"
  shows "day = day' \<and> caller = caller' \<and> taskID = taskID'"
proof -
  have "prefix (day @ CHR ''/'' # caller @ CHR ''/'' # taskID @ CHR ''/'' # [])
      (day' @ CHR ''/'' # caller' @ CHR ''/'' # taskID' @ CHR ''/'' # (''part-'' @ fmt_03d n @ ''.ndjson.gz''))"
    using assms(1) by (simp add: TaskPrefix_def withPrefix_prefix PartKey_def)
  with assms(2) show ?thesis by (meson prefix_segment insertCI)
qed

section \<open>The client's documented behaviour\<close>

text \<open>
  A put stores its body, a delete removes one key, a listing returns keys of the prefix, at
  most 1000 and all of them when fewer; a call that fails touches at most its own key.
\<close>

locale object_store =
  fixes cfg :: S3Config
    and cl :: "'w S3Client"
    and objects :: "'w \<Rightarrow> string \<Rightarrow> string option"
  assumes put_ok: "cl_Upload cl (s3_Bucket cfg) k data u = (None, u') \<Longrightarrow>
      objects u' = (objects u)(k \<mapsto> data)"
    and put_err: "cl_Upload cl (s3_Bucket cfg) k data u = (Some e, u') \<Longrightarrow> j \<noteq> k \<Longrightarrow>
      objects u' j = objects u j"
    and delete_ok: "cl_DeleteObject cl (s3_Bucket cfg) k u = (None, u') \<Longrightarrow>
      objects u' = (objects u)(k := None)"
    and delete_err: "cl_DeleteObject cl (s3_Bucket cfg) k u = (Some e, u') \<Longrightarrow> j \<noteq> k \<Longrightarrow>
      objects u' j = objects u j"
    and list_ok: "cl_ListObjectsV2 cl (s3_Bucket cfg) pre u = (Inr ks, u') \<Longrightarrow>
      objects u' = objects u \<and> set ks \<subseteq> {k. prefix pre k \<and> objects u k \<noteq> None} \<and>
      (length ks < 1000 \<longrightarrow> {k. prefix pre k \<and> objects u k \<noteq> None} \<subseteq> set ks)"
    and list_err: "cl_ListObjectsV2 cl (s3_Bucket cfg) pre u = (Inl e, u') \<Longrightarrow> objects u' = objects u"
    and metric_frame: "objects (cl_metric cl m u) = objects u"

text \<open>The writer over this uploader.\<close>

definition s3_writer_env ::
  "nat \<Rightarrow> S3Config \<Rightarrow> 'w S3Client \<Rightarrow> (string \<Rightarrow> string) \<Rightarrow> (string \<Rightarrow> string) \<Rightarrow> 'w WriterEnv" where
  "s3_writer_env partSize cfg cl gzip sha256 =
     \<lparr>we_Upload = S3Uploader_Upload partSize cfg cl, we_gzip = gzip, we_sha256 = sha256,
      we_metric = cl_metric cl\<rparr>"

definition s3_key :: "S3Config \<Rightarrow> string \<Rightarrow> string \<Rightarrow> int \<Rightarrow> string \<Rightarrow> string" where
  "s3_key cfg taskID caller seq day = withPrefix cfg (PartKey day caller taskID seq)"

sublocale object_store \<subseteq> part: part_store "s3_writer_env ps cfg cl gz sha" objects "s3_key cfg" for ps gz sha
proof (unfold_locales, goal_cases)
  case (1 t c n day data u k u')
  then show ?case
    by (auto simp: s3_writer_env_def s3_key_def S3Uploader_Upload_def Let_def metric_frame
        split: prod.splits option.splits dest: put_ok)
next
  case (2 t c n day data u e u' k)
  then show ?case
    by (auto simp: s3_writer_env_def s3_key_def S3Uploader_Upload_def Let_def metric_frame
        split: prod.splits option.splits dest: put_err)
next
  case (3 x u)
  show ?case by (simp add: s3_writer_env_def metric_frame)
next
  case (4 m n t c day)
  then show ?case by (auto simp: s3_key_def withPrefix_inject dest: PartKey_inject_seq)
qed

context object_store begin

lemma delete_objects_ok:
  "delete_objects cfg cl ks u = (None, u') \<Longrightarrow>
   objects u' = (\<lambda>k. if k \<in> set ks then None else objects u k)"
proof (induction ks arbitrary: u)
  case Nil
  then show ?case by (simp add: fun_eq_iff)
next
  case (Cons k ks)
  then obtain u1 where "cl_DeleteObject cl (s3_Bucket cfg) k u = (None, u1)"
    and "delete_objects cfg cl ks u1 = (None, u')"
    by (auto split: prod.splits option.splits)
  with Cons.IH delete_ok show ?case by (auto simp: fun_eq_iff)
qed

lemma delete_objects_other:
  "delete_objects cfg cl ks u = (q, u') \<Longrightarrow> j \<notin> set ks \<Longrightarrow> objects u' j = objects u j"
proof (induction ks arbitrary: u)
  case Nil
  then show ?case by simp
next
  case (Cons k ks)
  obtain q1 u1 where d: "cl_DeleteObject cl (s3_Bucket cfg) k u = (q1, u1)" by fastforce
  with Cons.prems delete_ok delete_err have "objects u1 j = objects u j"
    by (cases q1) auto
  with d Cons show ?case by (cases q1) auto
qed

text \<open>Prefix deletion empties the prefix while a listing holds everything, and never touches
  a key outside it.\<close>

lemma DeletePrefix_complete:
  assumes "S3Uploader_DeletePrefix cfg cl pre u = (None, u')"
    and "finite {k. prefix pre k \<and> objects u k \<noteq> None}"
    and "\<And>ks u1. cl_ListObjectsV2 cl (s3_Bucket cfg) pre u = (Inr ks, u1) \<Longrightarrow> length ks < 1000"
  shows "objects u' = (\<lambda>k. if prefix pre k then None else objects u k)"
proof -
  obtain ks u1 where l: "cl_ListObjectsV2 cl (s3_Bucket cfg) pre u = (Inr ks, u1)"
    and d: "delete_objects cfg cl ks u1 = (None, u')"
    using assms(1) by (auto simp: S3Uploader_DeletePrefix_def split: prod.splits sum.splits)
  have "set ks = {k. prefix pre k \<and> objects u k \<noteq> None}" "objects u1 = objects u"
    using list_ok [OF l] assms(3) [OF l] by auto
  with delete_objects_ok [OF d] show ?thesis by (auto simp: fun_eq_iff)
qed

lemma DeletePrefix_other:
  assumes "S3Uploader_DeletePrefix cfg cl pre u = (q, u')" and "\<not> prefix pre j"
  shows "objects u' j = objects u j"
proof -
  obtain r u1 where l: "cl_ListObjectsV2 cl (s3_Bucket cfg) pre u = (r, u1)" by fastforce
  show ?thesis
  proof (cases r)
    case (Inl e)
    with l assms(1) list_err show ?thesis by (simp add: S3Uploader_DeletePrefix_def)
  next
    case (Inr ks)
    with l have ks: "objects u1 = objects u" "j \<notin> set ks"
      using list_ok [of pre u ks u1] assms(2) by auto
    with l Inr assms(1) delete_objects_other [of ks u1 q u' j] show ?thesis
      by (simp add: S3Uploader_DeletePrefix_def)
  qed
qed

end

end
