(* ===== verification/Service_Main.thy ===== *)
theory Service_Main
  imports Handler S3_Uploader
begin

text \<open>
  \<open>cmd/octo-message-export-api/main.go\<close>: the environment files, the schema migration, the
  construction of the components and the way they are wired together, and the order of the
  shutdown. The drivers and SDKs the constructors open are a record of functions.
\<close>

section \<open>Environment files\<close>

text \<open>One line of a file: the variable it sets, if any.\<close>

definition dotenv_line :: "string \<Rightarrow> (string \<times> string) option" where
  "dotenv_line l =
     (let line = TrimSpace l
      in if line = [] \<or> prefix ''#'' line then None
         else case index_of (CHR ''='') line of
                None \<Rightarrow> None
              | Some i \<Rightarrow>
                  (let key = TrimSpace (take i line)
                   in if key = [] then None else Some (key, TrimSpace (drop (i + 1) line))))"

text \<open>\<open>os.Setenv\<close> refuses a zero byte, and the code drops its error.\<close>

definition set_default :: "string \<times> string \<Rightarrow> env \<Rightarrow> env" where
  "set_default kv env =
     (case kv of (key, val) \<Rightarrow>
       if env key \<noteq> None \<or> CHR 0x00 \<in> set (key @ val) then env else env(key \<mapsto> val))"

text \<open>
  The file's content, \<open>None\<close> when it cannot be opened. The scanner stops for good at a line
  that does not fit its buffer of 64 KiB.
\<close>

definition scan_lines :: "string \<Rightarrow> string list" where
  "scan_lines txt = takeWhile (\<lambda>l. length l < 65536) (split_on lf txt)"

definition loadDotEnv :: "string option \<Rightarrow> env \<Rightarrow> env" where
  "loadDotEnv content env =
     (case content of
        None \<Rightarrow> env
      | Some txt \<Rightarrow> fold set_default (List.map_filter dotenv_line (scan_lines txt)) env)"

definition load_config :: "string option \<Rightarrow> string option \<Rightarrow> env \<Rightarrow> string + Config" where
  "load_config envLocal env0 env = Load (loadDotEnv env0 (loadDotEnv envLocal env))"

section \<open>Migration\<close>

record 'w SqlDriver =
  sq_Open :: "string \<Rightarrow> err option" \<comment> \<open>whether the data source name parses\<close>
  sq_Ping :: "string \<Rightarrow> 'w \<Rightarrow> err option \<times> 'w"
  sq_Exec :: "string \<Rightarrow> string \<Rightarrow> 'w \<Rightarrow> err option \<times> 'w"

definition stripSQLComments :: "string \<Rightarrow> string" where
  "stripSQLComments s =
     concat (map (\<lambda>line. line @ [lf])
       (filter (\<lambda>line. \<not> prefix ''--'' (TrimSpace line)) (split_on lf s)))"

definition last_index_of :: "char \<Rightarrow> string \<Rightarrow> nat option" where
  "last_index_of c s = map_option (\<lambda>i. length s - 1 - i) (index_of c (rev s))"

definition create_database :: "string \<Rightarrow> string" where
  "create_database dbname =
     ''CREATE DATABASE IF NOT EXISTS '' @ [CHR 0x60] @ dbname @ [CHR 0x60] @ '' CHARACTER SET utf8mb4''"

definition ensureDatabase :: "'w SqlDriver \<Rightarrow> string \<Rightarrow> 'w \<Rightarrow> err option \<times> 'w" where
  "ensureDatabase drv dsn u =
     (case last_index_of (CHR ''/'') dsn of
        None \<Rightarrow> (Some (ErrMsg (''applyMigrations: DSN missing '' @ [CHR 0x27] @ ''/dbname'' @ [CHR 0x27])), u)
      | Some slash \<Rightarrow>
          (let after = drop (slash + 1) dsn;
               dbname = (case index_of (CHR ''?'') after of None \<Rightarrow> after | Some q \<Rightarrow> take q after)
           in if dbname = [] then (Some (ErrMsg ''applyMigrations: DSN dbname empty''), u)
              else
                (let rootDSN = take (slash + 1) dsn
                       @ (case index_of (CHR ''?'') after of None \<Rightarrow> [] | Some q \<Rightarrow> drop q after)
                 in case sq_Open drv rootDSN of
                      Some e \<Rightarrow> (Some e, u)
                    | None \<Rightarrow> sq_Exec drv rootDSN (create_database dbname) u)))"

fun exec_statements :: "'w SqlDriver \<Rightarrow> string \<Rightarrow> string list \<Rightarrow> 'w \<Rightarrow> err option \<times> 'w" where
  "exec_statements drv dsn [] u = (None, u)"
| "exec_statements drv dsn (stmt # stmts) u =
     (if TrimSpace (stripSQLComments stmt) = [] then exec_statements drv dsn stmts u
      else case sq_Exec drv dsn stmt u of
             (Some e, u1) \<Rightarrow> (Some e, u1)
           | (None, u1) \<Rightarrow> exec_statements drv dsn stmts u1)"

text \<open>\<open>schemaSQL\<close> is the text embedded in the binary.\<close>

definition applyMigrations :: "'w SqlDriver \<Rightarrow> string \<Rightarrow> string \<Rightarrow> 'w \<Rightarrow> err option \<times> 'w" where
  "applyMigrations drv schemaSQL dsn u =
     (case ensureDatabase drv dsn u of
        (Some e, u1) \<Rightarrow> (Some e, u1)
      | (None, u1) \<Rightarrow>
          (let dsn2 = dsn @ ''&multiStatements=true''
           in case sq_Open drv dsn2 of
                Some e \<Rightarrow> (Some e, u1)
              | None \<Rightarrow> exec_statements drv dsn2 (split_on (CHR '';'') schemaSQL) u1))"

section \<open>Constructors\<close>

text \<open>The options the constructors pass to the SDKs, the SDKs, and the text the metrics handler
  renders.\<close>

record OpenSearchConfig =
  op_Addresses :: "string list"
  op_Username :: string
  op_Password :: string
  op_MaxConns :: int
  op_InsecureSkipVerify :: bool

record AwsOptions =
  aw_Region :: string
  aw_Credentials :: "(string \<times> string) option"
  aw_BaseEndpoint :: "string option"
  aw_UsePathStyle :: bool

record 'w Platform =
  pf_sql :: "'w SqlDriver"
  pf_OpenSearch :: "OpenSearchConfig \<Rightarrow> 'w Transport res"
  pf_Aws :: "AwsOptions \<Rightarrow> 'w S3Client res"
  pf_partSize :: nat
  pf_gzip :: "string \<Rightarrow> string"
  pf_sha256 :: "string \<Rightarrow> string"
  pf_metrics_page :: "'w \<Rightarrow> string"

text \<open>The pool settings and the deadline of the ping are not modelled.\<close>

definition NewMySQLStore :: "'a MySQL_scheme SqlDriver \<Rightarrow> string \<Rightarrow> 'a MySQL_scheme
  \<Rightarrow> 'a MySQL_scheme Store res \<times> 'a MySQL_scheme" where
  "NewMySQLStore drv dsn u =
     (case sq_Open drv dsn of
        Some e \<Rightarrow> (Inl (ErrMsg (''open mysql: '' @ err_text e)), u)
      | None \<Rightarrow>
          (case sq_Ping drv dsn u of
             (Some e, u1) \<Rightarrow> (Inl (ErrMsg (''ping mysql: '' @ err_text e)), u1)
           | (None, u1) \<Rightarrow> (Inr MySQLStore, u1)))"

definition opensearch_config :: "OSConfig \<Rightarrow> OpenSearchConfig" where
  "opensearch_config c =
     \<lparr>op_Addresses = oc_Endpoints c,
      op_Username = (if oc_Username c \<noteq> [] then oc_Username c else []),
      op_Password = (if oc_Username c \<noteq> [] then oc_Password c else []),
      op_MaxConns = oc_MaxConns c, op_InsecureSkipVerify = oc_InsecureSkipVerify c\<rparr>"

definition OSClient_New :: "'a World_scheme Platform \<Rightarrow> OSConfig \<Rightarrow> 'a World_scheme Client res" where
  "OSClient_New pf c =
     (case pf_OpenSearch pf (opensearch_config c) of
        Inl e \<Rightarrow> Inl (ErrMsg (''new opensearch client: '' @ err_text e))
      | Inr tp \<Rightarrow> Inr (OSClient tp))"

definition s3_config :: "ConfigS3 \<Rightarrow> S3Config" where
  "s3_config c =
     \<lparr>s3_Endpoint = cs_Endpoint c, s3_Bucket = cs_Bucket c, s3_Region = cs_Region c,
      s3_AccessKey = cs_AccessKey c, s3_SecretKey = cs_SecretKey c,
      s3_UsePathStyle = cs_UsePathStyle c, s3_PresignTTL = cs_PresignTTL c,
      s3_KeyPrefix = cs_KeyPrefix c\<rparr>"

definition aws_options :: "S3Config \<Rightarrow> AwsOptions" where
  "aws_options cfg =
     \<lparr>aw_Region = s3_Region cfg,
      aw_Credentials = (if s3_AccessKey cfg \<noteq> [] then Some (s3_AccessKey cfg, s3_SecretKey cfg) else None),
      aw_BaseEndpoint = (if s3_Endpoint cfg \<noteq> [] then Some (s3_Endpoint cfg) else None),
      aw_UsePathStyle = s3_UsePathStyle cfg\<rparr>"

definition NewS3Uploader :: "'w Platform \<Rightarrow> S3Config \<Rightarrow> 'w S3Client res" where
  "NewS3Uploader pf cfg =
     (case pf_Aws pf (aws_options cfg) of
        Inl e \<Rightarrow> Inl (ErrMsg (''load aws config: '' @ err_text e))
      | Inr cl \<Rightarrow> Inr cl)"

section \<open>Wiring\<close>

text \<open>The page size is left at zero, which \<open>executor.New\<close> turns into 1000.\<close>

definition executor_config :: "Config \<Rightarrow> ExecutorConfig" where
  "executor_config c =
     \<lparr>ec_Index = oc_IndexName (cf_OS c), ec_PITKeepAlive = oc_PITKeepAlive (cf_OS c),
      ec_Workers = xc_Workers (cf_Exec c), ec_QueueBuffer = xc_QueueBuffer (cf_Exec c),
      ec_PartMaxRows = xc_PartMaxRows (cf_Exec c),
      ec_PartMaxBytes = xc_PartDecompressedMax (cf_Exec c),
      ec_MaxTaskHits = pc_MaxTaskHits (cf_Protect c),
      ec_PerChannelHardCap = pc_PerChannelHardCap (cf_Protect c), ec_PageSize = 0\<rparr>"

definition wire_executor :: "'a World_scheme Platform \<Rightarrow> Config \<Rightarrow> 'a World_scheme Store
  \<Rightarrow> 'a World_scheme Client \<Rightarrow> 'a World_scheme S3Client \<Rightarrow> Auditor \<Rightarrow> 'a world_executor" where
  "wire_executor pf c st osc cl au =
     Executor_New (executor_config c) osc st
       (s3_writer_env (pf_partSize pf) (s3_config (cf_S3 c)) cl (pf_gzip pf) (pf_sha256 pf))
       (NewGate (pc_GlobalInflightMax (cf_Protect c))) (Some (Auditor_Log au))"

definition wire_submitter :: "Config \<Rightarrow> 'w Client \<Rightarrow> 'w Store \<Rightarrow> 'w Submitter" where
  "wire_submitter c osc st =
     \<lparr>sb_cfg = cf_Protect c, sb_index = oc_IndexName (cf_OS c), sb_Count = os_Count osc, sb_store = st\<rparr>"

definition s3_cleaner :: "S3Config \<Rightarrow> 'w S3Client \<Rightarrow> 'w Cleaner" where
  "s3_cleaner cfg cl = \<lparr>cn_DeletePrefix = S3Uploader_DeletePrefix cfg cl, cn_TaskPrefix = TaskPrefix cfg\<rparr>"

definition wire_canceller :: "Config \<Rightarrow> 'a World_scheme Store \<Rightarrow> 'a World_scheme S3Client \<Rightarrow> Auditor
  \<Rightarrow> 'a world_executor \<Rightarrow> 'a World_scheme Canceller" where
  "wire_canceller c st cl au e =
     \<lparr>cc_store = st, cc_sig = Some (\<lambda>tid. CancelTask tid e),
      cc_clean = Some (s3_cleaner (s3_config (cf_S3 c)) cl), cc_audit = Some (Auditor_Log au)\<rparr>"

definition wire_deps :: "'a World_scheme Platform \<Rightarrow> Config \<Rightarrow> 'a World_scheme Store
  \<Rightarrow> 'a World_scheme Client \<Rightarrow> 'a World_scheme S3Client \<Rightarrow> Auditor \<Rightarrow> bool \<Rightarrow> 'a World_scheme Deps" where
  "wire_deps pf c st osc cl au ready =
     \<lparr>hd_Auth = cf_Auth c, hd_Submitter = wire_submitter c osc st,
      hd_Canceller = wire_canceller c st cl au, hd_Store = st,
      hd_Presign = \<lparr>ps_Presign = S3Uploader_Presign (s3_config (cf_S3 c)) cl\<rparr>,
      hd_Audit = Some (Auditor_Log au), hd_DBPing = Some (st_Ping st), hd_OSPing = Some (os_Ping osc),
      hd_Ready = Some ready, hd_metrics_page = pf_metrics_page pf\<rparr>"

section \<open>Start and shutdown\<close>

record 'w Service =
  sv_exec :: "'w Executor"
  sv_deps :: "bool \<Rightarrow> 'w Deps"
  sv_ready :: bool
  sv_serving :: bool
  sv_DrainGraceMS :: int

text \<open>A failed audit file degrades to standard output only; a failed bucket check is logged.\<close>

definition open_auditor :: "string \<Rightarrow> 'a World_scheme \<Rightarrow> Auditor \<times> 'a World_scheme" where
  "open_auditor path u =
     (case NewAuditor path u of
        (Inl _, u1) \<Rightarrow> (\<lparr>au_f = False\<rparr>, u1)
      | (Inr a, u1) \<Rightarrow> (a, u1))"

definition run_service :: "'a MySQL_scheme Platform \<Rightarrow> string \<Rightarrow> Config \<Rightarrow> 'a MySQL_scheme
  \<Rightarrow> 'a MySQL_scheme Service res \<times> 'a MySQL_scheme" where
  "run_service pf schemaSQL c u =
     (case NewMySQLStore (pf_sql pf) (mc_DSN (cf_MySQL c)) u of
        (Inl e, u1) \<Rightarrow> (Inl e, u1)
      | (Inr st, u1) \<Rightarrow>
     (case applyMigrations (pf_sql pf) schemaSQL (mc_DSN (cf_MySQL c)) u1 of
        (Some e, u2) \<Rightarrow> (Inl e, u2)
      | (None, u2) \<Rightarrow>
     (case OSClient_New pf (cf_OS c) of
        Inl e \<Rightarrow> (Inl e, u2)
      | Inr osc \<Rightarrow>
     (case NewS3Uploader pf (s3_config (cf_S3 c)) of
        Inl e \<Rightarrow> (Inl e, u2)
      | Inr cl \<Rightarrow>
     (case open_auditor (gc_AuditLocalPath (cf_GC c))
             (snd (S3Uploader_EnsureBucket (s3_config (cf_S3 c)) cl u2)) of
        (au, u3) \<Rightarrow>
          (Inr \<lparr>sv_exec = wire_executor pf c st osc cl au, sv_deps = wire_deps pf c st osc cl au,
                sv_ready = True, sv_serving = True, sv_DrainGraceMS = cf_DrainGraceMS c\<rparr>, u3))))))"

text \<open>
  The steps after the signal, each as the state it leaves: the readiness flag, the grace
  period, the HTTP server, the executor's context, and two seconds for the workers. A sleep
  of a negative duration returns at once.
\<close>

definition sleep :: "int \<Rightarrow> 'a World_scheme \<Rightarrow> 'a World_scheme" where
  "sleep d u = u\<lparr>wd_clock := wd_clock u + max 0 d\<rparr>"

definition drain_sequence :: "'a World_scheme Service \<Rightarrow> 'a World_scheme
  \<Rightarrow> ('a World_scheme Service \<times> 'a World_scheme) list" where
  "drain_sequence s u =
     (let s1 = s\<lparr>sv_ready := False\<rparr>;
          u2 = sleep (i64 (sv_DrainGraceMS s * 1000000)) u;
          s3 = s1\<lparr>sv_serving := False\<rparr>;
          u4 = cancel_ctx Parent u2;
          u5 = sleep 2000000000 u4
      in [(s1, u), (s1, u2), (s3, u2), (s3, u4), (s3, u5)])"

text \<open>
  How \<open>run\<close> ends: the listener fails, or a signal arrives. In the first case only the deferred
  cancellation of the executor's context runs before the process exits.
\<close>

datatype exit_cause = ServeError err | Signalled

definition service_exit :: "exit_cause \<Rightarrow> 'a World_scheme Service \<Rightarrow> 'a World_scheme
  \<Rightarrow> err option \<times> 'a World_scheme Service \<times> 'a World_scheme" where
  "service_exit cause s u =
     (case cause of
        ServeError er \<Rightarrow> (Some er, s, cancel_ctx Parent u)
      | Signalled \<Rightarrow> (None, last (drain_sequence s u)))"

text \<open>A request reaches the handler while the server is up.\<close>

definition serve_request :: "'a World_scheme Service \<Rightarrow> (string \<Rightarrow> bool) \<Rightarrow> request_env \<Rightarrow> HttpRequest
  \<Rightarrow> 'a World_scheme \<Rightarrow> (HttpResponse \<times> 'a site) option" where
  "serve_request s isPrint re r u =
     (if sv_serving s then Some (serve (sv_deps s (sv_ready s)) isPrint re r (sv_exec s, u)) else None)"

section \<open>Facts\<close>

text \<open>The first definition of a variable in a file counts, and only where the environment has none.\<close>

definition dotenv_bindings :: "string \<Rightarrow> (string \<times> string) list" where
  "dotenv_bindings txt =
     filter (\<lambda>(k, v). CHR 0x00 \<notin> set (k @ v)) (List.map_filter dotenv_line (scan_lines txt))"

lemma set_default_at:
  "set_default (a, b) env k =
     (if k = a \<and> env a = None \<and> CHR 0x00 \<notin> set (a @ b) then Some b else env k)"
  by (simp add: set_default_def)

lemma fold_set_default:
  "fold set_default kvs env k =
     (case env k of Some v \<Rightarrow> Some v | None \<Rightarrow> map_of (filter (\<lambda>(k, v). CHR 0x00 \<notin> set (k @ v)) kvs) k)"
proof (induction kvs arbitrary: env)
  case Nil
  then show ?case by (simp split: option.splits)
next
  case (Cons kv kvs)
  obtain a b where kv: "kv = (a, b)" by fastforce
  have "fold set_default (kv # kvs) env k = fold set_default kvs (set_default (a, b) env) k"
    by (simp add: kv)
  also have "\<dots> = (case set_default (a, b) env k of
      Some v \<Rightarrow> Some v
    | None \<Rightarrow> map_of (filter (\<lambda>(k, v). CHR 0x00 \<notin> set (k @ v)) kvs) k)" by (rule Cons)
  finally show ?case unfolding set_default_at kv by (cases "env k") auto
qed

lemma loadDotEnv_lookup:
  "loadDotEnv content env k =
     (case env k of
        Some v \<Rightarrow> Some v
      | None \<Rightarrow> (case content of None \<Rightarrow> None | Some txt \<Rightarrow> map_of (dotenv_bindings txt) k))"
  by (simp add: loadDotEnv_def fold_set_default dotenv_bindings_def split: option.splits)

text \<open>A line written as \<open>KEY=VALUE\<close> sets that variable to that value.\<close>

lemma dotenv_line_pair:
  assumes "no_margin k" and "k \<noteq> []" and "no_margin v" and "CHR ''='' \<notin> set k" and "hd k \<noteq> CHR ''#''"
  shows "dotenv_line (k @ CHR ''='' # v) = Some (k, v)"
proof -
  have "TrimSpace (k @ CHR ''='' # v) = k @ CHR ''='' # v"
    using assms no_margin_eq TrimSpace_id by simp
  moreover have "TrimSpace k = k" "TrimSpace v = v" using assms TrimSpace_id by simp_all
  moreover have "\<not> prefix ''#'' (k @ CHR ''='' # v)" using assms(2,5) by (cases k) auto
  ultimately show ?thesis using assms(2,4) by (simp add: dotenv_line_def index_of_append)
qed

lemma last_index_of_append: "c \<notin> set t \<Longrightarrow> last_index_of c (s @ c # t) = Some (length s)"
  by (simp add: last_index_of_def index_of_append)

text \<open>A data source name in the documented form creates its database on the same server.\<close>

lemma ensureDatabase_dsn:
  assumes "CHR ''/'' \<notin> set (db @ ps)" and "CHR ''?'' \<notin> set db" and "db \<noteq> []"
  shows "ensureDatabase drv (srv @ ''/'' @ db @ ''?'' @ ps) u =
    (case sq_Open drv (srv @ ''/?'' @ ps) of
       Some e \<Rightarrow> (Some e, u)
     | None \<Rightarrow> sq_Exec drv (srv @ ''/?'' @ ps) (create_database db) u)"
proof -
  have "CHR ''/'' \<notin> set (db @ ''?'' @ ps)" using assms(1) by simp
  from last_index_of_append [OF this, of srv]
  have "last_index_of (CHR ''/'') (srv @ ''/'' @ db @ ''?'' @ ps) = Some (length srv)" by simp
  moreover have "index_of (CHR ''?'') (db @ ''?'' @ ps) = Some (length db)"
    using index_of_append [OF assms(2), of ps] by simp
  ultimately show ?thesis
    using assms(3) by (cases "sq_Open drv (srv @ ''/?'' @ ps)") (simp_all add: ensureDatabase_def Let_def)
qed

text \<open>The statements that reach the server are the pieces with some text beside comments.\<close>

definition is_statement :: "string \<Rightarrow> bool" where
  "is_statement stmt \<longleftrightarrow> TrimSpace (stripSQLComments stmt) \<noteq> []"

fun exec_all :: "'w SqlDriver \<Rightarrow> string \<Rightarrow> string list \<Rightarrow> 'w \<Rightarrow> err option \<times> 'w" where
  "exec_all drv dsn [] u = (None, u)"
| "exec_all drv dsn (stmt # stmts) u =
     (case sq_Exec drv dsn stmt u of
        (Some e, u1) \<Rightarrow> (Some e, u1)
      | (None, u1) \<Rightarrow> exec_all drv dsn stmts u1)"

lemma exec_statements_all:
  "exec_statements drv dsn stmts u = exec_all drv dsn (filter is_statement stmts) u"
  by (induction stmts arbitrary: u) (auto simp: is_statement_def split: prod.splits option.splits)

lemma applyMigrations_statements:
  assumes "list_all (\<lambda>s. CHR '';'' \<notin> set s \<and> is_statement s) stmts"
    and "CHR '';'' \<notin> set tail" and "\<not> is_statement tail"
    and "ensureDatabase drv dsn u = (None, u1)" and "sq_Open drv (dsn @ ''&multiStatements=true'') = None"
  shows "applyMigrations drv (join_with (CHR '';'') (stmts @ [tail])) dsn u =
    exec_all drv (dsn @ ''&multiStatements=true'') stmts u1"
proof -
  have "split_on (CHR '';'') (join_with (CHR '';'') (stmts @ [tail])) = stmts @ [tail]"
    using assms(1,2) by (intro split_join) (auto simp: list_all_iff)
  moreover have "filter is_statement stmts = stmts"
    using assms(1) by (simp add: list_all_iff)
  ultimately show ?thesis
    using assms(3-5) by (simp add: applyMigrations_def exec_statements_all)
qed

text \<open>What a started service looks like.\<close>

lemma run_service_ok:
  assumes "run_service pf schemaSQL c u = (Inr s, u')"
  shows "sv_ready s \<and> sv_serving s \<and> ex_queue (sv_exec s) = [] \<and>
    g_len (ex_gate (sv_exec s)) = 0 \<and> 1 \<le> g_cap (ex_gate (sv_exec s)) \<and>
    ec_PageSize (ex_cfg (sv_exec s)) = 1000 \<and> 1 \<le> ec_QueueBuffer (ex_cfg (sv_exec s)) \<and>
    ex_store (sv_exec s) = MySQLStore \<and> hd_Store (sv_deps s r) = MySQLStore \<and>
    sb_store (hd_Submitter (sv_deps s r)) = MySQLStore \<and> hd_Auth (sv_deps s r) = cf_Auth c \<and>
    cc_sig (hd_Canceller (sv_deps s r) e) = Some (\<lambda>tid. CancelTask tid e)"
  using assms
  by (auto simp: run_service_def NewMySQLStore_def wire_executor_def wire_deps_def wire_submitter_def
      wire_canceller_def executor_config_def Executor_New_def NewGate_def Let_def
      split: option.splits sum.splits prod.splits)

text \<open>While it drains the service still serves, but is not ready.\<close>

lemma draining_readyz:
  assumes "run_service pf schemaSQL c u = (Inr s, u')" and "hr_Path r = [''readyz'']"
    and "is_get (hr_Method r)" and "sv_serving s'" and "\<not> sv_ready s'" and "sv_deps s' = sv_deps s"
  shows "serve_request s' isPrint re r v =
    Some (plain_response 503 (''draining'' @ [lf]), (sv_exec s', v))"
proof -
  have "hd_Ready (sv_deps s False) = Some False"
    using assms(1)
    by (auto simp: run_service_def wire_deps_def split: option.splits sum.splits prod.splits)
  with assms(2-6) show ?thesis
    by (simp add: serve_request_def serve_def handleReadyz_def)
qed

text \<open>The executor's context is cancelled only once the server no longer serves, after the
  grace period, and the store and the bucket are not touched by the shutdown.\<close>

lemma drain_order:
  assumes "(s', u') \<in> set (drain_sequence s u)"
  shows "\<not> sv_ready s' \<and> sv_exec s' = sv_exec s \<and> sv_deps s' = sv_deps s \<and>
    (\<not> sv_serving s' \<and> sv_serving s \<longrightarrow> wd_clock u + i64 (sv_DrainGraceMS s * 1000000) \<le> wd_clock u') \<and>
    (ctx_Err Parent u' \<and> \<not> ctx_Err Parent u \<longrightarrow> \<not> sv_serving s')"
  using assms
  by (auto simp: drain_sequence_def Let_def sleep_def cancel_ctx_def ctx_Err_def)

end
