(* ===== verification/Executor_Frame.thy ===== *)
theory Executor_Frame
  imports Executor
begin

text \<open>
  What a run leaves alone. A predicate on worlds that every single call of the client, the
  uploader and the store preserves is preserved by the paging loops and by the whole run;
  so is the executor itself, apart from its registry and its gate.
\<close>

section \<open>Up to the last flush\<close>

text \<open>The parts a run has when its writer has finished, with the world of that moment.\<close>

definition collected :: "'a world_executor \<Rightarrow> ctx \<Rightarrow> Task \<Rightarrow> string \<Rightarrow> 'a World_scheme
  \<Rightarrow> Part list \<times> 'a World_scheme" where
  "collected e c t pitID u =
     (case drain_channels e c pitID t (sorted_channels t) 0 []
             (NewWriter (t_TaskID t) (t_CallerService t) (ec_PartMaxRows (ex_cfg e))
                (ec_PartMaxBytes (ex_cfg e)) (format_day (wd_clock u))) u of
        (Inl _, _, u1) \<Rightarrow> ([], u1)
      | (Inr _, w1, u1) \<Rightarrow>
          (case Finish (ex_up e) w1 u1 of
             (Inl _, _, u2) \<Rightarrow> ([], u2)
           | (Inr (parts, _), _, u2) \<Rightarrow> (parts, u2)))"

text \<open>The metric calls of the writer.\<close>

definition writer_metrics :: "metric set" where
  "writer_metrics = {PayloadParseSkip, Observe ''part_size_bytes'' []}"

lemma writer_metrics_in:
  "PayloadParseSkip \<in> writer_metrics" "Observe ''part_size_bytes'' [] \<in> writer_metrics"
  "extractPayload p r = (x, ms) \<Longrightarrow> set ms \<subseteq> writer_metrics"
  using extractPayload_metrics [of p r] by (auto simp: writer_metrics_def split: if_splits)

locale collect_frame =
  fixes e :: "'a world_executor" and P :: "'a World_scheme \<Rightarrow> bool"
  assumes open_P: "os_OpenPIT (ex_os e) c idx ka u = (x, u') \<Longrightarrow> P u \<Longrightarrow> P u'"
    and close_P: "os_ClosePIT (ex_os e) c pit u = (q, u') \<Longrightarrow> P u \<Longrightarrow> P u'"
    and search_P: "os_Search (ex_os e) c req u = (r, u') \<Longrightarrow> P u \<Longrightarrow> P u'"
    and upload_P: "we_Upload (ex_up e) t cl n day data u = (k, u') \<Longrightarrow> P u \<Longrightarrow> P u'"
    and metric_P: "m \<in> writer_metrics \<Longrightarrow> P u \<Longrightarrow> P (we_metric (ex_up e) m u)"

context collect_frame begin

lemma flush_P: "flush (ex_up e) w u = (q, w', u') \<Longrightarrow> P u \<Longrightarrow> P u'"
  by (auto simp: flush_def Let_def metric_P writer_metrics_in dest: upload_P
      split: option.splits if_splits prod.splits sum.splits)

lemma StartChannel_P: "StartChannel (ex_up e) ch w u = (q, w', u') \<Longrightarrow> P u \<Longrightarrow> P u'"
  by (auto simp: StartChannel_def split: option.splits prod.splits dest: flush_P)

lemma metrics_P: "set ms \<subseteq> writer_metrics \<Longrightarrow> P u \<Longrightarrow> P (fold (we_metric (ex_up e)) ms u)"
  by (induction ms arbitrary: u) (simp_all add: metric_P)

lemma Write_P: "Write (ex_up e) m w u = (q, w', u') \<Longrightarrow> P u \<Longrightarrow> P u'"
  by (auto simp: Write_def Let_def metrics_P metric_P writer_metrics_in
      split: option.splits prod.splits if_splits dest!: flush_P)

lemma Finish_P: "Finish (ex_up e) w u = (q, w', u') \<Longrightarrow> P u \<Longrightarrow> P u'"
  by (auto simp: Finish_def split: option.splits prod.splits dest: flush_P)

lemma write_page_P:
  "write_page (ex_cfg e) (ex_up e) hs seen tot w u = (pe, seen', tot', w', u') \<Longrightarrow> P u \<Longrightarrow> P u'"
proof (induction hs arbitrary: seen tot w u)
  case Nil
  then show ?case by simp
next
  case (Cons h hs)
  obtain q w1 u1 where wr: "Write (ex_up e) (input_of h) w u = (q, w1, u1)" by (metis prod.exhaust)
  with Cons Write_P [OF wr] show ?case
    by (auto split: if_splits sum.splits)
qed

lemma drain_from_P:
  "drain_from e c pit t ch after seen tot w u = (r, tot', w', u') \<Longrightarrow> P u \<Longrightarrow> P u'"
proof (induction "nat (ec_PerChannelHardCap (ex_cfg e) - seen)" arbitrary: after seen tot w u rule: less_induct)
  case less
  obtain q u1 where s: "os_Search (ex_os e) c (search_request e pit t ch after) u = (q, u1)" by fastforce
  have P1: "P u1" using search_P [OF s less.prems(2)] .
  show ?case
  proof (cases "ctx_Err c u")
    case True
    with less.prems show ?thesis by (subst (asm) drain_from.simps) auto
  next
    case nc: False
    show ?thesis
    proof (cases q)
      case (Inl er)
      with less.prems nc s P1 show ?thesis by (subst (asm) drain_from.simps) auto
    next
      case (Inr page)
      obtain pe seen1 tot1 w1 u2 where wp:
        "write_page (ex_cfg e) (ex_up e) page seen tot w u1 = (pe, seen1, tot1, w1, u2)"
        by (metis prod.exhaust)
      have P2: "P u2" using write_page_P [OF wp P1] .
      show ?thesis
      proof (cases "page \<noteq> [] \<and> pe = PageDone \<and> ec_PageSize (ex_cfg e) \<le> int (length page)")
        case True
        with less.prems(1) nc s Inr wp
        have rec: "drain_from e c pit t ch (hit_Sort (last page)) seen1 tot1 w1 u2 = (r, tot', w', u')"
          by (subst (asm) drain_from.simps) auto
        have "nat (ec_PerChannelHardCap (ex_cfg e) - seen1) < nat (ec_PerChannelHardCap (ex_cfg e) - seen)"
          using write_page_done [OF wp [unfolded True [THEN conjunct2, THEN conjunct1]]] True
          by (cases page) auto
        from less.hyps [OF this rec P2] show ?thesis .
      next
        case False
        with less.prems(1) nc s Inr wp P1 P2 show ?thesis
          by (subst (asm) drain_from.simps) (auto split: page_end.splits if_splits)
      qed
    qed
  qed
qed

lemma drain_channels_P:
  "drain_channels e c pit t chs tot ws w u = (r, w', u') \<Longrightarrow> P u \<Longrightarrow> P u'"
proof (induction chs arbitrary: tot ws w u)
  case Nil
  then show ?case by simp
next
  case (Cons ch chs)
  obtain q w1 u1 where st: "StartChannel (ex_up e) ch w u = (q, w1, u1)" by (metis prod.exhaust)
  obtain seen tr tc er tot1 w2 u2 where
    dc: "drainChannel e c w1 pit t ch tot u1 = ((seen, tr, tc, er), tot1, w2, u2)"
    by (metis prod.exhaust)
  have P1: "P u1" using StartChannel_P [OF st Cons.prems(2)] .
  have P2: "P u2" using drain_from_P [OF dc [unfolded drainChannel_def] P1] .
  from Cons st dc P1 P2 show ?case
    by (auto simp: Let_def split: if_splits option.splits)
qed

lemma collected_P: "P u \<Longrightarrow> P (snd (collected e c t pit u))"
  by (auto simp: collected_def split: prod.splits sum.splits dest!: drain_channels_P Finish_P)

end

section \<open>The whole run\<close>

locale run_frame = collect_frame +
  assumes append_P: "st_AppendPart (ex_store e) c p u = (q, u') \<Longrightarrow> P u \<Longrightarrow> P u'"

context run_frame begin

lemma append_parts_P: "append_parts (ex_store e) c ps u = (q, u') \<Longrightarrow> P u \<Longrightarrow> P u'"
proof (induction ps arbitrary: u)
  case Nil
  then show ?case by simp
next
  case (Cons p ps)
  obtain r u1 where "st_AppendPart (ex_store e) c p u = (r, u1)" by fastforce
  with Cons append_P show ?case by (cases r) auto
qed

lemma run_pit_P: "run_pit e c t pit u = (r, u') \<Longrightarrow> P u \<Longrightarrow> P u'"
  by (auto simp: run_pit_def Let_def run_failed_def split: prod.splits sum.splits option.splits
      dest!: drain_channels_P Finish_P append_parts_P)

lemma run_P: "run e c t u = (r, u') \<Longrightarrow> P u \<Longrightarrow> P u'"
proof -
  assume r: "run e c t u = (r, u')" and P: "P u"
  obtain x u1 where op: "os_OpenPIT (ex_os e) c (ec_Index (ex_cfg e)) (ec_PITKeepAlive (ex_cfg e)) u = (x, u1)"
    by fastforce
  have P1: "P u1" using open_P [OF op P] .
  show ?thesis
  proof (cases x)
    case (Inl er)
    with r op P1 show ?thesis by (auto simp: run_def)
  next
    case (Inr pit)
    obtain r2 u2 where rp: "run_pit e c t pit u1 = (r2, u2)" by fastforce
    obtain q u3 where cl: "os_ClosePIT (ex_os e) Background pit u2 = (q, u3)" by fastforce
    have "u' = u3" using r op Inr rp cl by (simp add: run_def)
    with close_P [OF cl run_pit_P [OF rp P1]] show ?thesis by simp
  qed
qed

end

section \<open>The caps hold whatever the search returns\<close>

lemma write_page_bounds:
  assumes "write_page cfg d hs seen tot w u = (pe, seen', tot', w', u')"
    and "seen \<le> ec_PerChannelHardCap cfg" and "tot \<le> ec_MaxTaskHits cfg"
  shows "seen \<le> seen' \<and> seen' \<le> ec_PerChannelHardCap cfg \<and> tot' \<le> ec_MaxTaskHits cfg \<and>
    tot' - tot = seen' - seen"
  using assms
proof (induction hs arbitrary: seen tot w u)
  case Nil
  then show ?case by simp
next
  case (Cons h hs)
  obtain q w1 u1 where wr: "Write d (input_of h) w u = (q, w1, u1)" by (metis prod.exhaust)
  show ?case
  proof (cases "ec_MaxTaskHits cfg \<le> tot \<or> ec_PerChannelHardCap cfg \<le> seen \<or> (\<exists>er. q = Inl er)")
    case True
    with Cons.prems wr show ?thesis by (auto split: if_splits)
  next
    case False
    then obtain b where "q = Inr b" by (cases q) auto
    with False Cons.prems(1) wr have
      "write_page cfg d hs (seen + 1) (tot + 1) w1 u1 = (pe, seen', tot', w', u')" by simp
    from Cons.IH [OF this] False show ?thesis by auto
  qed
qed

lemma drain_from_bounds:
  assumes "drain_from e c pit t ch after seen tot w u = ((seen', tr, tc, er), tot', w', u')"
    and "seen \<le> ec_PerChannelHardCap (ex_cfg e)" and "tot \<le> ec_MaxTaskHits (ex_cfg e)"
  shows "seen \<le> seen' \<and> seen' \<le> ec_PerChannelHardCap (ex_cfg e) \<and> tot' \<le> ec_MaxTaskHits (ex_cfg e) \<and>
    tot' - tot = seen' - seen"
  using assms
proof (induction "nat (ec_PerChannelHardCap (ex_cfg e) - seen)" arbitrary: after seen tot w u rule: less_induct)
  case less
  obtain q u1 where s: "os_Search (ex_os e) c (search_request e pit t ch after) u = (q, u1)" by fastforce
  show ?case
  proof (cases "ctx_Err c u \<or> (\<exists>er. q = Inl er) \<or> q = Inr []")
    case True
    with less.prems s show ?thesis by (subst (asm) drain_from.simps) (auto split: if_splits)
  next
    case False
    then obtain page where page: "q = Inr page" "page \<noteq> []" "\<not> ctx_Err c u" by (cases q) auto
    obtain pe seen1 tot1 w1 u2 where wp:
      "write_page (ex_cfg e) (ex_up e) page seen tot w u1 = (pe, seen1, tot1, w1, u2)"
      by (metis prod.exhaust)
    note b = write_page_bounds [OF wp less.prems(2,3)]
    show ?thesis
    proof (cases "pe = PageDone \<and> ec_PageSize (ex_cfg e) \<le> int (length page)")
      case True
      with less.prems(1) page s wp
      have rec: "drain_from e c pit t ch (hit_Sort (last page)) seen1 tot1 w1 u2 =
          ((seen', tr, tc, er), tot', w', u')"
        by (subst (asm) drain_from.simps) auto
      have "nat (ec_PerChannelHardCap (ex_cfg e) - seen1) < nat (ec_PerChannelHardCap (ex_cfg e) - seen)"
        using write_page_done [OF wp [unfolded True [THEN conjunct1]]] page(2) by (cases page) auto
      from less.hyps [OF this rec] b show ?thesis by auto
    next
      case False
      with less.prems(1) page s wp b show ?thesis
        by (subst (asm) drain_from.simps) (auto split: page_end.splits if_splits)
    qed
  qed
qed

section \<open>The statuses a run reports\<close>

lemma run_status:
  assumes "run e c t u = ((status, n, ws, ec, em), u')"
  shows "status \<in> {StatusCompleted, StatusPartial, StatusFailed} \<and>
    (status = StatusCompleted \<longrightarrow> ws = []) \<and> (status = StatusPartial \<longrightarrow> ws \<noteq> []) \<and>
    (status = StatusFailed \<longrightarrow> n = 0 \<and> ws = [] \<and> ec = ''internal_error'') \<and>
    (status \<noteq> StatusFailed \<longrightarrow> ec = [] \<and> em = [])"
  using assms
  by (auto simp: run_def run_pit_def run_failed_def Let_def
      split: prod.splits sum.splits option.splits if_splits)

text \<open>What is written as final status is always terminal.\<close>

lemma final_result_terminal:
  assumes "run e c t u = (r, u1)" and "final_result tc r u1 = (status, n, ws, ec, em)"
  shows "IsTerminal status"
proof -
  obtain s0 n0 ws0 ec0 em0 where r: "r = (s0, n0, ws0, ec0, em0)" by (metis prod.exhaust)
  from run_status [OF assms(1) [unfolded r]] assms(2) r show ?thesis
    by (auto simp: final_result_def split: if_splits)
qed

section \<open>The executor around a task\<close>

lemma process_executor:
  assumes "process parent k taskID e u = (e', u')"
  shows "e' = e\<lparr>ex_gate := Release (ex_gate e), ex_cancels := (ex_cancels e)(taskID := None)\<rparr>"
  using assms by (auto simp: process_def register_def unregister_def Let_def)

text \<open>A task found terminal, or not found at all, leaves every trace of a run out.\<close>

lemma process_skips:
  assumes "st_Get (ex_store e) (TaskCtx k) taskID u = (Inr t, u1)" and "IsTerminal (t_Status t)"
  shows "process parent k taskID e u =
    (e\<lparr>ex_gate := Release (ex_gate e), ex_cancels := (ex_cancels e)(taskID := None)\<rparr>,
     cancel_ctx (TaskCtx k) u1)"
  using assms by (simp add: process_def process_body_def register_def unregister_def Let_def)

end
