(* ===== verification/Executor_Spec.thy ===== *)
theory Executor_Spec
  imports Executor_Frame
begin

text \<open>
  What a run promises: which hits of which channels are exported, in which order, with which
  warnings, and that the parts and the stored objects hold exactly their lines. The plan is
  a function of the configuration and of the hits alone; the locale \<open>export_env\<close> states what
  the run relies on (the paging contract of the client, the storage contract of the
  uploader, and that other calls leave the objects alone), and the paging loop, the loop
  over the channels and the run are shown to follow the plan.
\<close>

section \<open>The plan\<close>

text \<open>How many of \<open>len\<close> further hits fit under the channel cap and the task limit.\<close>

definition quota :: "ExecutorConfig \<Rightarrow> int \<Rightarrow> int \<Rightarrow> nat \<Rightarrow> nat" where
  "quota cfg seen tot len =
     min len (nat (min (ec_PerChannelHardCap cfg - seen) (ec_MaxTaskHits cfg - tot)))"

definition channel_warning :: "ExecutorConfig \<Rightarrow> string \<Rightarrow> int \<Rightarrow> Warning" where
  "channel_warning cfg ch seen =
     \<lparr>wn_ChannelID = ch, wn_Code = WarnPerChannelTruncated, wn_Limit = ec_PerChannelHardCap cfg,
      wn_ActualSeen = seen\<rparr>"

definition total_warning :: "ExecutorConfig \<Rightarrow> string \<Rightarrow> int \<Rightarrow> Warning" where
  "total_warning cfg ch tot =
     \<lparr>wn_ChannelID = ch, wn_Code = WarnTotalTruncated, wn_Limit = ec_MaxTaskHits cfg,
      wn_ActualSeen = tot\<rparr>"

text \<open>Per channel the exported hits, the newest that fit; then the warnings and the total.\<close>

fun plan :: "ExecutorConfig \<Rightarrow> (string \<Rightarrow> Hit list) \<Rightarrow> string list \<Rightarrow> int
  \<Rightarrow> (string \<times> Hit list) list \<times> Warning list \<times> int" where
  "plan cfg hits [] tot = ([], [], tot)"
| "plan cfg hits (ch # chs) tot =
     (let H = hits ch;
          q = quota cfg 0 tot (length H);
          tot1 = tot + int q;
          cut = q < length H
      in if cut \<and> ec_MaxTaskHits cfg \<le> tot1
         then ([(ch, take q H)], [total_warning cfg ch tot1], tot1)
         else case plan cfg hits chs tot1 of
                (p, ws, tot2) \<Rightarrow>
                  ((ch, take q H) # p, (if cut then [channel_warning cfg ch (int q)] else []) @ ws, tot2))"

definition channel_ops :: "string \<times> Hit list \<Rightarrow> wop list" where
  "channel_ops x = OpStart (fst x) # map (\<lambda>h. OpWrite (input_of h)) (snd x)"

definition plan_ops :: "(string \<times> Hit list) list \<Rightarrow> wop list" where
  "plan_ops p = concat (map channel_ops p)"

text \<open>The lines of a plan, each with its channel.\<close>

definition plan_lines :: "(string \<times> Hit list) list \<Rightarrow> (string \<times> string) list" where
  "plan_lines p =
     concat (map (\<lambda>(ch, hs). map (Pair ch) (List.map_filter (\<lambda>h. line_of (input_of h)) hs)) p)"

lemma tagged_writes:
  "tagged_lines ch (map (\<lambda>h. OpWrite (input_of h)) hs @ ops) =
   map (Pair ch) (List.map_filter (\<lambda>h. line_of (input_of h)) hs) @ tagged_lines ch ops"
  by (induction hs) (auto simp: map_filter_simps split: option.splits)

lemma tagged_plan: "tagged_lines ch (plan_ops p) = plan_lines p"
proof (induction p arbitrary: ch)
  case Nil
  then show ?case by (simp add: plan_ops_def plan_lines_def)
next
  case (Cons x p)
  then show ?case
    by (cases x) (simp add: plan_ops_def plan_lines_def channel_ops_def tagged_writes)
qed

section \<open>The quota\<close>

lemma quota_split:
  assumes "quota cfg seen tot m = m" and "m \<le> len" and "0 < m"
  shows "quota cfg seen tot len = m + quota cfg (seen + int m) (tot + int m) (len - m)"
proof -
  let ?x = "min (ec_PerChannelHardCap cfg - seen) (ec_MaxTaskHits cfg - tot)"
  have "min (ec_PerChannelHardCap cfg - (seen + int m)) (ec_MaxTaskHits cfg - (tot + int m)) = ?x - int m"
    by (simp add: min_def)
  then have "nat (min (ec_PerChannelHardCap cfg - (seen + int m))
      (ec_MaxTaskHits cfg - (tot + int m))) = nat ?x - m" by simp
  moreover have "m \<le> nat ?x" using assms(1) by (simp add: quota_def)
  ultimately show ?thesis using assms(2) by (auto simp: quota_def min_def)
qed

lemma quota_full:
  assumes "quota cfg seen tot m = m" and "0 < m"
  shows "seen < ec_PerChannelHardCap cfg" "tot < ec_MaxTaskHits cfg"
proof -
  have "m \<le> nat (min (ec_PerChannelHardCap cfg - seen) (ec_MaxTaskHits cfg - tot))"
    using assms(1) by (simp add: quota_def)
  with assms(2) show "seen < ec_PerChannelHardCap cfg" "tot < ec_MaxTaskHits cfg"
    by (auto simp: min_def split: if_splits)
qed

lemma quota_stop:
  "quota cfg seen tot m < m \<Longrightarrow> m \<le> len \<Longrightarrow> quota cfg seen tot len = quota cfg seen tot m"
  by (auto simp: quota_def)

lemma quota_le: "quota cfg seen tot len \<le> len"
  by (simp add: quota_def)

lemma quota_bounds:
  "0 \<le> tot \<Longrightarrow> tot \<le> ec_MaxTaskHits cfg \<Longrightarrow> tot + int (quota cfg seen tot len) \<le> ec_MaxTaskHits cfg"
  "0 \<le> ec_PerChannelHardCap cfg \<Longrightarrow> int (quota cfg 0 tot len) \<le> ec_PerChannelHardCap cfg"
  by (auto simp: quota_def min_def)

text \<open>The sort value of the last hit of a page is the next cursor.\<close>

lemma cursor_after_page:
  assumes "page = take k (drop n H)" and "page \<noteq> []"
  shows "hit_Sort (last page) = cursor_at H (n + length page)"
proof -
  let ?i = "length page - 1"
  have i: "?i < length page" using assms(2) by simp
  have "n \<le> length H" using assms by (cases "n \<le> length H") auto
  then have "page ! i = H ! (n + i)" if "i < length page" for i
    using assms(1) that by simp
  then have "page ! ?i = H ! (n + ?i)" using i by blast
  moreover have "n + ?i = n + length page - 1" using assms(2) by (cases page) auto
  ultimately show ?thesis using assms(2) by (simp add: cursor_at_def last_conv_nth)
qed

section \<open>What a run relies on\<close>

locale export_env =
  store: part_store "ex_up e" objects key + search: paged_search "os_Search (ex_os e)" result_set
  for e :: "'a world_executor" and objects :: "'a World_scheme \<Rightarrow> string \<Rightarrow> string option"
    and key :: "string \<Rightarrow> string \<Rightarrow> int \<Rightarrow> string \<Rightarrow> string"
    and result_set :: "string \<Rightarrow> string \<Rightarrow> int \<Rightarrow> int \<Rightarrow> Hit list" +
  assumes search_objects: "os_Search (ex_os e) c req u = (r, u') \<Longrightarrow> objects u' = objects u"
    and append_objects: "st_AppendPart (ex_store e) c p u = (q, u') \<Longrightarrow> objects u' = objects u"
    and open_objects: "os_OpenPIT (ex_os e) c idx ka u = (x, u') \<Longrightarrow> objects u' = objects u"
    and close_objects: "os_ClosePIT (ex_os e) c pit u = (q, u') \<Longrightarrow> objects u' = objects u"

text \<open>The writer agrees with an abstract one, and the store holds its closed chunks.\<close>

definition synced ::
  "'a world_executor \<Rightarrow> ('a World_scheme \<Rightarrow> string \<Rightarrow> string option) \<Rightarrow>
   (string \<Rightarrow> string \<Rightarrow> int \<Rightarrow> string \<Rightarrow> string) \<Rightarrow> AWriter \<Rightarrow> Writer \<Rightarrow> 'a World_scheme \<Rightarrow> bool" where
  "synced e objects key a w u \<longleftrightarrow> sim (ex_up e) a w \<and> holds objects key (ex_up e) a w u"

lemma synced_world: "objects u' = objects u \<Longrightarrow> synced e objects key a w u \<Longrightarrow> synced e objects key a w u'"
  by (simp add: synced_def holds_def)

context export_env begin

abbreviation writes :: "Hit list \<Rightarrow> wop list" where
  "writes hs \<equiv> map (\<lambda>h. OpWrite (input_of h)) hs"

abbreviation after_ops :: "Writer \<Rightarrow> wop list \<Rightarrow> AWriter \<Rightarrow> AWriter" where
  "after_ops w ops a \<equiv> a_run (w_maxRows w) (w_maxByte w) ops a"

text \<open>One page: it takes the quota, and says truthfully why it stopped.\<close>

lemma write_page_plan:
  assumes "write_page (ex_cfg e) (ex_up e) hs seen tot w u = (pe, seen', tot', w', u')"
    and "\<forall>tr tc er. pe \<noteq> PageReturn tr tc (Some er)"
    and "synced e objects key a w u" and "q = quota (ex_cfg e) seen tot (length hs)"
  shows "seen' = seen + int q \<and> tot' = tot + int q \<and>
    pe = (if q = length hs then PageDone
          else PageReturn (tot' < ec_MaxTaskHits (ex_cfg e)) (ec_MaxTaskHits (ex_cfg e) \<le> tot') None) \<and>
    synced e objects key (after_ops w (writes (take q hs)) a) w' u' \<and> same_task w w'"
  using assms
proof (induction hs arbitrary: seen tot w u a q)
  case Nil
  then show ?case by (auto simp: quota_def)
next
  case (Cons h hs)
  consider (limit) "ec_MaxTaskHits (ex_cfg e) \<le> tot"
    | (cap) "tot < ec_MaxTaskHits (ex_cfg e)" "ec_PerChannelHardCap (ex_cfg e) \<le> seen"
    | (step) "tot < ec_MaxTaskHits (ex_cfg e)" "seen < ec_PerChannelHardCap (ex_cfg e)"
    by linarith
  then show ?case
  proof cases
    case limit
    with Cons.prems show ?thesis by (auto simp: quota_def)
  next
    case cap
    with Cons.prems show ?thesis by (auto simp: quota_def)
  next
    case step
    with Cons.prems(1,2) obtain b w1 u1 where wr: "Write (ex_up e) (input_of h) w u = (Inr b, w1, u1)"
      and r: "write_page (ex_cfg e) (ex_up e) hs (seen + 1) (tot + 1) w1 u1 = (pe, seen', tot', w', u')"
      by (auto split: prod.splits sum.splits)
    let ?a = "a_op (w_maxRows w) (w_maxByte w) (OpWrite (input_of h)) a"
    let ?q = "quota (ex_cfg e) (seen + 1) (tot + 1) (length hs)"
    have same: "same_task w w1" using wr by (rule Write_same_task)
    have s1: "synced e objects key ?a w1 u1"
      using Cons.prems(3) Write_sim [OF _ wr, of a] store.Write_holds [OF _ _ wr, of a]
      by (simp add: synced_def)
    have q: "q = Suc ?q" using Cons.prems(4) step by (auto simp: quota_def)
    from Cons.IH [OF r Cons.prems(2) s1 refl] same q
    show ?thesis by (auto simp: same_task_def)
  qed
qed

text \<open>
  One page of the loop: it is empty, or the limits stop it before its end, or it is the last one,
  or it is full and the loop goes on after its last hit.
\<close>

lemma drain_from_cases:
  assumes d: "drain_from e c pit t ch after seen tot w u = ((seen', tr, tc, None), tot', w', u')"
    and sy: "synced e objects key a w u"
  obtains (last) page u1 where "os_Search (ex_os e) c (search_request e pit t ch after) u = (Inr page, u1)"
      "page = []" "seen' = seen" "tot' = tot" "\<not> tr" "\<not> tc" "w' = w" "synced e objects key a w u'"
  | (page) page u1 pe seen1 tot1 w1 u2 where
      "os_Search (ex_os e) c (search_request e pit t ch after) u = (Inr page, u1)" "page \<noteq> []"
      "write_page (ex_cfg e) (ex_up e) page seen tot w u1 = (pe, seen1, tot1, w1, u2)"
      "\<forall>tr tc er. pe \<noteq> PageReturn tr tc (Some er)" "synced e objects key a w u1"
      "case pe of PageReturn tr1 tc1 _ \<Rightarrow> ((seen', tr, tc), tot', w', u') = ((seen1, tr1, tc1), tot1, w1, u2)
       | PageDone \<Rightarrow> if int (length page) < ec_PageSize (ex_cfg e)
           then ((seen', tr, tc), tot', w', u') = ((seen1, False, False), tot1, w1, u2)
           else drain_from e c pit t ch (hit_Sort (List.last page)) seen1 tot1 w1 u2
             = ((seen', tr, tc, None), tot', w', u')"
proof -
  from d have nc: "\<not> ctx_Err c u"
    by (subst (asm) drain_from.simps) (auto split: if_splits)
  obtain page u1 where s: "os_Search (ex_os e) c (search_request e pit t ch after) u = (Inr page, u1)"
    using d nc by (subst (asm) drain_from.simps) (auto split: prod.splits sum.splits)
  have sy1: "synced e objects key a w u1"
    using search_objects [OF s] sy by (rule synced_world)
  show ?thesis
  proof (cases "page = []")
    case True
    with d nc s have "seen' = seen \<and> tot' = tot \<and> tr = False \<and> tc = False \<and> w' = w \<and> u' = u1"
      by (subst (asm) drain_from.simps) auto
    with last [OF s True] sy1 show ?thesis by simp
  next
    case False
    obtain pe seen1 tot1 w1 u2 where wp:
      "write_page (ex_cfg e) (ex_up e) page seen tot w u1 = (pe, seen1, tot1, w1, u2)"
      by (metis prod.exhaust)
    show ?thesis
      by (rule page [OF s False wp _ sy1]; use d nc s False wp in
          \<open>subst (asm) drain_from.simps, auto split: page_end.splits\<close>)
  qed
qed

lemma drain_from_plan:
  assumes "drain_from e c pit t ch after seen tot w u = ((seen', tr, tc, None), tot', w', u')"
    and "H = result_set pit ch (tr_StartTS (t_TimeRange t)) (tr_EndTS (t_TimeRange t))"
    and "request_ok (search_request e pit t ch after)" and "1 \<le> ec_PageSize (ex_cfg e)"
    and "after = cursor_at H n" and "seen = int n" and "n \<le> length H"
    and "synced e objects key a w u" and "q = quota (ex_cfg e) seen tot (length H - n)"
  shows "seen' = seen + int q \<and> tot' = tot + int q \<and>
    tr = (n + q < length H \<and> tot' < ec_MaxTaskHits (ex_cfg e)) \<and>
    tc = (n + q < length H \<and> ec_MaxTaskHits (ex_cfg e) \<le> tot') \<and>
    synced e objects key (after_ops w (writes (take q (drop n H))) a) w' u' \<and> same_task w w'"
  using assms
proof (induction "nat (ec_PerChannelHardCap (ex_cfg e) - seen)" arbitrary: after seen tot w u n a q
    rule: less_induct)
  case less
  let ?cfg = "ex_cfg e"
  let ?R = "drop n H"
  note prems = less.prems
  have page_is: "page = take (nat (ec_PageSize ?cfg)) ?R"
    if "os_Search (ex_os e) c (search_request e pit t ch after) u = (Inr page, u1)" for page u1
    using search.page_at [OF that prems(3) _ prems(7)] prems(2,5) by (simp add: search_request_def)
  from prems(1,8) show ?case
  proof (cases rule: drain_from_cases)
    case (last page u1)
    with page_is [OF last(1)] prems(4) have "?R = []" by auto
    with last prems(7,9) show ?thesis by (simp add: quota_def)
  next
    case (page page u1 pe seen1 tot1 w1 u2)
    let ?qp = "quota ?cfg seen tot (length page)"
    note pg = page_is [OF page(1)] and wpp = write_page_plan [OF page(3,4,5) refl]
    have len: "length page \<le> length H - n" using pg by simp
    have q0: "?qp \<le> length page" by (rule quota_le)
    show ?thesis
    proof (cases "?qp = length page")
      case stop: False
      with q0 have qq: "q = ?qp" using prems(9) quota_stop [OF _ len, of ?cfg seen tot] by simp
      moreover have "take q ?R = take ?qp page"
        using qq le_trans [OF q0, of "nat (ec_PageSize ?cfg)"] pg
        by (simp add: min_absorb1 del: min.absorb_iff1)
      moreover have "n + q < length H" using qq stop q0 len by simp
      ultimately show ?thesis using wpp page(6) stop by simp
    next
      case full: True
      then have pe: "pe = PageDone" and sd: "seen1 = seen + int (length page)"
        "tot1 = tot + int (length page)"
        and sy2: "synced e objects key (after_ops w (writes page) a) w1 u2" and st: "same_task w w1"
        using wpp by simp_all
      show ?thesis
      proof (cases "int (length page) < ec_PageSize ?cfg")
        case True
        with pg have "page = ?R" by (simp add: min_def split: if_splits)
        with sd sy2 st prems(7,9) full page(6) pe True show ?thesis by simp
      next
        case more: False
        with pg have lp: "length page = nat (ec_PageSize ?cfg)" by simp
        let ?n = "n + length page"
        have rec: "drain_from e c pit t ch (hit_Sort (List.last page)) seen1 tot1 w1 u2
            = ((seen', tr, tc, None), tot', w', u')"
          using page(6) pe more by simp
        have dec: "nat (ec_PerChannelHardCap ?cfg - seen1) < nat (ec_PerChannelHardCap ?cfg - seen)"
          using quota_full(1) [OF full] page(2) sd(1) by (cases page) auto
        have req: "request_ok (search_request e pit t ch (hit_Sort (List.last page)))"
          using prems(3) by (simp add: request_ok_def search_request_def)
        have q: "q = length page + quota ?cfg seen1 tot1 (length H - ?n)"
          using quota_split [OF full len] page(2) prems(9) sd by (simp add: diff_diff_left)
        have "?n \<le> length H" using len prems(7) by simp
        from less.hyps [OF dec rec prems(2) req prems(4) cursor_after_page [OF pg page(2)] _ this sy2 refl]
          sd prems(6) q
        have "seen' = seen1 + int (q - length page) \<and> tot' = tot1 + int (q - length page) \<and>
            tr = (n + q < length H \<and> tot' < ec_MaxTaskHits ?cfg) \<and>
            tc = (n + q < length H \<and> ec_MaxTaskHits ?cfg \<le> tot') \<and>
            synced e objects key (after_ops w1 (writes (take (q - length page) (drop ?n H)))
              (after_ops w (writes page) a)) w' u' \<and> same_task w1 w'"
          by (simp add: add.assoc)
        moreover have "take q ?R = page @ take (q - length page) (drop ?n H)"
          using pg lp q len by (simp add: take_add add.commute)
        ultimately show ?thesis using sd q st by (auto simp: same_task_def)
      qed
    qed
  qed
qed

text \<open>All channels follow the plan.\<close>

lemma drainChannel_plan:
  assumes "drainChannel e c w pit t ch tot u = ((seen, tr, tc, None), tot', w', u')"
    and "H = result_set pit ch (tr_StartTS (t_TimeRange t)) (tr_EndTS (t_TimeRange t))"
    and "request_ok (search_request e pit t ch [])" and "1 \<le> ec_PageSize (ex_cfg e)"
    and "synced e objects key a w u" and "q = quota (ex_cfg e) 0 tot (length H)"
  shows "seen = int q \<and> tot' = tot + int q \<and>
    tr = (q < length H \<and> tot' < ec_MaxTaskHits (ex_cfg e)) \<and>
    tc = (q < length H \<and> ec_MaxTaskHits (ex_cfg e) \<le> tot') \<and>
    synced e objects key (after_ops w (writes (take q H)) a) w' u' \<and> same_task w w'"
  using drain_from_plan [of c pit t ch "[]" 0 tot w u seen tr tc tot' w' u' H 0 a q] assms
  by (simp add: drainChannel_def cursor_at_def)

lemma drain_channels_plan:
  assumes "drain_channels e c pit t chs tot ws w u = (Inr (ws', tot'), w', u')"
    and "hits = (\<lambda>ch. result_set pit ch (tr_StartTS (t_TimeRange t)) (tr_EndTS (t_TimeRange t)))"
    and "\<forall>ch. request_ok (search_request e pit t ch [])" and "1 \<le> ec_PageSize (ex_cfg e)"
    and "synced e objects key a w u" and "plan (ex_cfg e) hits chs tot = (p, pw, pt)"
  shows "ws' = ws @ pw \<and> tot' = pt \<and>
    synced e objects key (after_ops w (plan_ops p) a) w' u' \<and> same_task w w'"
  using assms
proof (induction chs arbitrary: tot ws w u a p pw pt)
  case Nil
  then show ?case by (simp add: plan_ops_def)
next
  case (Cons ch chs)
  let ?cfg = "ex_cfg e" and ?H = "hits ch"
  let ?q = "quota ?cfg 0 tot (length ?H)"
  from Cons.prems(1) obtain w1 u1 where st: "StartChannel (ex_up e) ch w u = (None, w1, u1)"
    by (auto split: if_splits prod.splits option.splits)
  have nc: "\<not> ctx_Err c u" using Cons.prems(1) by (auto split: if_splits)
  obtain seen tr tc er tot1 w2 u2 where
    dc: "drainChannel e c w1 pit t ch tot u1 = ((seen, tr, tc, er), tot1, w2, u2)"
    by (metis prod.exhaust)
  have er: "er = None"
    using Cons.prems(1) st nc dc by (auto split: if_splits)
  have s1: "synced e objects key (a_start ch a) w1 u1" and t1: "same_task w w1"
    using Cons.prems(5) StartChannel_sim [OF _ st] store.StartChannel_holds [OF _ _ st]
      StartChannel_same_task [OF st] by (auto simp: synced_def)
  have H: "?H = result_set pit ch (tr_StartTS (t_TimeRange t)) (tr_EndTS (t_TimeRange t))"
    using Cons.prems(2) by simp
  note d = drainChannel_plan [OF dc [unfolded er] H Cons.prems(3) [rule_format] Cons.prems(4) s1 refl]
  let ?a = "after_ops w1 (writes (take ?q ?H)) (a_start ch a)"
  have ops: "after_ops w (plan_ops ((ch, take ?q ?H) # p')) a = after_ops w2 (plan_ops p') ?a" for p'
    using t1 d by (simp add: plan_ops_def channel_ops_def same_task_def)
  show ?case
  proof (cases "?q < length ?H \<and> ec_MaxTaskHits ?cfg \<le> tot + int ?q")
    case True
    with d have "tc" "\<not> tr" "tot1 = tot + int ?q" by auto
    with Cons.prems(1) st nc dc er have "ws' = ws @ [total_warning ?cfg ch tot1]" "tot' = tot1"
      "w' = w2" "u' = u2" by (auto simp: total_warning_def)
    moreover have "p = [(ch, take ?q ?H)]" "pw = [total_warning ?cfg ch (tot + int ?q)]"
      "pt = tot + int ?q"
      using Cons.prems(6) True by (auto simp: Let_def)
    ultimately show ?thesis using d t1 ops [of "[]"] \<open>tot1 = tot + int ?q\<close>
      by (auto simp: same_task_def plan_ops_def)
  next
    case False
    with d have tc: "\<not> tc" and tr: "tr = (?q < length ?H)" and tt: "tot1 = tot + int ?q" by auto
    obtain p2 w2' pt2 where pl: "plan ?cfg hits chs tot1 = (p2, w2', pt2)" by (metis prod.exhaust)
    let ?ws = "if ?q < length ?H then [channel_warning ?cfg ch (int ?q)] else []"
    have pe: "p = (ch, take ?q ?H) # p2" "pw = ?ws @ w2'" "pt = pt2"
      using Cons.prems(6) False pl tt by (auto simp: Let_def)
    have rec: "drain_channels e c pit t chs tot1 (ws @ ?ws) w2 u2 = (Inr (ws', tot'), w', u')"
      using Cons.prems(1) st nc dc er tc tr d by (auto simp: channel_warning_def Let_def split: if_splits)
    have s2: "synced e objects key ?a w2 u2" using d by blast
    from Cons.IH [OF rec Cons.prems(2,3,4) s2 pl] pe d t1 ops [of p2]
    show ?thesis by (auto simp: same_task_def)
  qed
qed

lemma append_parts_objects: "append_parts (ex_store e) c ps u = (q, u') \<Longrightarrow> objects u' = objects u"
proof (induction ps arbitrary: u)
  case Nil
  then show ?case by simp
next
  case (Cons p ps)
  obtain r u1 where a: "st_AppendPart (ex_store e) c p u = (r, u1)" by fastforce
  with Cons append_objects [OF a] show ?case by (cases r) auto
qed

end

section \<open>The result of a run\<close>

text \<open>
  \<open>exported\<close> relates a finished run to a plan: the parts \<open>ps\<close> are those of chunks \<open>cs\<close> that
  together hold the plan's lines in order, each chunk within the part limits, and each part
  is stored compressed under the key it records.
\<close>

definition exported ::
  "'a world_executor \<Rightarrow> ('a World_scheme \<Rightarrow> string \<Rightarrow> string option) \<Rightarrow>
   (string \<Rightarrow> string \<Rightarrow> int \<Rightarrow> string \<Rightarrow> string) \<Rightarrow> Task \<Rightarrow> string \<Rightarrow> (string \<times> Hit list) list \<Rightarrow>
   chunk list \<Rightarrow> Part list \<Rightarrow> 'a World_scheme \<Rightarrow> bool" where
  "exported e objects key t day p cs ps u \<longleftrightarrow>
     concat (map (\<lambda>(ch, ls). map (Pair ch) ls) cs) = plan_lines p \<and>
     (\<forall>x \<in> set cs. chunk_ok (ec_PartMaxRows (ex_cfg e)) (ec_PartMaxBytes (ex_cfg e)) (snd x)) \<and>
     map keyless ps = part_metas (ex_up e) (t_TaskID t) cs \<and>
     (\<forall>i < length cs.
        p_S3Key (ps ! i) = key (t_TaskID t) (t_CallerService t) (int i) day \<and>
        objects u (key (t_TaskID t) (t_CallerService t) (int i) day)
          = Some (we_gzip (ex_up e) (concat (snd (cs ! i)))))"

context export_env begin

lemma run_pit_plan:
  assumes r: "run_pit e c t pit u = ((status, n, ws, ec, em), u')" and ok: "status \<noteq> StatusFailed"
    and hits: "hits = (\<lambda>ch. result_set pit ch (tr_StartTS (t_TimeRange t)) (tr_EndTS (t_TimeRange t)))"
    and req: "\<forall>ch. request_ok (search_request e pit t ch [])" and ps: "1 \<le> ec_PageSize (ex_cfg e)"
    and plan: "plan (ex_cfg e) hits (sorted_channels t) 0 = (p, pw, pt)"
  shows "status = (if pw = [] then StatusCompleted else StatusPartial) \<and> ws = pw \<and>
    n = int (length (plan_lines p)) \<and> ec = [] \<and> em = [] \<and>
    (case collected e c t pit u of (parts, u2) \<Rightarrow>
       append_parts (ex_store e) c parts u2 = (None, u') \<and>
       (\<exists>cs. exported e objects key t (format_day (wd_clock u)) p cs parts u'))"
proof -
  let ?R = "ec_PartMaxRows (ex_cfg e)" and ?B = "ec_PartMaxBytes (ex_cfg e)"
  let ?day = "format_day (wd_clock u)"
  let ?w = "NewWriter (t_TaskID t) (t_CallerService t) ?R ?B ?day"
  obtain ws1 tot w1 u1 parts written w2 u2 where
    dr: "drain_channels e c pit t (sorted_channels t) 0 [] ?w u = (Inr (ws1, tot), w1, u1)"
    and fin: "Finish (ex_up e) w1 u1 = (Inr (parts, written), w2, u2)"
    and app: "append_parts (ex_store e) c parts u2 = (None, u')"
    and res: "(status, n, ws, ec, em) = (if ws1 \<noteq> [] then (StatusPartial, written, ws1, [], [])
       else (StatusCompleted, written, [], [], []))"
    using r ok by (auto simp: run_pit_def Let_def run_failed_def
        split: prod.splits sum.splits option.splits if_splits)
  have s0: "synced e objects key a_init ?w u"
    using sim_init by (simp add: synced_def holds_def) (simp add: a_init_def)
  from drain_channels_plan [OF dr hits req ps s0 plan]
  have ws1: "ws1 = pw" and same: "same_task ?w w1"
    and s1: "synced e objects key (after_ops ?w (plan_ops p) a_init) w1 u1"
    by simp_all
  let ?a = "a_run ?R ?B (plan_ops p) a_init"
  have wR: "w_maxRows ?w = ?R" "w_maxByte ?w = ?B" by (simp_all add: NewWriter_def)
  let ?af = "a_flush ?a"
  have sim1: "sim (ex_up e) ?a w1" "holds objects key (ex_up e) ?a w1 u1"
    using s1 by (simp_all add: synced_def wR)
  note f = Finish_sim [OF sim1(1) fin] and h = store.Finish_holds [OF sim1 fin]
  have t2: "same_task w1 w2" using fin by (auto simp: Finish_def split: prod.splits option.splits
      dest: flush_same_task)
  have fields: "w_taskID w2 = t_TaskID t" "w_caller w2 = t_CallerService t" "w_day w2 = ?day"
    "w_taskID w1 = t_TaskID t"
    using same t2 by (simp_all add: same_task_def NewWriter_def)
  have lines: "concat (map (\<lambda>(ch, ls). map (Pair ch) ls) (a_closed ?af)) = plan_lines p"
    using a_tagged_closed [of ?a] a_tagged_run [of ?R ?B "plan_ops p" a_init]
    by (simp add: tagged_plan a_init_def a_tagged_def [of "\<lparr>a_closed = [], a_channel = [], a_open = []\<rparr>"])
  have inv: "\<forall>x \<in> set (a_closed ?af). chunk_ok ?R ?B (snd x)"
    using a_inv_flush [OF a_inv_run [OF a_inv_init]] by (simp add: a_inv_def)
  have metas: "map keyless parts = part_metas (ex_up e) (t_TaskID t) (a_closed ?af)"
    using f fields(4) by metis
  have "written = int (length (plan_lines p))"
    using f sum_message_counts [OF metas] lines by simp
  moreover have "exported e objects key t ?day p (a_closed ?af) parts u'"
    using lines inv metas h f fields append_parts_objects [OF app]
    by (auto simp: exported_def holds_def Let_def)
  moreover have "collected e c t pit u = (parts, u2)"
    using dr fin by (simp add: collected_def)
  ultimately show ?thesis using res ws1 app by (auto split: if_splits)
qed

text \<open>The whole run, with the handle it opened.\<close>

lemma run_plan:
  assumes r: "run e c t u = ((status, n, ws, ec, em), u')" and ok: "status \<noteq> StatusFailed"
    and ty: "in_i64 (tr_StartTS (t_TimeRange t))" "in_i64 (tr_EndTS (t_TimeRange t))"
      "in_i64 (ec_PageSize (ex_cfg e))" and ps: "1 \<le> ec_PageSize (ex_cfg e)"
  shows "\<exists>pit u1 p pw pt cs parts v v' day.
    os_OpenPIT (ex_os e) c (ec_Index (ex_cfg e)) (ec_PITKeepAlive (ex_cfg e)) u = (Inr pit, u1) \<and>
    plan (ex_cfg e) (\<lambda>ch. result_set pit ch (tr_StartTS (t_TimeRange t)) (tr_EndTS (t_TimeRange t)))
      (sorted_channels t) 0 = (p, pw, pt) \<and>
    status = (if pw = [] then StatusCompleted else StatusPartial) \<and> ws = pw \<and>
    n = int (length (plan_lines p)) \<and> ec = [] \<and> em = [] \<and>
    exported e objects key t day p cs parts u' \<and>
    collected e c t pit u1 = (parts, v) \<and> append_parts (ex_store e) c parts v = (None, v') \<and>
    u' = snd (os_ClosePIT (ex_os e) Background pit v')"
proof -
  obtain pit u1 u2 where op: "os_OpenPIT (ex_os e) c (ec_Index (ex_cfg e)) (ec_PITKeepAlive (ex_cfg e)) u
      = (Inr pit, u1)"
    and rp: "run_pit e c t pit u1 = ((status, n, ws, ec, em), u2)"
    and cl: "u' = snd (os_ClosePIT (ex_os e) Background pit u2)"
    using r ok by (auto simp: run_def run_failed_def split: prod.splits sum.splits)
  let ?hits = "\<lambda>ch. result_set pit ch (tr_StartTS (t_TimeRange t)) (tr_EndTS (t_TimeRange t))"
  obtain p pw pt where pl: "plan (ex_cfg e) ?hits (sorted_channels t) 0 = (p, pw, pt)"
    by (metis prod.exhaust)
  have req: "\<forall>ch. request_ok (search_request e pit t ch [])"
    using ty ps by (simp add: request_ok_def search_request_def)
  have obj: "objects u' = objects u2"
    using close_objects [of Background pit u2] cl by (metis surjective_pairing)
  obtain parts v where co: "collected e c t pit u1 = (parts, v)" by fastforce
  with run_pit_plan [OF rp ok refl req ps pl] obtain cs where
    r1: "append_parts (ex_store e) c parts v = (None, u2)" "status = (if pw = [] then StatusCompleted else StatusPartial)" "ws = pw"
    "n = int (length (plan_lines p))" "ec = []" "em = []"
    and ex: "exported e objects key t (format_day (wd_clock u1)) p cs parts u2"
    by auto
  have "exported e objects key t (format_day (wd_clock u1)) p cs parts u'"
    using ex obj by (simp add: exported_def)
  with op pl co cl r1 show ?thesis by (intro exI conjI)
qed

end

section \<open>Reading an export back\<close>

text \<open>A consumer fetches the object of every part, in order, decompresses it and splits it.\<close>

definition read_parts :: "(string \<Rightarrow> string option) \<Rightarrow> (string \<Rightarrow> string option) \<Rightarrow> Part list
  \<Rightarrow> string list option" where
  "read_parts gunzip objs ps =
     map_option concat (all_some (map (\<lambda>q. Option.bind (objs (p_S3Key q)) (gzipDecode gunzip)) ps))"

lemma plan_lines_ndjson: "(ch, l) \<in> set (plan_lines p) \<Longrightarrow> ndjson_line l"
  using tagged_lines_ndjson [of ch l "[]" "plan_ops p"] by (simp add: tagged_plan)

lemma all_some_Some: "all_some (map Some xs) = Some xs"
  by (induction xs) auto

lemma exported_readable:
  assumes ex: "exported e objects key t day p cs ps u"
    and gz: "\<And>x. gunzip (we_gzip (ex_up e) x) = Some x"
  shows "read_parts gunzip (objects u) ps = Some (map (butlast \<circ> snd) (plan_lines p))"
proof -
  have lines: "concat (map (\<lambda>(ch, ls). map (Pair ch) ls) cs) = plan_lines p"
    and len: "length ps = length cs"
    using ex by (auto simp: exported_def dest: arg_cong [of _ _ length])
  have nd: "\<forall>l \<in> set (snd x). ndjson_line l" if "x \<in> set cs" for x
  proof
    fix l assume "l \<in> set (snd x)"
    with that have "(fst x, l) \<in> set (concat (map (\<lambda>(ch, ls). map (Pair ch) ls) cs))"
      by (auto simp: case_prod_beta intro!: bexI [of _ x])
    then have "(fst x, l) \<in> set (plan_lines p)" by (simp only: lines)
    then show "ndjson_line l" by (rule plan_lines_ndjson)
  qed
  have "map (\<lambda>q. Option.bind (objects u (p_S3Key q)) (gzipDecode gunzip)) ps
      = map Some (map (\<lambda>x. map butlast (snd x)) cs)"
  proof (rule nth_equalityI)
    show "length (map (\<lambda>q. Option.bind (objects u (p_S3Key q)) (gzipDecode gunzip)) ps)
      = length (map Some (map (\<lambda>x. map butlast (snd x)) cs))" using len by simp
    fix i assume "i < length (map (\<lambda>q. Option.bind (objects u (p_S3Key q)) (gzipDecode gunzip)) ps)"
    then have i: "i < length cs" using len by simp
    with ex have "objects u (p_S3Key (ps ! i)) = Some (we_gzip (ex_up e) (concat (snd (cs ! i))))"
      by (simp add: exported_def)
    moreover have "gzipDecode gunzip (we_gzip (ex_up e) (concat (snd (cs ! i))))
        = Some (map butlast (snd (cs ! i)))"
      by (rule gzipDecode_chunk, rule gz, rule nd, rule nth_mem, rule i)
    ultimately show "map (\<lambda>q. Option.bind (objects u (p_S3Key q)) (gzipDecode gunzip)) ps ! i
        = map Some (map (\<lambda>x. map butlast (snd x)) cs) ! i"
      using i len by simp
  qed
  then have "read_parts gunzip (objects u) ps = Some (concat (map (\<lambda>x. map butlast (snd x)) cs))"
    by (simp only: read_parts_def all_some_Some option.map)
  moreover have "concat (map (\<lambda>x. map butlast (snd x)) cs)
      = map (butlast \<circ> snd) (concat (map (\<lambda>(ch, ls). map (Pair ch) ls) cs))"
    by (induction cs) auto
  ultimately show ?thesis by (simp add: lines)
qed

section \<open>Facts about plans\<close>

text \<open>Nothing is dropped exactly when there is no warning.\<close>

lemma plan_complete:
  "plan cfg hits chs tot = (p, [], tt) \<Longrightarrow> p = map (\<lambda>ch. (ch, hits ch)) chs"
proof (induction chs arbitrary: tot p)
  case Nil
  then show ?case by simp
next
  case (Cons ch chs)
  then show ?case
    using quota_le [of cfg 0 tot "length (hits ch)"]
    by (auto simp: Let_def split: if_splits prod.splits)
qed

text \<open>
  Every exported list is the beginning of the hits of its channel, the channels come in the
  given order, no list is longer than the cap, and all together they stay within the limit.
\<close>

lemma plan_bounds:
  assumes "plan cfg hits chs tot = (p, ws, tt)" and "0 \<le> tot" and "tot \<le> ec_MaxTaskHits cfg"
    and "0 \<le> ec_PerChannelHardCap cfg"
  shows "prefix (map fst p) chs \<and>
    (\<forall>(ch, hs) \<in> set p. prefix hs (hits ch) \<and> int (length hs) \<le> ec_PerChannelHardCap cfg) \<and>
    tt = tot + int (length (concat (map snd p))) \<and> tt \<le> ec_MaxTaskHits cfg"
  using assms
proof (induction chs arbitrary: tot p ws tt)
  case Nil
  then show ?case by auto
next
  case (Cons ch chs)
  let ?q = "quota cfg 0 tot (length (hits ch))"
  have q: "int ?q \<le> ec_PerChannelHardCap cfg" "tot + int ?q \<le> ec_MaxTaskHits cfg" "?q \<le> length (hits ch)"
    using quota_bounds(2) [OF Cons.prems(4)] quota_bounds(1) [OF Cons.prems(2,3)] quota_le by blast+
  obtain p2 ws2 tt2 where pl: "plan cfg hits chs (tot + int ?q) = (p2, ws2, tt2)"
    by (metis prod.exhaust)
  from Cons.IH [OF pl _ q(2) Cons.prems(4)] Cons.prems(1,2) q pl show ?case
    by (auto simp: Let_def take_is_prefix split: if_splits)
qed

text \<open>Each warning names its channel and its limit, and what it says was seen was exported.\<close>

lemma plan_warnings:
  assumes "plan cfg hits chs tot = (p, ws, tt)" and "x \<in> set ws"
  shows "(\<exists>hs. (wn_ChannelID x, hs) \<in> set p \<and> length hs < length (hits (wn_ChannelID x)) \<and>
      (wn_Code x = WarnPerChannelTruncated \<longrightarrow> wn_ActualSeen x = int (length hs)
        \<and> wn_Limit x = ec_PerChannelHardCap cfg)) \<and>
    (wn_Code x = WarnTotalTruncated \<longrightarrow> wn_ActualSeen x = tt \<and> wn_Limit x = ec_MaxTaskHits cfg) \<and>
    (wn_Code x = WarnPerChannelTruncated \<or> wn_Code x = WarnTotalTruncated)"
  using assms
proof (induction chs arbitrary: tot p ws tt)
  case Nil
  then show ?case by simp
next
  case (Cons ch chs)
  have neq: "WarnPerChannelTruncated \<noteq> WarnTotalTruncated"
    by (simp add: WarnPerChannelTruncated_def WarnTotalTruncated_def)
  let ?q = "quota cfg 0 tot (length (hits ch))"
  obtain p2 ws2 tt2 where pl: "plan cfg hits chs (tot + int ?q) = (p2, ws2, tt2)"
    by (metis prod.exhaust)
  note IH = Cons.IH [OF pl]
  show ?case
  proof (cases "?q < length (hits ch) \<and> ec_MaxTaskHits cfg \<le> tot + int ?q")
    case True
    with Cons.prems neq show ?thesis
      by (auto simp: Let_def total_warning_def)
  next
    case False
    with Cons.prems(1) pl have pe: "p = (ch, take ?q (hits ch)) # p2" "tt = tt2"
      "ws = (if ?q < length (hits ch) then [channel_warning cfg ch (int ?q)] else []) @ ws2"
      by (auto simp: Let_def)
    show ?thesis
    proof (cases "x \<in> set ws2")
      case True
      from IH [OF this] pe show ?thesis by auto
    next
      case out: False
      with Cons.prems(2) pe(3) have "?q < length (hits ch)" "x = channel_warning cfg ch (int ?q)"
        by (auto split: if_splits)
      with pe(1) neq show ?thesis by (auto simp: channel_warning_def)
    qed
  qed
qed

end
