(* ===== verification/Services.thy ===== *)
theory Services
  imports MySQL_Store S3_Uploader Executor_Spec
begin

text \<open>
  Reference services for the contracts the third-party parts are assumed to meet: a bucket
  held in memory and a search index held in memory, each of whose calls may fail by the
  fault script. They show that the contracts can hold together, with the real store, client
  and uploader on top, and give the witnesses a world to compute in.
\<close>

record Services = MySQL +
  sv_objects :: "(string \<times> string) list"

definition objects_of :: "'a Services_scheme \<Rightarrow> string \<Rightarrow> string option" where
  "objects_of w = map_of (sv_objects w)"

section \<open>The bucket\<close>

definition put_object :: "string \<Rightarrow> string \<Rightarrow> 'a Services_scheme \<Rightarrow> 'a Services_scheme" where
  "put_object k data w = w\<lparr>sv_objects := (k, data) # sv_objects w\<rparr>"

definition remove_object :: "string \<Rightarrow> 'a Services_scheme \<Rightarrow> 'a Services_scheme" where
  "remove_object k w = w\<lparr>sv_objects := filter (\<lambda>p. fst p \<noteq> k) (sv_objects w)\<rparr>"

definition memory_S3 :: "'a Services_scheme S3Client" where
  "memory_S3 =
     \<lparr>cl_Upload = (\<lambda>b k data. remote_exec Background (put_object k data)),
      cl_ListObjectsV2 = (\<lambda>b pre. remote_query Background
        (\<lambda>w. take 1000 (filter (prefix pre) (remdups (map fst (sv_objects w)))))),
      cl_DeleteObject = (\<lambda>b k. remote_exec Background (remove_object k)),
      cl_HeadBucket = (\<lambda>b. remote_exec Background id),
      cl_CreateBucket = (\<lambda>b. remote_exec Background id),
      cl_PresignGetObject = (\<lambda>b k ttl w. (Inr (''https://'' @ b @ ''/'' @ k), w)),
      cl_now = wd_clock, cl_metric = emit\<rparr>"

lemma map_of_delete: "map_of (filter (\<lambda>p. fst p \<noteq> k) xs) = (map_of xs)(k := None)"
  by (induction xs) (auto simp: fun_eq_iff)

lemma objects_of_frame [simp]:
  "objects_of (w\<lparr>wd_faults := fs\<rparr>) = objects_of w"
  "objects_of (emit m w) = objects_of w"
  "objects_of (w\<lparr>batch_task_part := ps\<rparr>) = objects_of w"
  "objects_of (put_object k data w) = (objects_of w)(k \<mapsto> data)"
  "objects_of (remove_object k w) = (objects_of w)(k := None)"
  by (simp_all add: objects_of_def emit_def put_object_def remove_object_def map_of_delete)

lemma listed_keys: "set (remdups (map fst (sv_objects w))) = {k. objects_of w k \<noteq> None}"
  by (auto simp: objects_of_def map_of_eq_None_iff)

interpretation memory_s3: object_store cfg memory_S3 objects_of for cfg
proof (unfold_locales, unfold memory_S3_def S3Client.simps, goal_cases)
  case (5 pre u ks u')
  then obtain fs where ks: "ks = take 1000 (filter (prefix pre) (remdups (map fst (sv_objects u))))"
    and u': "u' = u\<lparr>wd_faults := fs\<rparr>"
    by (auto elim!: remote_query_cases)
  have all: "set (filter (prefix pre) (remdups (map fst (sv_objects u)))) = {k. prefix pre k \<and> objects_of u k \<noteq> None}"
    using listed_keys [of u] by auto
  show ?case
  proof (intro conjI impI)
    show "objects_of u' = objects_of u" using u' by simp
    show "set ks \<subseteq> {k. prefix pre k \<and> objects_of u k \<noteq> None}"
      using set_take_subset ks all by metis
    assume "length ks < 1000"
    with ks have "ks = filter (prefix pre) (remdups (map fst (sv_objects u)))" by auto
    with all show "{k. prefix pre k \<and> objects_of u k \<noteq> None} \<subseteq> set ks" by simp
  qed
qed (auto elim!: remote_exec_cases remote_query_cases)

section \<open>The search index\<close>

text \<open>An index keeps a list of documents with unique keys; every handle is a view of it.\<close>

definition indexed :: "gmap list \<Rightarrow> gmap list" where
  "indexed docs = (if index_ok docs then docs else [])"

definition ok_response :: "gval \<Rightarrow> response" where
  "ok_response v = \<lparr>rs_StatusCode = 200, rs_Status = ''200 OK'', rs_text = [], rs_json = Some v\<rparr>"

definition memory_OS :: "gmap list \<Rightarrow> 'a World_scheme Transport" where
  "memory_OS docs =
     \<lparr>tp_Info = (\<lambda>c. remote_query c (\<lambda>_. ok_response (GMap []))),
      tp_Count = (\<lambda>c idx body. remote_query c (\<lambda>_. ok_response (GMap [(''count'',
        json_of_int (int (length (filter (bool_matches (gget (the (as_map body)) ''query''))
          (indexed docs)))))]))),
      tp_Search = (\<lambda>c body. remote_query c (\<lambda>_. ok_response
        (search_reply (eval_search body (indexed docs))))),
      tp_Perform = (\<lambda>c meth path body. remote_query c (\<lambda>_. ok_response
        (GMap [(''pit_id'', GString ''pit-1'')])))\<rparr>"

interpretation memory_os: opensearch "memory_OS docs" "\<lambda>_. indexed docs" for docs
proof
  show "rs_json r = Some (search_reply (eval_search body (indexed docs)))"
    if "tp_Search (memory_OS docs) c body w = (Inr r, w')" for c body w r w'
    using that by (auto simp: memory_OS_def ok_response_def elim!: remote_query_cases)
  show "index_ok (indexed docs)" for docs
    by (simp add: indexed_def index_ok_def)
qed

section \<open>The executor on these services\<close>

definition memory_executor :: "ExecutorConfig \<Rightarrow> int \<Rightarrow> nat \<Rightarrow> S3Config \<Rightarrow> (string \<Rightarrow> string)
  \<Rightarrow> (string \<Rightarrow> string) \<Rightarrow> gmap list \<Rightarrow> 'a Services_scheme Executor" where
  "memory_executor cfg slots partSize s3 gz sha docs =
     Executor_New cfg (OSClient (memory_OS docs)) MySQLStore (s3_writer_env partSize s3 memory_S3 gz sha)
       (NewGate slots) (Some (Auditor_Log \<lparr>au_f = True\<rparr>))"

lemma memory_executor_simps [simp]:
  "ex_os (memory_executor cfg slots partSize s3 gz sha docs) = OSClient (memory_OS docs)"
  "ex_store (memory_executor cfg slots partSize s3 gz sha docs) = MySQLStore"
  "ex_up (memory_executor cfg slots partSize s3 gz sha docs) = s3_writer_env partSize s3 memory_S3 gz sha"
  by (simp_all add: memory_executor_def Executor_New_def Let_def)

lemma OSClient_simps [simp]:
  "os_Search (OSClient tp) = OSClient_Search tp"
  "os_OpenPIT (OSClient tp) = OSClient_OpenPIT tp"
  "os_ClosePIT (OSClient tp) = OSClient_ClosePIT tp"
  "os_Count (OSClient tp) = OSClient_Count tp"
  "os_Ping (OSClient tp) = OSClient_Ping tp"
  by (simp_all add: OSClient_def)

lemma memory_OS_frame:
  "tp_Search (memory_OS docs) c body w = (r, w') \<Longrightarrow> objects_of w' = objects_of w"
  "tp_Perform (memory_OS docs) c meth path b w = (r, w') \<Longrightarrow> objects_of w' = objects_of w"
  by (auto simp: memory_OS_def elim!: remote_query_cases)

interpretation memory_run: export_env "memory_executor cfg slots partSize s3 gz sha docs"
  objects_of "s3_key s3" "os_hits (\<lambda>_. indexed docs)" for cfg slots partSize s3 gz sha docs
proof -
  have "part_store (s3_writer_env partSize s3 memory_S3 gz sha) objects_of (s3_key s3)"
    by (rule memory_s3.part.part_store_axioms)
  moreover have "paged_search (OSClient_Search (memory_OS docs)) (os_hits (\<lambda>_. indexed docs))"
    by (rule memory_os.pages.paged_search_axioms)
  moreover have "export_env_axioms (memory_executor cfg slots partSize s3 gz sha docs) objects_of"
  proof (unfold_locales, unfold memory_executor_simps OSClient_simps, goal_cases)
    case (1 c req u r u')
    then show ?case
      by (auto simp: OSClient_Search_def Let_def split: prod.splits sum.splits if_splits
          dest: memory_OS_frame)
  next
    case (2 c p u q u')
    then show ?case
      by (auto simp: MySQLStore_def MySQLStore_AppendPart_def Let_def elim!: remote_exec_cases
          split: prod.splits option.splits)
  next
    case (3 c idx ka u x u')
    then show ?case
      by (auto simp: OSClient_OpenPIT_def Let_def split: prod.splits sum.splits if_splits option.splits
          dest: memory_OS_frame)
  next
    case (4 c pit u q u')
    then show ?case
      by (auto simp: OSClient_ClosePIT_def Let_def split: prod.splits sum.splits dest: memory_OS_frame)
  qed
  ultimately show "export_env (memory_executor cfg slots partSize s3 gz sha docs) objects_of (s3_key s3)
      (os_hits (\<lambda>_. indexed docs))"
    by (simp add: export_env_def)
qed

end
