(* ===== verification/Part_Table.thy ===== *)
theory Part_Table
  imports MySQL_Store Executor_Spec
begin

text \<open>
  The table of parts as the executor and the handler use it: the parts appended at the end of
  a run are the ones listed afterwards, in the order of the export; so a consumer that lists
  the parts of a finished task, fetches their objects and decompresses them reads exactly the
  exported lines.
\<close>

section \<open>Parts of a task\<close>

definition mysql_parts :: "'a MySQL_scheme \<Rightarrow> string \<Rightarrow> Part list" where
  "mysql_parts w tid =
     map scanPart (sort_key pr_part_seq (filter (\<lambda>r. pr_task_id r = tid) (batch_task_part w)))"

lemma mysql_GetParts:
  "MySQLStore_GetParts c tid w = (Inr ps, w') \<Longrightarrow>
   ps = mysql_parts w tid \<and> batch_task_part w' = batch_task_part w"
  by (auto simp: MySQLStore_GetParts_def mysql_parts_def elim!: remote_query_cases
      split: prod.splits sum.splits)

definition part_row :: "int \<Rightarrow> Part \<Rightarrow> PartRow" where
  "part_row n p =
     \<lparr>pr_task_id = p_TaskID p, pr_part_seq = p_PartSeq p, pr_s3_key = p_S3Key p,
      pr_size_bytes = p_SizeBytes p, pr_message_count = p_MessageCount p,
      pr_sha256 = p_SHA256 p, pr_channel_ids_json = strings_json (p_ChannelIDs p),
      pr_created_at = n\<rparr>"

lemma scan_part_row:
  "list_all valid_utf8 (p_ChannelIDs p) \<Longrightarrow> scanPart (part_row n p) = p\<lparr>p_CreatedAt := n\<rparr>"
  by (simp add: scanPart_def part_row_def strings_roundtrip)

lemma AppendPart_ok:
  "MySQLStore_AppendPart c p w = (None, w') \<Longrightarrow>
   batch_task_part w' = upsert_part (part_row (datetime (wd_clock w)) p) (batch_task_part w)"
  by (auto simp: MySQLStore_AppendPart_def Let_def part_row_def elim!: remote_exec_cases
      split: prod.splits option.splits if_splits)

lemma upsert_new:
  "\<forall>q \<in> set qs. \<not> (pr_task_id q = pr_task_id r \<and> pr_part_seq q = pr_part_seq r) \<Longrightarrow>
   upsert_part r qs = qs @ [r]"
  by (induction qs) auto

section \<open>Appending the parts of a run\<close>

text \<open>Parts with rising sequence numbers, on a table that has none of that task from there on.\<close>

lemma append_parts_rows:
  assumes "append_parts MySQLStore c ps w = (None, w')"
    and "\<forall>p \<in> set ps. p_TaskID p = tid" and "sorted_wrt (<) (map p_PartSeq ps)"
    and "\<forall>p \<in> set ps. \<forall>r \<in> set (batch_task_part w). pr_task_id r = tid \<longrightarrow> pr_part_seq r < p_PartSeq p"
  shows "\<exists>ns. length ns = length ps \<and>
    batch_task_part w' = batch_task_part w @ map (\<lambda>(n, p). part_row n p) (zip ns ps)"
  using assms
proof (induction ps arbitrary: w)
  case Nil
  then show ?case by simp
next
  case (Cons p ps)
  from Cons.prems(1) obtain w1 where a: "MySQLStore_AppendPart c p w = (None, w1)"
    and r: "append_parts MySQLStore c ps w1 = (None, w')"
    by (auto simp: MySQLStore_def split: prod.splits option.splits)
  let ?n = "datetime (wd_clock w)"
  have new: "\<forall>q \<in> set (batch_task_part w).
      \<not> (pr_task_id q = pr_task_id (part_row ?n p) \<and> pr_part_seq q = pr_part_seq (part_row ?n p))"
  proof
    fix q assume "q \<in> set (batch_task_part w)"
    with Cons.prems(4) have "pr_task_id q = tid \<longrightarrow> pr_part_seq q < p_PartSeq p" by simp
    moreover have "p_TaskID p = tid" using Cons.prems(2) by simp
    ultimately show "\<not> (pr_task_id q = pr_task_id (part_row ?n p) \<and>
        pr_part_seq q = pr_part_seq (part_row ?n p))" by (auto simp: part_row_def)
  qed
  have w1: "batch_task_part w1 = batch_task_part w @ [part_row ?n p]"
    by (rule trans [OF AppendPart_ok [OF a] upsert_new [OF new]])
  have "\<forall>q \<in> set ps. \<forall>r \<in> set (batch_task_part w1). pr_task_id r = tid \<longrightarrow> pr_part_seq r < p_PartSeq q"
    using Cons.prems(3,4) w1 by (auto simp: part_row_def)
  moreover have "\<forall>p \<in> set ps. p_TaskID p = tid" "sorted_wrt (<) (map p_PartSeq ps)"
    using Cons.prems(2,3) by simp_all
  ultimately obtain ns where "length ns = length ps"
    "batch_task_part w' = batch_task_part w1 @ map (\<lambda>(n, p). part_row n p) (zip ns ps)"
    using Cons.IH [OF r] by metis
  with w1 show ?case by (intro exI [of _ "?n # ns"]) simp
qed

definition undated :: "Part \<Rightarrow> Part" where
  "undated p = p\<lparr>p_CreatedAt := 0\<rparr>"

lemma sorted_key_filter: "sorted_wrt (<) (map f xs) \<Longrightarrow> sort_key (f :: 'b \<Rightarrow> int) xs = xs"
  by (intro sort_key_id_if_sorted) (simp add: strict_sorted_iff)

lemma append_parts_listed:
  assumes "append_parts MySQLStore c ps w = (None, w')"
    and tid: "\<forall>p \<in> set ps. p_TaskID p = tid" and srt: "sorted_wrt (<) (map p_PartSeq ps)"
    and valid: "\<forall>p \<in> set ps. list_all valid_utf8 (p_ChannelIDs p)"
    and none: "\<forall>r \<in> set (batch_task_part w). pr_task_id r \<noteq> tid"
  shows "map undated (mysql_parts w' tid) = map undated ps"
proof -
  from append_parts_rows [OF assms(1) tid srt] none obtain ns where ns: "length ns = length ps"
    and w': "batch_task_part w' = batch_task_part w @ map (\<lambda>(n, p). part_row n p) (zip ns ps)"
    by blast
  let ?rows = "map (\<lambda>(n, p). part_row n p) (zip ns ps)"
  have "filter (\<lambda>r. pr_task_id r = tid) (batch_task_part w) = []"
    using none by (simp add: filter_empty_conv)
  moreover have "filter (\<lambda>r. pr_task_id r = tid) ?rows = ?rows"
    using tid by (auto simp: filter_id_conv part_row_def dest: set_zip_rightD)
  ultimately have "filter (\<lambda>r. pr_task_id r = tid) (batch_task_part w') = ?rows" by (simp add: w')
  moreover have "map pr_part_seq ?rows = map p_PartSeq ps"
    using map_zip_snd [OF ns, of p_PartSeq] by (simp add: part_row_def case_prod_beta' comp_def)
  then have "sort_key pr_part_seq ?rows = ?rows" using srt by (intro sorted_key_filter) simp
  ultimately have "mysql_parts w' tid = map (\<lambda>(n, p). scanPart (part_row n p)) (zip ns ps)"
    by (simp add: mysql_parts_def comp_def case_prod_beta')
  also have "\<dots> = map (\<lambda>(n, p). p\<lparr>p_CreatedAt := n\<rparr>) (zip ns ps)"
    using valid by (auto simp: scan_part_row dest: set_zip_rightD)
  finally have "map undated (mysql_parts w' tid) = map (\<lambda>x. undated (snd x)) (zip ns ps)"
    by (auto simp: undated_def)
  then show ?thesis using map_zip_snd [OF ns, of undated] by simp
qed

section \<open>A finished run, listed\<close>

text \<open>The parts of a plan carry its task, rising numbers, and channels of the plan.\<close>

lemma part_metas_nth:
  assumes "map keyless ps = part_metas d t cs" and "i < length ps"
  shows "p_TaskID (ps ! i) = t" "p_PartSeq (ps ! i) = int i" "p_ChannelIDs (ps ! i) = [fst (cs ! i)]"
proof -
  have len: "length ps = length cs" using arg_cong [OF assms(1), of length] by simp
  have "keyless (ps ! i) = part_meta d t (i, cs ! i)"
    using arg_cong [OF assms(1), of "\<lambda>xs. xs ! i"] assms(2) len
    by (simp add: part_metas_def nth_enumerate_eq)
  then have "p_TaskID (keyless (ps ! i)) = t \<and> p_PartSeq (keyless (ps ! i)) = int i \<and>
      p_ChannelIDs (keyless (ps ! i)) = [fst (cs ! i)]"
    by (cases "cs ! i") (simp add: part_meta_def)
  then show "p_TaskID (ps ! i) = t" "p_PartSeq (ps ! i) = int i" "p_ChannelIDs (ps ! i) = [fst (cs ! i)]"
    by (simp_all add: keyless_def)
qed

lemma plan_channels: "plan cfg hits chs tot = (p, ws, tt) \<Longrightarrow> set (map fst p) \<subseteq> set chs"
proof (induction chs arbitrary: tot p ws tt)
  case Nil
  then show ?case by simp
next
  case (Cons ch chs)
  obtain p2 ws2 tt2 where "plan cfg hits chs (tot + int (quota cfg 0 tot (length (hits ch)))) = (p2, ws2, tt2)"
    by (metis prod.exhaust)
  with Cons show ?case by (fastforce simp: Let_def split: if_splits)
qed

lemma plan_lines_channel: "(ch, l) \<in> set (plan_lines p) \<Longrightarrow> ch \<in> set (map fst p)"
  by (auto simp: plan_lines_def image_iff) (metis fst_conv)

lemma exported_parts:
  assumes ex: "exported e objects key t day p cs ps u" and pl: "plan cfg hits (sorted_channels t) 0 = (p, ws, tt)"
    and sc: "storable_scope (t_Scope t)"
  shows "\<forall>q \<in> set ps. p_TaskID q = t_TaskID t" "sorted_wrt (<) (map p_PartSeq ps)"
    "\<forall>q \<in> set ps. list_all valid_utf8 (p_ChannelIDs q)"
proof -
  have metas: "map keyless ps = part_metas (ex_up e) (t_TaskID t) cs" using ex by (simp add: exported_def)
  then have len: "length ps = length cs" by (metis length_map length_part_metas)
  note nth = part_metas_nth [OF metas]
  show "\<forall>q \<in> set ps. p_TaskID q = t_TaskID t" using nth(1) by (auto simp: in_set_conv_nth)
  show "sorted_wrt (<) (map p_PartSeq ps)" using nth(2) by (auto simp: sorted_wrt_iff_nth_less)
  show "\<forall>q \<in> set ps. list_all valid_utf8 (p_ChannelIDs q)"
  proof
    fix q assume "q \<in> set ps"
    then obtain i where i: "i < length ps" "q = ps ! i" by (auto simp: in_set_conv_nth)
    then have mem: "cs ! i \<in> set cs" using len by simp
    with ex have "snd (cs ! i) \<noteq> []" by (auto simp: exported_def chunk_ok_def)
    then obtain l where "l \<in> set (snd (cs ! i))" by (cases "snd (cs ! i)") auto
    with mem have "(fst (cs ! i), l) \<in> set (concat (map (\<lambda>(ch, ls). map (Pair ch) ls) cs))"
      by (auto simp: case_prod_beta intro!: bexI [of _ "cs ! i"])
    then have "(fst (cs ! i), l) \<in> set (plan_lines p)" using ex by (simp only: exported_def)
    then have "fst (cs ! i) \<in> set (sorted_channels t)"
      using plan_lines_channel plan_channels [OF pl] by blast
    then have "valid_utf8 (fst (cs ! i))"
      using sc by (auto simp: sorted_channels_def storable_scope_def list_all_iff)
    with i nth(3) show "list_all valid_utf8 (p_ChannelIDs q)" by simp
  qed
qed

text \<open>A part holds at least one message and at most as many as configured.\<close>

lemma chunk_rows: "chunk_ok R B ls \<Longrightarrow> 1 \<le> int (length ls) \<and> int (length ls) \<le> max 1 R"
  by (cases ls rule: rev_cases) (auto simp: chunk_ok_def full_def)

lemma part_metas_count:
  assumes "map keyless ps = part_metas d t cs" and "i < length ps"
  shows "p_MessageCount (ps ! i) = int (length (snd (cs ! i)))"
proof -
  have len: "length ps = length cs" using arg_cong [OF assms(1), of length] by simp
  have "keyless (ps ! i) = part_meta d t (i, cs ! i)"
    using arg_cong [OF assms(1), of "\<lambda>xs. xs ! i"] assms(2) len
    by (simp add: part_metas_def nth_enumerate_eq)
  then have "p_MessageCount (keyless (ps ! i)) = int (length (snd (cs ! i)))"
    by (cases "cs ! i") (simp add: part_meta_def)
  then show ?thesis by (simp add: keyless_def)
qed

lemma exported_rows:
  assumes ex: "exported e objects key t day p cs ps u" and q: "q \<in> set ps"
  shows "1 \<le> p_MessageCount q \<and> p_MessageCount q \<le> max 1 (ec_PartMaxRows (ex_cfg e))"
proof -
  have metas: "map keyless ps = part_metas (ex_up e) (t_TaskID t) cs" using ex by (simp add: exported_def)
  then have len: "length ps = length cs" by (metis length_map length_part_metas)
  from q obtain i where i: "i < length ps" "q = ps ! i" by (auto simp: in_set_conv_nth)
  then have "cs ! i \<in> set cs" using len by simp
  then have "chunk_ok (ec_PartMaxRows (ex_cfg e)) (ec_PartMaxBytes (ex_cfg e)) (snd (cs ! i))"
    using ex by (simp add: exported_def)
  from chunk_rows [OF this] show ?thesis using part_metas_count [OF metas i(1)] i(2) by simp
qed

text \<open>Two lists of parts that differ only in the time of their rows read the same objects.\<close>

lemma undated_keys: "map undated qs = map undated ps \<Longrightarrow> map p_S3Key qs = map p_S3Key ps"
proof -
  assume "map undated qs = map undated ps"
  then have "map (p_S3Key \<circ> undated) qs = map (p_S3Key \<circ> undated) ps" by (metis map_map)
  moreover have "p_S3Key \<circ> undated = p_S3Key" by (auto simp: undated_def)
  ultimately show ?thesis by simp
qed

lemma undated_counts: "map undated qs = map undated ps \<Longrightarrow> map p_MessageCount qs = map p_MessageCount ps"
proof -
  assume "map undated qs = map undated ps"
  then have "map (p_MessageCount \<circ> undated) qs = map (p_MessageCount \<circ> undated) ps" by (metis map_map)
  moreover have "p_MessageCount \<circ> undated = p_MessageCount" by (auto simp: undated_def)
  ultimately show ?thesis by simp
qed

lemma read_parts_keys: "map p_S3Key qs = map p_S3Key ps \<Longrightarrow> read_parts gz objs qs = read_parts gz objs ps"
proof -
  assume k: "map p_S3Key qs = map p_S3Key ps"
  have eq: "map (\<lambda>q. Option.bind (objs (p_S3Key q)) (gzipDecode gz)) xs =
      map (\<lambda>k. Option.bind (objs k) (gzipDecode gz)) (map p_S3Key xs)" for xs by simp
  show ?thesis unfolding read_parts_def eq k ..
qed

text \<open>
  The environment of a run on the MySQL store whose client and uploader leave the table of
  parts alone.
\<close>

locale listed_export = export_env e objects key result_set
  for e :: "'a MySQL_scheme Executor" and objects :: "'a MySQL_scheme \<Rightarrow> string \<Rightarrow> string option"
    and key :: "string \<Rightarrow> string \<Rightarrow> int \<Rightarrow> string \<Rightarrow> string"
    and result_set :: "string \<Rightarrow> string \<Rightarrow> int \<Rightarrow> int \<Rightarrow> Hit list" +
  assumes mysql: "ex_store e = MySQLStore"
    and open_parts: "os_OpenPIT (ex_os e) c idx ka u = (x, u') \<Longrightarrow> batch_task_part u' = batch_task_part u"
    and close_parts: "os_ClosePIT (ex_os e) c pit u = (q, u') \<Longrightarrow> batch_task_part u' = batch_task_part u"
    and search_parts: "os_Search (ex_os e) c req u = (r, u') \<Longrightarrow> batch_task_part u' = batch_task_part u"
    and upload_parts: "we_Upload (ex_up e) t cl n day data u = (k, u') \<Longrightarrow>
      batch_task_part u' = batch_task_part u"
    and metric_parts: "batch_task_part (we_metric (ex_up e) m u) = batch_task_part u"

sublocale listed_export \<subseteq> frame: collect_frame e "\<lambda>u. batch_task_part u = rows" for rows
  by unfold_locales (simp_all add: open_parts close_parts search_parts upload_parts metric_parts)

context listed_export begin

lemma run_listed:
  assumes r: "run e c t u = ((status, n, ws, ec, em), u')" and ok: "status \<noteq> StatusFailed"
    and ty: "in_i64 (tr_StartTS (t_TimeRange t))" "in_i64 (tr_EndTS (t_TimeRange t))"
      "in_i64 (ec_PageSize (ex_cfg e))" "1 \<le> ec_PageSize (ex_cfg e)"
    and sc: "storable_scope (t_Scope t)"
    and none: "\<forall>r \<in> set (batch_task_part u). pr_task_id r \<noteq> t_TaskID t"
    and gz: "\<And>x. gunzip (we_gzip (ex_up e) x) = Some x"
  shows "\<exists>pit u1 p pt.
    os_OpenPIT (ex_os e) c (ec_Index (ex_cfg e)) (ec_PITKeepAlive (ex_cfg e)) u = (Inr pit, u1) \<and>
    plan (ex_cfg e) (\<lambda>ch. result_set pit ch (tr_StartTS (t_TimeRange t)) (tr_EndTS (t_TimeRange t)))
      (sorted_channels t) 0 = (p, ws, pt) \<and>
    status = (if ws = [] then StatusCompleted else StatusPartial) \<and>
    read_parts gunzip (objects u') (mysql_parts u' (t_TaskID t)) = Some (map (butlast \<circ> snd) (plan_lines p)) \<and>
    n = int (length (plan_lines p)) \<and>
    n = sum_list (map p_MessageCount (mysql_parts u' (t_TaskID t))) \<and>
    (\<forall>q \<in> set (mysql_parts u' (t_TaskID t)).
       1 \<le> p_MessageCount q \<and> p_MessageCount q \<le> max 1 (ec_PartMaxRows (ex_cfg e)))"
proof -
  from run_plan [OF r ok ty] obtain pit u1 p pt cs parts v v' day where
    op: "os_OpenPIT (ex_os e) c (ec_Index (ex_cfg e)) (ec_PITKeepAlive (ex_cfg e)) u = (Inr pit, u1)"
    and pl: "plan (ex_cfg e) (\<lambda>ch. result_set pit ch (tr_StartTS (t_TimeRange t)) (tr_EndTS (t_TimeRange t)))
      (sorted_channels t) 0 = (p, ws, pt)"
    and st: "status = (if ws = [] then StatusCompleted else StatusPartial)"
    and n: "n = int (length (plan_lines p))"
    and ex: "exported e objects key t day p cs parts u'"
    and co: "collected e c t pit u1 = (parts, v)" and ap: "append_parts (ex_store e) c parts v = (None, v')"
    and cl: "u' = snd (os_ClosePIT (ex_os e) Background pit v')"
    by blast
  have "batch_task_part v = batch_task_part u"
    using frame.collected_P [where c = c and t = t and pit = pit and u = u1] open_parts [OF op] co
    by (metis snd_conv)
  moreover have u': "batch_task_part u' = batch_task_part v'"
    using close_parts [of Background pit v'] cl by (metis surjective_pairing)
  ultimately have "map undated (mysql_parts v' (t_TaskID t)) = map undated parts"
    using append_parts_listed [OF ap [unfolded mysql] exported_parts [OF ex pl sc]] none by simp
  then have "map undated (mysql_parts u' (t_TaskID t)) = map undated parts"
    using u' by (simp add: mysql_parts_def)
  note same = undated_keys [OF this] undated_counts [OF this]
  have "sum_list (map p_MessageCount parts) = int (length (plan_lines p))"
    using ex sum_message_counts [of parts "ex_up e" "t_TaskID t" cs] by (simp add: exported_def)
  moreover have "\<forall>k \<in> set (map p_MessageCount parts). 1 \<le> k \<and> k \<le> max 1 (ec_PartMaxRows (ex_cfg e))"
    using exported_rows [OF ex] by auto
  then have "\<forall>q \<in> set (mysql_parts u' (t_TaskID t)).
      1 \<le> p_MessageCount q \<and> p_MessageCount q \<le> max 1 (ec_PartMaxRows (ex_cfg e))"
    unfolding same(2) [symmetric] by auto
  moreover have "read_parts gunzip (objects u') (mysql_parts u' (t_TaskID t)) =
      Some (map (butlast \<circ> snd) (plan_lines p))"
    using read_parts_keys [OF same(1)] exported_readable [OF ex gz] by metis
  ultimately show ?thesis using op pl st n same(2) by metis
qed

end

end
