(* ===== verification/System.thy ===== *)
theory System
  imports Submitter Canceller Executor_Frame
begin

text \<open>
  The running service: any number of submit requests, cancel requests and workers, each a
  thread that makes one call at a time, interleaved in any order over one gate, one queue, one
  registry and one world. The threads take the steps of \<open>Submit\<close>, \<open>Cancel\<close> and \<open>process\<close>
  in their order, on every outcome of every call; only the run of a task over the index and
  the bucket is one step. This theory has the steps and the conservation of slots.
\<close>

section \<open>Threads\<close>

text \<open>Where a submit request stands, from the moment it asks for a slot.\<close>

datatype submit_pc =
    SubIdle
  | SubAdmitted Task           \<comment> \<open>holds a slot, before \<open>Create\<close>\<close>
  | SubRefused                 \<comment> \<open>\<open>Create\<close> failed, before \<open>Release\<close>\<close>
  | SubCreated string          \<comment> \<open>before \<open>Enqueue\<close>\<close>
  | SubFull string             \<comment> \<open>queue full, before \<open>Release\<close>\<close>
  | SubFailing string          \<comment> \<open>before \<open>Finalize\<close>\<close>

datatype worker_pc =
    WIdle
  | WTaken string              \<comment> \<open>received from the queue, before \<open>register\<close>\<close>
  | WGet string nat            \<comment> \<open>registered, before \<open>Get\<close>\<close>
  | WStart string nat Task     \<comment> \<open>before \<open>UpdateStatus\<close>\<close>
  | WAbort string nat          \<comment> \<open>\<open>UpdateStatus\<close> failed, before \<open>Finalize\<close>\<close>
  | WRun string nat Task
  | WFinal string nat Task run_result
  | WUnregister string nat
  | WCancelCtx string nat
  | WRelease string
  | WStopped

datatype cancel_pc =
    CanIdle
  | CanCAS string string string      \<comment> \<open>task, caller and request, before \<open>CancelCAS\<close>\<close>
  | CanSignal string string string
  | CanClean string string string

text \<open>The state all threads share.\<close>

type_synonym 'a shared = "'a world_executor \<times> 'a World_scheme"

section \<open>Steps of one thread\<close>

text \<open>The scope of a request was decoded from JSON, whose texts are valid UTF-8.\<close>

inductive sub_step :: "submit_pc \<Rightarrow> 'a shared \<Rightarrow> submit_pc \<Rightarrow> 'a shared \<Rightarrow> bool" where
  sub_admit: "Acquire se cd wait (ex_gate e) = (True, g) \<Longrightarrow> storable_scope (rq_Scope req) \<Longrightarrow>
    sub_step SubIdle (e, u)
      (SubAdmitted (new_task (NewTaskID (wd_clock u) rnd) caller requestID tot req)) (e\<lparr>ex_gate := g\<rparr>, u)"
| sub_busy: "Acquire se cd wait (ex_gate e) = (False, g) \<Longrightarrow>
    sub_step SubIdle (e, u) SubIdle (e\<lparr>ex_gate := g\<rparr>, u)"
| sub_create: "st_Create (ex_store e) c t u = (Inr t', u') \<Longrightarrow>
    sub_step (SubAdmitted t) (e, u) (SubCreated (t_TaskID t)) (e, u')"
| sub_create_err: "st_Create (ex_store e) c t u = (Inl er, u') \<Longrightarrow>
    sub_step (SubAdmitted t) (e, u) SubRefused (e, u')"
| sub_release: "sub_step SubRefused (e, u) SubIdle (e\<lparr>ex_gate := Release (ex_gate e)\<rparr>, u)"
| sub_enqueue: "Enqueue tid e u = (None, e', u') \<Longrightarrow>
    sub_step (SubCreated tid) (e, u) SubIdle (e', u')"
| sub_enqueue_full: "Enqueue tid e u = (Some er, e', u') \<Longrightarrow>
    sub_step (SubCreated tid) (e, u) (SubFull tid) (e', u')"
| sub_full_release: "sub_step (SubFull tid) (e, u) (SubFailing tid) (e\<lparr>ex_gate := Release (ex_gate e)\<rparr>, u)"
| sub_fail: "st_Finalize (ex_store e) c tid StatusFailed 0 [] ''service_degraded'' ''queue full'' u = (q, u') \<Longrightarrow>
    sub_step (SubFailing tid) (e, u) SubIdle (e, u')"

text \<open>A worker under the context \<open>Parent\<close>; \<open>k\<close> is the number of the next task context.\<close>

inductive work_step :: "nat \<Rightarrow> worker_pc \<Rightarrow> 'a shared \<Rightarrow> worker_pc \<Rightarrow> 'a shared \<Rightarrow> bool" for k where
  work_receive: "ex_queue e = tid # q \<Longrightarrow>
    work_step k WIdle (e, u) (WTaken tid) (e\<lparr>ex_queue := q\<rparr>, set_queue_depth (e\<lparr>ex_queue := q\<rparr>) u)"
| work_stop: "ctx_Err Parent u \<Longrightarrow> work_step k WIdle (e, u) WStopped (e, u)"
| work_register: "work_step k (WTaken tid) (e, u) (WGet tid k) (register tid (TaskCtx k) e, u)"
| work_get_err: "st_Get (ex_store e) (TaskCtx j) tid u = (Inl er, u') \<Longrightarrow>
    work_step k (WGet tid j) (e, u) (WUnregister tid j) (e, u')"
| work_get_skip: "st_Get (ex_store e) (TaskCtx j) tid u = (Inr t, u') \<Longrightarrow> IsTerminal (t_Status t) \<Longrightarrow>
    work_step k (WGet tid j) (e, u) (WUnregister tid j) (e, u')"
| work_get: "st_Get (ex_store e) (TaskCtx j) tid u = (Inr t, u') \<Longrightarrow> \<not> IsTerminal (t_Status t) \<Longrightarrow>
    work_step k (WGet tid j) (e, u) (WStart tid j t) (e, u')"
| work_start_err: "st_UpdateStatus (ex_store e) (TaskCtx j) tid StatusRunning u = (Some er, u') \<Longrightarrow>
    work_step k (WStart tid j t) (e, u) (WAbort tid j) (e, u')"
| work_abort: "st_Finalize (ex_store e) Parent tid StatusFailed 0 [] ''internal_error''
      ''update status running failed'' u = (q, u') \<Longrightarrow>
    work_step k (WAbort tid j) (e, u) (WUnregister tid j) (e, u')"
| work_start: "st_UpdateStatus (ex_store e) (TaskCtx j) tid StatusRunning u = (None, u') \<Longrightarrow>
    work_step k (WStart tid j t) (e, u) (WRun tid j t) (e, set_inflight e u')"
| work_run: "run e (TaskCtx j) t u = (r, u') \<Longrightarrow>
    work_step k (WRun tid j t) (e, u) (WFinal tid j t r) (e, u')"
| work_final: "work_step k (WFinal tid j t r) (e, u) (WUnregister tid j)
    (e, finalize_task e Parent (TaskCtx j) tid t r u)"
| work_unregister: "work_step k (WUnregister tid j) (e, u) (WCancelCtx tid j) (unregister tid e, u)"
| work_cancel_ctx: "work_step k (WCancelCtx tid j) (e, u) (WRelease tid) (e, cancel_ctx (TaskCtx j) u)"
| work_release: "work_step k (WRelease tid) (e, u) WIdle (e\<lparr>ex_gate := Release (ex_gate e)\<rparr>, u)"

text \<open>A cancel request; \<open>cn\<close> is the canceller over the executor of the moment.\<close>

inductive cancel_step :: "('a world_executor \<Rightarrow> 'a World_scheme Canceller) \<Rightarrow>
    cancel_pc \<Rightarrow> 'a shared \<Rightarrow> cancel_pc \<Rightarrow> 'a shared \<Rightarrow> bool" for cn where
  can_done: "st_Get (cc_store (cn e)) c tid u = (x, u') \<Longrightarrow>
    (case x of Inl _ \<Rightarrow> True | Inr t \<Rightarrow> t_CallerService t \<noteq> caller \<or> IsTerminal (t_Status t)) \<Longrightarrow>
    cancel_step cn CanIdle (e, u) CanIdle (e, u')"
| can_get: "st_Get (cc_store (cn e)) c tid u = (Inr t, u') \<Longrightarrow> t_CallerService t = caller \<Longrightarrow>
    \<not> IsTerminal (t_Status t) \<Longrightarrow>
    cancel_step cn CanIdle (e, u) (CanCAS tid caller (t_RequestID t)) (e, u')"
| can_won: "st_CancelCAS (cc_store (cn e)) c tid u = (Inr (True, st), u') \<Longrightarrow>
    cancel_step cn (CanCAS tid caller rid) (e, u) (CanSignal tid caller rid) (e, u')"
| can_lost: "st_CancelCAS (cc_store (cn e)) c tid u = (x, u') \<Longrightarrow>
    (case x of Inl _ \<Rightarrow> True | Inr (b, _) \<Rightarrow> \<not> b) \<Longrightarrow>
    cancel_step cn (CanCAS tid caller rid) (e, u) CanIdle (e, u')"
| can_signal: "cancel_step cn (CanSignal tid caller rid) (e, u) (CanClean tid caller rid) (e, signal (cn e) tid u)"
| can_clean: "cancel_step cn (CanClean tid caller rid) (e, u) CanIdle
    (e, audit_cancel (cn e) tid caller rid (clean (cn e) tid caller u))"

section \<open>The system\<close>

record 'a Sys =
  sy_shared :: "'a shared"
  sy_subs :: "submit_pc list"
  sy_workers :: "worker_pc list"
  sy_cans :: "cancel_pc list"
  sy_next :: nat

text \<open>
  What calls that only read, metric calls and audit lines do to the world, of these threads and
  of any other request: the script of faults moves on, and the logs grow or change.
\<close>

definition outer :: "'a World_scheme \<Rightarrow> 'a World_scheme \<Rightarrow> bool" where
  "outer u u' \<longleftrightarrow>
     (\<exists>fs ms ls a. u' = u\<lparr>wd_faults := fs, wd_metrics := ms, wd_stdout := ls, wd_audit_file := a\<rparr>)"

inductive sys_step :: "('a world_executor \<Rightarrow> 'a World_scheme Canceller) \<Rightarrow> 'a Sys \<Rightarrow> 'a Sys \<Rightarrow> bool"
  for cn where
  sys_sub: "i < length (sy_subs s) \<Longrightarrow> sub_step (sy_subs s ! i) (sy_shared s) pc' sh' \<Longrightarrow>
    sys_step cn s (s\<lparr>sy_shared := sh', sy_subs := (sy_subs s)[i := pc']\<rparr>)"
| sys_work: "i < length (sy_workers s) \<Longrightarrow>
    work_step (sy_next s) (sy_workers s ! i) (sy_shared s) pc' sh' \<Longrightarrow>
    sys_step cn s (s\<lparr>sy_shared := sh', sy_workers := (sy_workers s)[i := pc'], sy_next := Suc (sy_next s)\<rparr>)"
| sys_can: "i < length (sy_cans s) \<Longrightarrow> cancel_step cn (sy_cans s ! i) (sy_shared s) pc' sh' \<Longrightarrow>
    sys_step cn s (s\<lparr>sy_shared := sh', sy_cans := (sy_cans s)[i := pc']\<rparr>)"
| sys_tick: "sy_shared s = (e, u) \<Longrightarrow> 0 \<le> d \<Longrightarrow>
    sys_step cn s (s\<lparr>sy_shared := (e, u\<lparr>wd_clock := wd_clock u + d\<rparr>)\<rparr>)"
| sys_shutdown: "sy_shared s = (e, u) \<Longrightarrow>
    sys_step cn s (s\<lparr>sy_shared := (e, cancel_ctx Parent u)\<rparr>)"
| sys_outer: "sy_shared s = (e, u) \<Longrightarrow> outer u u' \<Longrightarrow>
    sys_step cn s (s\<lparr>sy_shared := (e, u')\<rparr>)"

lemma outer_emit [simp]: "outer u (emit m u)"
  unfolding outer_def emit_def
  by (intro exI [of _ "wd_faults u"] exI [of _ "wd_metrics u @ [m]"] exI [of _ "wd_stdout u"]
      exI [of _ "wd_audit_file u"]) simp

lemma outer_trans: "outer u v \<Longrightarrow> outer v w \<Longrightarrow> outer u w"
  unfolding outer_def by (elim exE) (simp only:, auto)

text \<open>The start: idle threads over an executor as \<open>New\<close> makes it.\<close>

definition sys_init :: "'a Sys \<Rightarrow> bool" where
  "sys_init s \<longleftrightarrow>
     gate_ok (ex_gate (fst (sy_shared s))) \<and> g_len (ex_gate (fst (sy_shared s))) = 0 \<and>
     ex_queue (fst (sy_shared s)) = [] \<and> ex_cancels (fst (sy_shared s)) = (\<lambda>_. None) \<and>
     list_all (\<lambda>pc. pc = SubIdle) (sy_subs s) \<and> list_all (\<lambda>pc. pc = WIdle) (sy_workers s) \<and>
     list_all (\<lambda>pc. pc = CanIdle) (sy_cans s)"

definition reachable :: "('a world_executor \<Rightarrow> 'a World_scheme Canceller) \<Rightarrow> 'a Sys \<Rightarrow> 'a Sys \<Rightarrow> bool" where
  "reachable cn s0 s \<longleftrightarrow> (sys_step cn)\<^sup>*\<^sup>* s0 s"

section \<open>Slots\<close>

text \<open>The slots a thread holds.\<close>

fun sub_slots :: "submit_pc \<Rightarrow> nat" where
  "sub_slots SubIdle = 0" | "sub_slots (SubFailing _) = 0" | "sub_slots _ = 1"

fun work_slots :: "worker_pc \<Rightarrow> nat" where
  "work_slots WIdle = 0" | "work_slots WStopped = 0" | "work_slots _ = 1"

definition slots_held :: "'a Sys \<Rightarrow> nat" where
  "slots_held s = sum_list (map sub_slots (sy_subs s)) + length (ex_queue (fst (sy_shared s)))
     + sum_list (map work_slots (sy_workers s))"

definition slots_ok :: "'a Sys \<Rightarrow> bool" where
  "slots_ok s \<longleftrightarrow> gate_ok (ex_gate (fst (sy_shared s))) \<and> g_len (ex_gate (fst (sy_shared s))) = int (slots_held s)"

lemma Release_pos: "0 < g_len g \<Longrightarrow> Release g = g\<lparr>g_len := g_len g - 1\<rparr>"
  by (simp add: Release_def)

lemma sub_step_slots:
  assumes "sub_step pc (e, u) pc' (e', u')" and "gate_ok (ex_gate e)"
    and "int (sub_slots pc) \<le> g_len (ex_gate e)"
  shows "g_len (ex_gate e') + int (sub_slots pc + length (ex_queue e)) =
      g_len (ex_gate e) + int (sub_slots pc' + length (ex_queue e')) \<and>
    gate_ok (ex_gate e') \<and> g_cap (ex_gate e') = g_cap (ex_gate e) \<and> ex_cfg e' = ex_cfg e"
  using assms
  by (cases rule: sub_step.cases)
    (auto simp: Release_pos gate_ok_def dest!: Acquire_cases Enqueue_cases)

lemma work_step_slots:
  assumes "work_step k pc (e, u) pc' (e', u')" and "gate_ok (ex_gate e)"
    and "int (work_slots pc) \<le> g_len (ex_gate e)"
  shows "g_len (ex_gate e') + int (work_slots pc + length (ex_queue e)) =
      g_len (ex_gate e) + int (work_slots pc' + length (ex_queue e')) \<and>
    gate_ok (ex_gate e') \<and> g_cap (ex_gate e') = g_cap (ex_gate e) \<and> ex_cfg e' = ex_cfg e"
  using assms
  by (cases rule: work_step.cases)
    (auto simp: Release_pos gate_ok_def register_def unregister_def)

lemma cancel_step_exec: "cancel_step cn pc (e, u) pc' (e', u') \<Longrightarrow> e' = e"
  by (cases rule: cancel_step.cases) auto

lemma init_zero: "list_all (\<lambda>pc. pc = x) xs \<Longrightarrow> f x = 0 \<Longrightarrow> sum_list (map f xs) = (0 :: 'b::comm_monoid_add)"
  by (induction xs) auto

lemma slots_init: "sys_init s \<Longrightarrow> slots_ok s"
proof -
  assume init: "sys_init s"
  then have "sum_list (map sub_slots (sy_subs s)) = 0" "sum_list (map work_slots (sy_workers s)) = 0"
    using init_zero [of SubIdle "sy_subs s" sub_slots] init_zero [of WIdle "sy_workers s" work_slots]
    by (simp_all add: sys_init_def del: sum_list_eq_0_iff)
  with init show ?thesis by (simp add: sys_init_def slots_ok_def slots_held_def del: sum_list_eq_0_iff)
qed

lemma slots_step:
  assumes "sys_step cn s s'" and ok: "slots_ok s"
  shows "slots_ok s' \<and> g_cap (ex_gate (fst (sy_shared s'))) = g_cap (ex_gate (fst (sy_shared s)))
    \<and> ex_cfg (fst (sy_shared s')) = ex_cfg (fst (sy_shared s))"
  using assms(1)
proof (cases rule: sys_step.cases)
  case (sys_sub i pc' sh')
  obtain e u e' u' where sh: "sy_shared s = (e, u)" "sh' = (e', u')" by (metis surj_pair)
  have g: "gate_ok (ex_gate e)" "g_len (ex_gate e) = int (slots_held s)"
    using ok sh by (simp_all add: slots_ok_def)
  have "int (sub_slots (sy_subs s ! i)) \<le> g_len (ex_gate e)"
    using sum_list_member [OF sys_sub(2), of sub_slots] g(2) by (simp add: slots_held_def)
  from sub_step_slots [OF sys_sub(3) [unfolded sh] g(1) this]
    sum_list_replace [OF sys_sub(2), of sub_slots pc'] g(2)
  show ?thesis by (simp add: sys_sub(1) slots_ok_def slots_held_def sh)
next
  case (sys_work i pc' sh')
  obtain e u e' u' where sh: "sy_shared s = (e, u)" "sh' = (e', u')" by (metis surj_pair)
  have g: "gate_ok (ex_gate e)" "g_len (ex_gate e) = int (slots_held s)"
    using ok sh by (simp_all add: slots_ok_def)
  have "int (work_slots (sy_workers s ! i)) \<le> g_len (ex_gate e)"
    using sum_list_member [OF sys_work(2), of work_slots] g(2) by (simp add: slots_held_def)
  from work_step_slots [OF sys_work(3) [unfolded sh] g(1) this]
    sum_list_replace [OF sys_work(2), of work_slots pc'] g(2)
  show ?thesis by (simp add: sys_work(1) slots_ok_def slots_held_def sh)
next
  case (sys_can i pc' sh')
  obtain e u e' u' where sh: "sy_shared s = (e, u)" "sh' = (e', u')" by (metis surj_pair)
  from cancel_step_exec [OF sys_can(3) [unfolded sh]] ok show ?thesis
    by (simp add: sys_can(1) slots_ok_def slots_held_def sh)
next
  case (sys_tick e u d)
  with ok show ?thesis by (simp add: slots_ok_def slots_held_def)
next
  case (sys_shutdown e u)
  with ok show ?thesis by (simp add: slots_ok_def slots_held_def)
next
  case (sys_outer e u u')
  with ok show ?thesis by (simp add: slots_ok_def slots_held_def)
qed

lemma slots_reachable:
  assumes "reachable cn s0 s" and "sys_init s0"
  shows "slots_ok s \<and> g_cap (ex_gate (fst (sy_shared s))) = g_cap (ex_gate (fst (sy_shared s0)))
    \<and> ex_cfg (fst (sy_shared s)) = ex_cfg (fst (sy_shared s0))"
  using assms(1) unfolding reachable_def
proof (induction rule: rtranclp_induct)
  case base
  then show ?case using slots_init [OF assms(2)] by simp
next
  case (step s1 s2)
  with slots_step [OF step(2)] show ?case by simp
qed

section \<open>Slots and the queue\<close>

text \<open>With a queue as long as the gate is wide, an admitted task always finds room.\<close>

lemma enqueue_has_room:
  assumes ok: "slots_ok s" and i: "i < length (sy_subs s)" "sy_subs s ! i = SubCreated tid"
    and cap: "g_cap (ex_gate (fst (sy_shared s))) \<le> ec_QueueBuffer (ex_cfg (fst (sy_shared s)))"
  shows "\<exists>e' u'. Enqueue tid' (fst (sy_shared s)) u = (None, e', u')"
proof -
  let ?e = "fst (sy_shared s)"
  have "1 \<le> sum_list (map sub_slots (sy_subs s))"
    using sum_list_member [OF i(1), of sub_slots] i(2) by simp
  then have "length (ex_queue ?e) + 1 \<le> slots_held s" by (simp add: slots_held_def)
  moreover have "int (slots_held s) \<le> g_cap (ex_gate ?e)" using ok by (auto simp: slots_ok_def gate_ok_def)
  ultimately have "int (length (ex_queue ?e)) < ec_QueueBuffer (ex_cfg ?e)" using cap by linarith
  then show ?thesis by (simp add: Enqueue_def Let_def)
qed

end
