(* ===== verification/System_Invariant.thy ===== *)
theory System_Invariant
  imports System "HOL-Library.Multiset"
begin

text \<open>
  What holds in every state the running service can reach: no task has two owners, the registry
  and the contexts belong to the workers that are in their tasks, and completed, partial and
  failed tasks keep their status. The locale \<open>sys_env\<close> states what the threads rely on of the
  store, the canceller and a run.
\<close>

section \<open>Owners\<close>

text \<open>The tasks a thread owns: only it may change their status, apart from a cancellation.\<close>

fun sub_ids :: "submit_pc \<Rightarrow> string multiset" where
  "sub_ids (SubCreated tid) = {#tid#}"
| "sub_ids (SubFull tid) = {#tid#}"
| "sub_ids (SubFailing tid) = {#tid#}"
| "sub_ids _ = {#}"

fun work_ids :: "worker_pc \<Rightarrow> string multiset" where
  "work_ids WIdle = {#}"
| "work_ids WStopped = {#}"
| "work_ids (WTaken tid) = {#tid#}"
| "work_ids (WGet tid j) = {#tid#}"
| "work_ids (WStart tid j t) = {#tid#}"
| "work_ids (WAbort tid j) = {#tid#}"
| "work_ids (WRun tid j t) = {#tid#}"
| "work_ids (WFinal tid j t r) = {#tid#}"
| "work_ids (WUnregister tid j) = {#tid#}"
| "work_ids (WCancelCtx tid j) = {#tid#}"
| "work_ids (WRelease tid) = {#tid#}"

text \<open>What the tasks must look like for a thread to be where it is.\<close>

definition status_in :: "tasks \<Rightarrow> string \<Rightarrow> Status set \<Rightarrow> bool" where
  "status_in m tid A \<longleftrightarrow> (\<exists>t. m tid = Some t \<and> t_Status t \<in> A)"

fun sub_life :: "tasks \<Rightarrow> submit_pc \<Rightarrow> bool" where
  "sub_life m (SubAdmitted t) \<longleftrightarrow> t_Status t = StatusQueued \<and> storable_scope (t_Scope t)"
| "sub_life m (SubCreated tid) \<longleftrightarrow> status_in m tid {StatusQueued, StatusCancelled}"
| "sub_life m (SubFull tid) \<longleftrightarrow> status_in m tid {StatusQueued, StatusCancelled}"
| "sub_life m (SubFailing tid) \<longleftrightarrow> status_in m tid {StatusQueued, StatusCancelled}"
| "sub_life m _ \<longleftrightarrow> True"

fun run_status_ok :: "run_result \<Rightarrow> bool" where
  "run_status_ok (status, _) \<longleftrightarrow> status \<in> {StatusCompleted, StatusPartial, StatusFailed}"

fun work_life :: "tasks \<Rightarrow> worker_pc \<Rightarrow> bool" where
  "work_life m (WTaken tid) \<longleftrightarrow> status_in m tid {StatusQueued, StatusCancelled}"
| "work_life m (WGet tid j) \<longleftrightarrow> status_in m tid {StatusQueued, StatusCancelled}"
| "work_life m (WStart tid j t) \<longleftrightarrow> status_in m tid {StatusQueued, StatusCancelled}"
| "work_life m (WAbort tid j) \<longleftrightarrow> status_in m tid {StatusQueued, StatusRunning, StatusCancelled}"
| "work_life m (WRun tid j t) \<longleftrightarrow> status_in m tid {StatusRunning, StatusCancelled}"
| "work_life m (WFinal tid j t r) \<longleftrightarrow> status_in m tid {StatusRunning, StatusCancelled} \<and> run_status_ok r"
| "work_life m (WUnregister tid j) \<longleftrightarrow> status_in m tid UNIV"
| "work_life m (WCancelCtx tid j) \<longleftrightarrow> status_in m tid UNIV"
| "work_life m (WRelease tid) \<longleftrightarrow> status_in m tid UNIV"
| "work_life m _ \<longleftrightarrow> True"

text \<open>Submit requests and workers together.\<close>

type_synonym thread = "submit_pc + worker_pc"

definition threads :: "'a Sys \<Rightarrow> thread list" where
  "threads s = map Inl (sy_subs s) @ map Inr (sy_workers s)"

definition ids_of :: "thread \<Rightarrow> string multiset" where
  "ids_of t = (case t of Inl pc \<Rightarrow> sub_ids pc | Inr pc \<Rightarrow> work_ids pc)"

definition life_of :: "tasks \<Rightarrow> thread \<Rightarrow> bool" where
  "life_of m t \<longleftrightarrow> (case t of Inl pc \<Rightarrow> sub_life m pc | Inr pc \<Rightarrow> work_life m pc)"

text \<open>What others may do to a task: create it, or cancel it while it is queued or running.\<close>

definition cancels :: "Task \<Rightarrow> Task \<Rightarrow> bool" where
  "cancels t t' \<longleftrightarrow> t_Status t \<in> {StatusQueued, StatusRunning} \<and> t_Status t' = StatusCancelled"

definition drift :: "string set \<Rightarrow> tasks \<Rightarrow> tasks \<Rightarrow> bool" where
  "drift A m m' \<longleftrightarrow>
     (\<forall>tid. tid \<notin> A \<longrightarrow> m' tid = m tid \<or> m tid = None \<and> status_in m' tid {StatusQueued} \<or>
        (\<exists>t t'. m tid = Some t \<and> m' tid = Some t' \<and> cancels t t'))"

lemma drift_refl [simp]: "drift A m m"
  by (simp add: drift_def)

lemma drift_touched:
  assumes "touched tid f m m'" and "tid \<in> A"
  shows "drift A m m'"
  unfolding drift_def using touched_other [OF assms(1)] assms(2) by metis

lemma drift_new: "m tid = None \<Longrightarrow> t_Status t = StatusQueued \<Longrightarrow> drift A m (m(tid \<mapsto> t))"
  by (simp add: drift_def status_in_def)

lemma drift_cancelled:
  assumes "touched tid (set_status StatusCancelled) m m'" and "m tid = Some t"
    and "t_Status t \<in> {StatusQueued, StatusRunning}"
  shows "drift A m m'"
proof -
  from touched_Some [OF assms(1,2)] obtain n where
    m': "m' = m(tid \<mapsto> (set_status StatusCancelled t)\<lparr>t_UpdatedAt := n\<rparr>)" by blast
  have "cancels t ((set_status StatusCancelled t)\<lparr>t_UpdatedAt := n\<rparr>)"
    using assms(3) by (simp add: cancels_def set_status_def)
  with assms(2) m' show ?thesis by (simp add: drift_def)
qed

lemma status_in_drift:
  assumes "status_in m tid B" and "drift A m m'" and "tid \<notin> A" and "StatusCancelled \<in> B"
  shows "status_in m' tid B"
  using assms by (auto simp: status_in_def drift_def cancels_def)

lemma sub_life_drift: "sub_life m pc \<Longrightarrow> drift A m m' \<Longrightarrow> set_mset (sub_ids pc) \<inter> A = {} \<Longrightarrow> sub_life m' pc"
  by (cases pc) (auto elim: status_in_drift)

lemma work_life_drift: "work_life m pc \<Longrightarrow> drift A m m' \<Longrightarrow> set_mset (work_ids pc) \<inter> A = {} \<Longrightarrow> work_life m' pc"
  by (cases pc) (auto elim: status_in_drift)

lemma status_in_touched:
  "touched tid f m m' \<Longrightarrow> status_in m tid B \<Longrightarrow> (\<And>t. t_Status t \<in> B \<Longrightarrow> t_Status (f t) \<in> C) \<Longrightarrow>
   status_in m' tid C"
  by (auto simp: touched_def status_in_def)

lemma status_in_mono: "status_in m tid B \<Longrightarrow> B \<subseteq> C \<Longrightarrow> status_in m tid C"
  by (auto simp: status_in_def)

lemma life_of_drift: "life_of m t \<Longrightarrow> drift A m m' \<Longrightarrow> set_mset (ids_of t) \<inter> A = {} \<Longrightarrow> life_of m' t"
  by (auto simp: life_of_def ids_of_def split: sum.splits elim: sub_life_drift work_life_drift)

lemma life_of_exists: "life_of m t \<Longrightarrow> tid \<in># ids_of t \<Longrightarrow> m tid \<noteq> None"
proof -
  have "sub_life m pc \<Longrightarrow> tid \<in># sub_ids pc \<Longrightarrow> m tid \<noteq> None" for pc
    by (cases pc) (auto simp: status_in_def)
  moreover have "work_life m pc \<Longrightarrow> tid \<in># work_ids pc \<Longrightarrow> m tid \<noteq> None" for pc
    by (cases pc) (auto simp: status_in_def)
  ultimately show "life_of m t \<Longrightarrow> tid \<in># ids_of t \<Longrightarrow> m tid \<noteq> None"
    by (auto simp: life_of_def ids_of_def split: sum.splits)
qed

section \<open>No task has two owners\<close>

lemma in_sum_list_mset: "x \<in># sum_list (map f xs) \<longleftrightarrow> (\<exists>y \<in> set xs. x \<in># f y)"
  by (induction xs) auto

lemma sum_list_two:
  "i < length xs \<Longrightarrow> j < length xs \<Longrightarrow> i \<noteq> j \<Longrightarrow> count (f (xs ! i)) x + count (f (xs ! j)) x \<le>
   count (sum_list (map f xs)) x"
proof (induction xs arbitrary: i j)
  case Nil
  then show ?case by simp
next
  case (Cons y ys)
  have one: "k < length ys \<Longrightarrow> count (f (ys ! k)) x \<le> count (sum_list (map f ys)) x" for k
    by (induction ys arbitrary: k) (auto simp: less_Suc_eq_0_disj trans_le_add1 trans_le_add2)
  from Cons show ?case
    by (cases i; cases j) (auto simp: one trans_le_add2)
qed

text \<open>Replacing a thread's share keeps counts at most one if the new share is part of the old
  one, or has one more identifier that no thread had.\<close>

lemma count_exchange:
  assumes eq: "M' + A = M + (B :: 'b multiset)" and "\<forall>x. count M x \<le> 1"
    and alt: "B \<subseteq># A \<or> (\<exists>y. B = add_mset y A \<and> y \<notin># M)"
  shows "\<forall>x. count M' x \<le> 1"
  using alt
proof
  assume "B \<subseteq># A"
  show ?thesis
  proof
    fix x
    have "count M' x + count A x = count M x + count B x" using eq by (metis count_union)
    moreover have "count B x \<le> count A x" using \<open>B \<subseteq># A\<close> by (rule mset_subset_eq_count)
    ultimately show "count M' x \<le> 1" using assms(2) [rule_format, of x] by simp
  qed
next
  assume "\<exists>y. B = add_mset y A \<and> y \<notin># M"
  then obtain y where y: "B = add_mset y A" "y \<notin># M" by blast
  with eq have "M' = add_mset y M" by simp
  with assms(2) y(2) show ?thesis by (auto simp: not_in_iff)
qed

definition owners_ok :: "tasks \<Rightarrow> string list \<Rightarrow> thread list \<Rightarrow> bool" where
  "owners_ok m q T \<longleftrightarrow>
     (\<forall>x. count (sum_list (map ids_of T) + mset q) x \<le> 1) \<and> (\<forall>j < length T. life_of m (T ! j)) \<and>
     (\<forall>tid \<in> set q. status_in m tid {StatusQueued, StatusCancelled})"

lemma owners_exist: "owners_ok m q T \<Longrightarrow> x \<in># sum_list (map ids_of T) + mset q \<Longrightarrow> m x \<noteq> None"
proof -
  assume ok: "owners_ok m q T" and x: "x \<in># sum_list (map ids_of T) + mset q"
  show "m x \<noteq> None"
  proof (cases "x \<in> set q")
    case True
    with ok show ?thesis by (auto simp: owners_ok_def status_in_def)
  next
    case False
    with x obtain t where "t \<in> set T" "x \<in># ids_of t" by (auto simp: in_sum_list_mset)
    with ok life_of_exists show ?thesis by (metis in_set_conv_nth owners_ok_def)
  qed
qed

lemma counted_in_one:
  assumes "\<forall>x. count (sum_list (map f T)) x \<le> 1" and "j < length T" "i < length T" "j \<noteq> i"
    and "x \<in># f (T ! j)" "x \<in># f (T ! i)"
  shows False
proof -
  have "1 \<le> count (f (T ! j)) x" "1 \<le> count (f (T ! i)) x" using assms(5,6) by (simp_all add: Suc_le_eq)
  with sum_list_two [OF assms(2,3,4), of f x] assms(1) [rule_format, of x] show False by simp
qed

lemma owners_step:
  assumes ok: "owners_ok m q T" and i: "i < length T"
    and drift: "drift (set_mset (ids_of (T ! i))) m m'" and life: "life_of m' t'"
    and ids: "ids_of t' + mset q' \<subseteq># ids_of (T ! i) + mset q \<or>
      (\<exists>tid. ids_of t' + mset q' = add_mset tid (ids_of (T ! i) + mset q) \<and> m tid = None)"
    and new: "\<forall>tid \<in> set q'. tid \<in> set q \<or> status_in m' tid {StatusQueued, StatusCancelled}"
  shows "owners_ok m' q' (T[i := t'])"
proof -
  let ?M = "sum_list (map ids_of T) + mset q"
  have one: "\<forall>x. count ?M x \<le> 1" using ok by (simp add: owners_ok_def)
  have "sum_list (map ids_of (T[i := t'])) + mset q' + (ids_of (T ! i) + mset q) =
      ?M + (ids_of t' + mset q')"
    using sum_list_replace [OF i, of ids_of t'] by (simp add: ac_simps)
  moreover have "ids_of t' + mset q' \<subseteq># ids_of (T ! i) + mset q \<or>
      (\<exists>y. ids_of t' + mset q' = add_mset y (ids_of (T ! i) + mset q) \<and> y \<notin># ?M)"
    using ids owners_exist [OF ok] by metis
  ultimately have counts: "\<forall>x. count (sum_list (map ids_of (T[i := t'])) + mset q') x \<le> 1"
    using count_exchange one by blast
  have "life_of m' (T[i := t'] ! j)" if j: "j < length T" for j
  proof (cases "j = i")
    case True
    with life i show ?thesis by simp
  next
    case False
    have "\<forall>x. count (sum_list (map ids_of T)) x \<le> 1" using one by (auto dest: le_trans [OF le_add1])
    from counted_in_one [OF this j i False] have "set_mset (ids_of (T ! j)) \<inter> set_mset (ids_of (T ! i)) = {}"
      by blast
    with life_of_drift [OF _ drift, of "T ! j"] False ok j show ?thesis by (simp add: owners_ok_def)
  qed
  moreover have "status_in m' tid {StatusQueued, StatusCancelled}" if "tid \<in> set q" for tid
  proof -
    have "tid \<notin># ids_of (T ! i)"
    proof
      assume "tid \<in># ids_of (T ! i)"
      with i have "tid \<in># sum_list (map ids_of T)" by (auto simp: in_sum_list_mset)
      moreover have "tid \<in># mset q" using that by simp
      ultimately have "1 \<le> count (sum_list (map ids_of T)) tid" "1 \<le> count (mset q) tid"
        by (simp_all only: count_greater_eq_one_iff)
      with one [rule_format, of tid] show False by simp
    qed
    with status_in_drift [OF _ drift] ok that show ?thesis by (simp add: owners_ok_def)
  qed
  ultimately show ?thesis using counts new by (auto simp: owners_ok_def)
qed

section \<open>The registry\<close>

text \<open>The entry a worker has in the registry, and the number of the context it holds.\<close>

fun entry :: "worker_pc \<Rightarrow> (string \<times> nat) option" where
  "entry (WGet tid j) = Some (tid, j)"
| "entry (WStart tid j t) = Some (tid, j)"
| "entry (WAbort tid j) = Some (tid, j)"
| "entry (WRun tid j t) = Some (tid, j)"
| "entry (WFinal tid j t r) = Some (tid, j)"
| "entry (WUnregister tid j) = Some (tid, j)"
| "entry _ = None"

fun ctxs :: "worker_pc \<Rightarrow> nat multiset" where
  "ctxs (WCancelCtx tid j) = {#j#}"
| "ctxs pc = (case entry pc of None \<Rightarrow> {#} | Some (tid, j) \<Rightarrow> {#j#})"

definition registry_ok :: "'a world_executor \<Rightarrow> worker_pc list \<Rightarrow> bool" where
  "registry_ok e W \<longleftrightarrow>
     (\<forall>j < length W. \<forall>tid k. entry (W ! j) = Some (tid, k) \<longrightarrow> ex_cancels e tid = Some (TaskCtx k)) \<and>
     (\<forall>tid c. ex_cancels e tid = Some c \<longrightarrow> (\<exists>j < length W. \<exists>k. entry (W ! j) = Some (tid, k) \<and> c = TaskCtx k))"

definition contexts_ok :: "nat \<Rightarrow> worker_pc list \<Rightarrow> bool" where
  "contexts_ok n W \<longleftrightarrow>
     (\<forall>k. count (sum_list (map ctxs W)) k \<le> 1) \<and> (\<forall>k. k \<in># sum_list (map ctxs W) \<longrightarrow> k < n)"

lemma entry_id: "entry pc = Some (tid, j) \<Longrightarrow> tid \<in># work_ids pc \<and> j \<in># ctxs pc"
  by (cases pc) auto

lemma work_step_entry:
  assumes "work_step k pc (e, u) pc' (e', u')"
  shows "entry pc' = entry pc \<and> ex_cancels e' = ex_cancels e
    \<or> (\<exists>tid. entry pc = None \<and> entry pc' = Some (tid, k) \<and> tid \<in># work_ids pc \<and>
         ex_cancels e' = (ex_cancels e)(tid \<mapsto> TaskCtx k))
    \<or> (\<exists>tid j. entry pc = Some (tid, j) \<and> entry pc' = None \<and> ex_cancels e' = (ex_cancels e)(tid := None))"
  using assms by (cases rule: work_step.cases) (auto simp: register_def unregister_def)

lemma work_step_ctxs:
  assumes "work_step k pc (e, u) pc' (e', u')"
  shows "ctxs pc' \<subseteq># ctxs pc \<or> ctxs pc = {#} \<and> ctxs pc' = {#k#}"
  using assms by (cases rule: work_step.cases) auto

lemma contexts_step:
  assumes ok: "contexts_ok n W" and i: "i < length W"
    and st: "ctxs pc' \<subseteq># ctxs (W ! i) \<or> ctxs (W ! i) = {#} \<and> ctxs pc' = {#n#}"
  shows "contexts_ok (Suc n) (W[i := pc'])"
proof -
  let ?M = "sum_list (map ctxs W)" and ?M' = "sum_list (map ctxs (W[i := pc']))"
  have eq: "?M' + ctxs (W ! i) = ?M + ctxs pc'" using sum_list_replace [OF i, of ctxs pc'] .
  have "n \<notin># ?M" using ok by (auto simp: contexts_ok_def)
  with st have "ctxs pc' \<subseteq># ctxs (W ! i) \<or> (\<exists>y. ctxs pc' = add_mset y (ctxs (W ! i)) \<and> y \<notin># ?M)"
    by auto
  with count_exchange [OF eq] ok have "\<forall>k. count ?M' k \<le> 1" by (auto simp: contexts_ok_def)
  moreover have "k < Suc n" if "k \<in># ?M'" for k
  proof -
    have "k \<in># ?M + ctxs pc'" using that eq by (metis union_iff)
    moreover have "k \<in># ctxs pc' \<Longrightarrow> k \<in># ?M \<or> k = n"
      using st i by (auto simp: in_sum_list_mset dest: mset_subset_eqD)
    ultimately show ?thesis using ok by (auto simp: contexts_ok_def less_Suc_eq)
  qed
  ultimately show ?thesis by (simp add: contexts_ok_def)
qed

lemma registry_entry:
  "registry_ok e W \<Longrightarrow> j < length W \<Longrightarrow> entry (W ! j) = Some (tid, n) \<Longrightarrow> ex_cancels e tid = Some (TaskCtx n)"
  by (simp add: registry_ok_def)

lemma registry_owner:
  "registry_ok e W \<Longrightarrow> ex_cancels e tid = Some c \<Longrightarrow>
   \<exists>j < length W. \<exists>k. entry (W ! j) = Some (tid, k) \<and> c = TaskCtx k"
  by (simp add: registry_ok_def)

lemma registry_add:
  assumes ok: "registry_ok e W" and i: "i < length W" "entry (W ! i) = None" "entry pc' = Some (tid, k)"
    and alone: "\<And>j tid' n. j < length W \<Longrightarrow> j \<noteq> i \<Longrightarrow> entry (W ! j) = Some (tid', n) \<Longrightarrow> tid' \<noteq> tid"
    and new: "ex_cancels e' = (ex_cancels e)(tid \<mapsto> TaskCtx k)"
  shows "registry_ok e' (W[i := pc'])"
  unfolding registry_ok_def length_list_update
proof (intro conjI allI impI)
  fix j tid' n assume j: "j < length W" and en: "entry (W[i := pc'] ! j) = Some (tid', n)"
  show "ex_cancels e' tid' = Some (TaskCtx n)"
    using registry_entry [OF ok j, of tid' n] alone [OF j, of tid' n] en new i by (cases "j = i") auto
next
  fix tid' c assume c: "ex_cancels e' tid' = Some c"
  show "\<exists>j < length W. \<exists>k. entry (W[i := pc'] ! j) = Some (tid', k) \<and> c = TaskCtx k"
  proof (cases "tid' = tid")
    case True
    with c new i show ?thesis by (intro exI [of _ i]) simp
  next
    case False
    with c new have "ex_cancels e tid' = Some c" by simp
    from registry_owner [OF ok this] obtain j n where
      j: "j < length W" "entry (W ! j) = Some (tid', n)" "c = TaskCtx n" by blast
    moreover have "j \<noteq> i" using j i(2) by auto
    ultimately show ?thesis by (intro exI [of _ j]) simp
  qed
qed

lemma registry_del:
  assumes ok: "registry_ok e W" and i: "i < length W" "entry (W ! i) = Some (tid, k)" "entry pc' = None"
    and alone: "\<And>j tid' n. j < length W \<Longrightarrow> j \<noteq> i \<Longrightarrow> entry (W ! j) = Some (tid', n) \<Longrightarrow> tid' \<noteq> tid"
    and new: "ex_cancels e' = (ex_cancels e)(tid := None)"
  shows "registry_ok e' (W[i := pc'])"
  unfolding registry_ok_def length_list_update
proof (intro conjI allI impI)
  fix j tid' n assume j: "j < length W" and en: "entry (W[i := pc'] ! j) = Some (tid', n)"
  show "ex_cancels e' tid' = Some (TaskCtx n)"
    using registry_entry [OF ok j, of tid' n] alone [OF j, of tid' n] en new i by (cases "j = i") auto
next
  fix tid' c assume c: "ex_cancels e' tid' = Some c"
  with new have ne: "tid' \<noteq> tid" "ex_cancels e tid' = Some c" by (auto split: if_splits)
  from registry_owner [OF ok ne(2)] obtain j n where
    j: "j < length W" "entry (W ! j) = Some (tid', n)" "c = TaskCtx n" by blast
  moreover have "j \<noteq> i" using j i(2) ne by auto
  ultimately show "\<exists>j < length W. \<exists>k. entry (W[i := pc'] ! j) = Some (tid', k) \<and> c = TaskCtx k"
    by (intro exI [of _ j]) simp
qed

lemma registry_step:
  assumes ok: "registry_ok e W" and i: "i < length W"
    and one: "\<forall>x. count (sum_list (map work_ids W)) x \<le> 1"
    and st: "work_step k (W ! i) (e, u) pc' (e', u')"
  shows "registry_ok e' (W[i := pc'])"
proof -
  have alone: "tid' \<noteq> tid" if "tid \<in># work_ids (W ! i)" "j < length W" "j \<noteq> i"
    "entry (W ! j) = Some (tid', n)" for j tid tid' n
    using counted_in_one [OF one that(2) i that(3)] entry_id [OF that(4)] that(1) by metis
  from work_step_entry [OF st] consider
    (same) "entry pc' = entry (W ! i)" "ex_cancels e' = ex_cancels e"
  | (add) tid where "entry (W ! i) = None" "entry pc' = Some (tid, k)" "tid \<in># work_ids (W ! i)"
      "ex_cancels e' = (ex_cancels e)(tid \<mapsto> TaskCtx k)"
  | (del) tid j where "entry (W ! i) = Some (tid, j)" "entry pc' = None"
      "ex_cancels e' = (ex_cancels e)(tid := None)"
    by blast
  then show ?thesis
  proof cases
    case same
    have "entry (W[i := pc'] ! j) = entry (W ! j)" if "j < length W" for j
      using same(1) that i by (cases "j = i") simp_all
    then have "\<forall>j < length W. entry (W[i := pc'] ! j) = entry (W ! j)" by blast
    with ok same(2) show ?thesis
      unfolding registry_ok_def length_list_update by (simp cong: conj_cong)
  next
    case add
    show ?thesis by (rule registry_add [OF ok i add(1,2) _ add(4)]) (rule alone [OF add(3)])
  next
    case del
    show ?thesis
      by (rule registry_del [OF ok i del(1,2) _ del(3)]) (rule alone [OF entry_id [OF del(1), THEN conjunct1]])
  qed
qed

section \<open>The environment of the system\<close>

text \<open>The fields of the executor no thread writes.\<close>

definition same_static :: "'w Executor \<Rightarrow> 'w Executor \<Rightarrow> bool" where
  "same_static e0 e \<longleftrightarrow>
     e = e0\<lparr>ex_gate := ex_gate e, ex_queue := ex_queue e, ex_cancels := ex_cancels e\<rparr>"

lemma same_static_upd [simp]:
  "same_static e0 e \<Longrightarrow> same_static e0 (e\<lparr>ex_gate := g\<rparr>)"
  "same_static e0 e \<Longrightarrow> same_static e0 (e\<lparr>ex_queue := q\<rparr>)"
  "same_static e0 e \<Longrightarrow> same_static e0 (e\<lparr>ex_cancels := cs\<rparr>)"
  by (cases e; cases e0; simp add: same_static_def)+

lemma same_static_store: "same_static e0 e \<Longrightarrow> ex_store e = ex_store e0 \<and> ex_audit e = ex_audit e0"
  by (cases e; cases e0; simp add: same_static_def)

locale sys_env = task_store "ex_store e0" tasks invar
  for e0 :: "'a world_executor" and tasks :: "'a World_scheme \<Rightarrow> tasks"
    and invar :: "'a World_scheme \<Rightarrow> bool" +
  fixes cn :: "'a world_executor \<Rightarrow> 'a World_scheme Canceller"
  assumes outer_tasks: "outer u u' \<Longrightarrow> tasks u' = tasks u \<and> (invar u \<longrightarrow> invar u')"
    and ctx_tasks: "tasks (cancel_ctx c u) = tasks u \<and> (invar u \<longrightarrow> invar (cancel_ctx c u))"
    and clock_tasks: "tasks (u\<lparr>wd_clock := n\<rparr>) = tasks u \<and> (invar u \<longrightarrow> invar (u\<lparr>wd_clock := n\<rparr>))"
    and run_tasks: "same_static e0 e \<Longrightarrow> run e c t u = (r, u') \<Longrightarrow> tasks u' = tasks u \<and> (invar u \<longrightarrow> invar u')"
    and audit_tasks: "ex_audit e0 = Some logev \<Longrightarrow> tasks (logev ev u) = tasks u \<and> (invar u \<longrightarrow> invar (logev ev u))"
    and cancel_store: "cc_store (cn e) = ex_store e0"
    and signal_tasks: "tasks (signal (cn e) tid u) = tasks u \<and> (invar u \<longrightarrow> invar (signal (cn e) tid u))"
    and clean_tasks: "tasks (clean (cn e) tid cl u) = tasks u \<and> (invar u \<longrightarrow> invar (clean (cn e) tid cl u))"
    and caudit_tasks: "tasks (audit_cancel (cn e) tid cl rid u) = tasks u \<and>
      (invar u \<longrightarrow> invar (audit_cancel (cn e) tid cl rid u))"

context sys_env begin

lemma emit_tasks: "tasks (emit m u) = tasks u \<and> (invar u \<longrightarrow> invar (emit m u))"
  using outer_tasks [OF outer_emit] .

lemma depth_tasks: "tasks (set_queue_depth e u) = tasks u \<and> (invar u \<longrightarrow> invar (set_queue_depth e u))"
  "tasks (set_inflight e u) = tasks u \<and> (invar u \<longrightarrow> invar (set_inflight e u))"
  using emit_tasks by (simp_all add: set_queue_depth_def set_inflight_def)

text \<open>The two writes of a worker and of a failing submit, whatever the store reports.\<close>

lemma update_any:
  assumes "st_UpdateStatus (ex_store e0) c tid s u = (q, u')" and "named_status s" and "invar u"
  shows "invar u' \<and> (tasks u' = tasks u \<or> touched tid (set_status s) (tasks u) (tasks u')) \<and>
    (q = None \<longrightarrow> touched tid (set_status s) (tasks u) (tasks u'))"
proof (cases q)
  case None
  with update_ok [of c tid s u u'] update_invar [OF assms(1,3)] assms(1,2) show ?thesis by simp
next
  case (Some er)
  with update_err [of c tid s u er u'] update_invar [OF assms(1,3)] assms(1,2) show ?thesis by simp
qed

lemma final_any:
  assumes "st_Finalize (ex_store e0) c tid s n ws ec em u = (q, u')" and "named_status s" and "invar u"
  shows "invar u' \<and> (tasks u' = tasks u \<or> (\<exists>ws'. touched tid (set_final s n ws' ec em) (tasks u) (tasks u'))) \<and>
    (q = None \<longrightarrow> (\<exists>ws'. touched tid (set_final s n ws' ec em) (tasks u) (tasks u')))"
proof (cases q)
  case None
  with final_ok [of c tid s n ws ec em u u'] final_invar [OF assms(1,3)] assms(1,2) show ?thesis by auto
next
  case (Some er)
  with final_err [of c tid s n ws ec em u er u'] final_invar [OF assms(1,3)] assms(1,2) show ?thesis by auto
qed

lemma finalize_task_tasks:
  assumes "same_static e0 e" and "invar u" and "run_status_ok r"
  shows "invar (finalize_task e Parent tc tid t r u) \<and>
    (tasks (finalize_task e Parent tc tid t r u) = tasks u \<or>
     (\<exists>s n ws ec em. IsTerminal s \<and>
        touched tid (set_final s n ws ec em) (tasks u) (tasks (finalize_task e Parent tc tid t r u))))"
proof -
  obtain s n ws ec em where fr: "final_result tc r u = (s, n, ws, ec, em)" by (metis prod.exhaust)
  have tm: "IsTerminal s"
    using fr assms(3) by (cases r) (auto simp: final_result_def split: if_splits)
  let ?fc = "if ctx_Err Parent u then Background else Parent"
  obtain q u1 where f: "st_Finalize (ex_store e0) ?fc tid s n ws ec em u = (q, u1)" by fastforce
  note fa = final_any [OF f terminal_named [OF tm] assms(2)]
  have st: "ex_store e = ex_store e0" "ex_audit e = ex_audit e0"
    using same_static_store [OF assms(1)] by simp_all
  have "tasks (finalize_task e Parent tc tid t r u) = tasks u1 \<and>
      (invar u1 \<longrightarrow> invar (finalize_task e Parent tc tid t r u))"
    using f emit_tasks depth_tasks audit_tasks
    by (auto simp: finalize_task_def fr st Let_def split: option.splits)
  with fa tm show ?thesis by metis
qed

text \<open>
  What the calls of the store leave of the life of their task, on success and on every error.
\<close>

lemma get_life:
  assumes "same_static e0 e" and "st_Get (ex_store e) c tid u = (x, u')" and "invar u"
  shows "tasks u' = tasks u \<and> invar u'"
proof -
  have "st_Get (ex_store e0) c tid u = (x, u')" using assms(1,2) same_static_store by metis
  with get_frame [OF this] get_invar [OF this assms(3)] show ?thesis by simp
qed

lemma start_life:
  assumes "same_static e0 e" and "st_UpdateStatus (ex_store e) c tid StatusRunning u = (q, u')" and "invar u"
    and l: "status_in (tasks u) tid {StatusQueued, StatusCancelled}"
  shows "invar u' \<and> drift {tid} (tasks u) (tasks u') \<and>
    status_in (tasks u') tid {StatusQueued, StatusRunning, StatusCancelled} \<and>
    (q = None \<longrightarrow> status_in (tasks u') tid {StatusRunning, StatusCancelled})"
proof -
  have "st_UpdateStatus (ex_store e0) c tid StatusRunning u = (q, u')"
    using assms(1,2) same_static_store by metis
  note a = update_any [OF this _ assms(3)]
  have "status_in (tasks u') tid {StatusRunning, StatusCancelled}"
    if "touched tid (set_status StatusRunning) (tasks u) (tasks u')"
    using status_in_touched [OF that l] by (auto simp: set_status_def)
  with a have "tasks u' = tasks u \<or> status_in (tasks u') tid {StatusRunning, StatusCancelled}"
    "q = None \<longrightarrow> status_in (tasks u') tid {StatusRunning, StatusCancelled}" by auto
  moreover from this(1) have "status_in (tasks u') tid {StatusQueued, StatusRunning, StatusCancelled}"
  proof
    assume "tasks u' = tasks u"
    with status_in_mono [OF l] show ?thesis by simp
  next
    assume "status_in (tasks u') tid {StatusRunning, StatusCancelled}"
    then show ?thesis by (rule status_in_mono) simp
  qed
  moreover have "drift {tid} (tasks u) (tasks u')" using a drift_touched [of tid] by auto
  ultimately show ?thesis using a by simp
qed

lemma final_life:
  assumes "same_static e0 e" and "st_Finalize (ex_store e) c tid s n ws ec em u = (q, u')" and "invar u"
    and "named_status s" and l: "status_in (tasks u) tid A"
  shows "invar u' \<and> drift {tid} (tasks u) (tasks u') \<and> status_in (tasks u') tid UNIV"
proof -
  have "st_Finalize (ex_store e0) c tid s n ws ec em u = (q, u')"
    using assms(1,2) same_static_store by metis
  from final_any [OF this assms(4,3)] drift_touched [of tid]
    status_in_touched [OF _ l, of _ "tasks u'" UNIV] status_in_mono [OF l]
  show ?thesis by auto
qed

lemma finalize_life:
  assumes "same_static e0 e" and "invar u" and "run_status_ok r" and l: "status_in (tasks u) tid A"
  shows "invar (finalize_task e Parent tc tid t r u) \<and>
    drift {tid} (tasks u) (tasks (finalize_task e Parent tc tid t r u)) \<and>
    status_in (tasks (finalize_task e Parent tc tid t r u)) tid UNIV"
  using finalize_task_tasks [OF assms(1-3), of tc tid t] drift_touched [of tid]
    status_in_touched [OF _ l, of _ "tasks (finalize_task e Parent tc tid t r u)" UNIV] status_in_mono [OF l]
  by auto

text \<open>Each thread keeps to what it owns.\<close>

lemma sub_step_life:
  assumes "sub_step pc (e, u) pc' (e', u')" and st: "same_static e0 e" and inv: "invar u"
    and life: "sub_life (tasks u) pc"
  shows "same_static e0 e' \<and> invar u' \<and> ex_cancels e' = ex_cancels e \<and>
    drift (set_mset (sub_ids pc)) (tasks u) (tasks u') \<and> sub_life (tasks u') pc' \<and>
    (sub_ids pc' + mset (ex_queue e') \<subseteq># sub_ids pc + mset (ex_queue e) \<or>
     (\<exists>tid. sub_ids pc' + mset (ex_queue e') = add_mset tid (sub_ids pc + mset (ex_queue e)) \<and>
        tasks u tid = None)) \<and>
    (\<forall>tid \<in> set (ex_queue e'). tid \<in> set (ex_queue e) \<or>
       status_in (tasks u') tid {StatusQueued, StatusCancelled})"
  using assms(1)
proof cases
  case (sub_admit se cd wait g req rnd caller rid tot)
  with st inv show ?thesis by (simp add: new_task_def)
next
  case (sub_busy se cd wait g)
  with st inv show ?thesis by simp
next
  case (sub_create c t t')
  have S: "ex_store e = ex_store e0" using same_static_store [OF st] by simp
  have t: "t_Status t = StatusQueued" "storable_scope (t_Scope t)" "named_status (t_Status t)"
    using life sub_create by simp_all
  from create_ok [OF sub_create(4) [unfolded S] inv t(2,3)] obtain n1 n2 n3 where
    none: "tasks u (t_TaskID t) = None" and m: "tasks u' = (tasks u)(t_TaskID t \<mapsto>
      (set_final (t_Status t) 0 [] [] [] t)\<lparr>t_CreatedAt := n1, t_UpdatedAt := n2, t_ExpiresAt := n3\<rparr>)"
    by blast
  have q: "status_in (tasks u') (t_TaskID t) {StatusQueued}"
    using m t(1) by (simp add: status_in_def set_final_def)
  then have "drift {} (tasks u) (tasks u')" using none m by (simp add: drift_def)
  with sub_create st none create_invar [OF sub_create(4) [unfolded S] inv] status_in_mono [OF q]
  show ?thesis by simp
next
  case (sub_create_err c t er)
  have S: "ex_store e = ex_store e0" using same_static_store [OF st] by simp
  have t: "t_Status t = StatusQueued" "storable_scope (t_Scope t)" "named_status (t_Status t)"
    using life sub_create_err by simp_all
  have "drift {} (tasks u) (tasks u')"
    using create_err [OF sub_create_err(4) [unfolded S] inv t(2,3)] t(1)
    by (auto intro!: drift_new simp: set_final_def)
  with sub_create_err st create_invar [OF sub_create_err(4) [unfolded S] inv] show ?thesis by simp
next
  case sub_release
  with st inv show ?thesis by simp
next
  case (sub_enqueue tid)
  with Enqueue_cases [OF sub_enqueue(3)] st inv life depth_tasks(1) [of e' u]
  show ?thesis by auto
next
  case (sub_enqueue_full tid er)
  with Enqueue_cases [OF sub_enqueue_full(3)] st inv life show ?thesis by auto
next
  case (sub_full_release tid)
  with st inv life show ?thesis by simp
next
  case (sub_fail c tid q)
  have S: "ex_store e = ex_store e0" using same_static_store [OF st] by simp
  from final_any [OF sub_fail(4) [unfolded S] _ inv] drift_touched [of tid]
  have "invar u'" "drift {tid} (tasks u) (tasks u')" by auto
  with sub_fail st show ?thesis by simp
qed

lemma work_step_life:
  assumes "work_step k pc (e, u) pc' (e', u')" and st: "same_static e0 e" and inv: "invar u"
    and life: "work_life (tasks u) pc"
    and queue: "\<forall>tid \<in> set (ex_queue e). status_in (tasks u) tid {StatusQueued, StatusCancelled}"
  shows "same_static e0 e' \<and> invar u' \<and>
    drift (set_mset (work_ids pc)) (tasks u) (tasks u') \<and> work_life (tasks u') pc' \<and>
    work_ids pc' + mset (ex_queue e') \<subseteq># work_ids pc + mset (ex_queue e) \<and>
    set (ex_queue e') \<subseteq> set (ex_queue e)"
  using assms(1)
proof cases
  case (work_receive tid q)
  with st inv queue depth_tasks(1) [of "e\<lparr>ex_queue := q\<rparr>" u] show ?thesis by auto
next
  case work_stop
  with st inv show ?thesis by simp
next
  case (work_register tid)
  with st inv life show ?thesis by (simp add: register_def)
next
  case (work_get_err j tid er)
  with get_life [OF st work_get_err(4) inv] st life show ?thesis by (auto intro: status_in_mono)
next
  case (work_get_skip j tid t)
  with get_life [OF st work_get_skip(4) inv] st life show ?thesis by (auto intro: status_in_mono)
next
  case (work_get j tid t)
  with get_life [OF st work_get(4) inv] st life show ?thesis by auto
next
  case (work_start_err j tid er t)
  with start_life [OF st work_start_err(4) inv] st life show ?thesis by simp
next
  case (work_abort tid q j)
  with final_life [OF st work_abort(4) inv] st life show ?thesis by simp
next
  case (work_start j tid ua t)
  with start_life [OF st work_start(5) inv] depth_tasks(2) [of e ua] st life show ?thesis by simp
next
  case (work_run j t r tid)
  obtain status n ws ec em where r: "r = (status, n, ws, ec, em)" by (metis prod.exhaust)
  from run_status [OF work_run(4) [unfolded r]] run_tasks [OF st work_run(4)] inv life work_run st r
  show ?thesis by auto
next
  case (work_final tid j t r)
  with life have "status_in (tasks u) tid {StatusRunning, StatusCancelled}" "run_status_ok r" by simp_all
  from finalize_life [OF st inv this(2,1), of "TaskCtx j" t] work_final st show ?thesis by simp
next
  case (work_unregister tid j)
  with st inv life show ?thesis by (simp add: unregister_def)
next
  case (work_cancel_ctx tid j)
  with st inv life ctx_tasks [of "TaskCtx j" u] show ?thesis by simp
next
  case (work_release tid)
  with st inv show ?thesis by simp
qed

lemma cancel_step_life:
  assumes "cancel_step cn pc (e, u) pc' (e', u')" and inv: "invar u"
  shows "e' = e \<and> invar u' \<and> drift {} (tasks u) (tasks u')"
  using assms(1)
proof cases
  case (can_done c tid x caller)
  then have g: "st_Get (ex_store e0) c tid u = (x, u')" by (simp add: cancel_store)
  with can_done get_frame [OF g] get_invar [OF g inv] show ?thesis by simp
next
  case (can_get c tid t caller)
  then have g: "st_Get (ex_store e0) c tid u = (Inr t, u')" by (simp add: cancel_store)
  with can_get get_frame [OF g] get_invar [OF g inv] show ?thesis by simp
next
  case (can_won c tid st caller rid)
  then have g: "st_CancelCAS (ex_store e0) c tid u = (Inr (True, st), u')" by (simp add: cancel_store)
  with can_won cas_done [OF g inv] cas_invar [OF g inv] drift_cancelled show ?thesis by blast
next
  case (can_lost c tid x caller rid)
  then have g: "st_CancelCAS (ex_store e0) c tid u = (x, u')" by (simp add: cancel_store)
  show ?thesis
  proof (cases x)
    case (Inl er)
    have "tasks u' = tasks u \<or> drift {} (tasks u) (tasks u')"
      using cas_err [OF g [unfolded Inl] inv] drift_cancelled by metis
    with can_lost cas_invar [OF g inv] show ?thesis by auto
  next
    case (Inr p)
    with can_lost cas_lost [of c tid u "snd p" u'] g inv cas_invar [OF g inv] show ?thesis
      by (cases p) auto
  qed
next
  case (can_signal tid caller rid)
  with signal_tasks [of e tid u] inv show ?thesis by simp
next
  case (can_clean tid caller rid)
  with clean_tasks [of e tid caller u] caudit_tasks [of e tid caller rid "clean (cn e) tid caller u"] inv
  show ?thesis by simp
qed

end

section \<open>The invariant\<close>

text \<open>What holds of the shared state and the threads at every moment.\<close>

definition sys_ok :: "'a world_executor \<Rightarrow> ('a World_scheme \<Rightarrow> tasks) \<Rightarrow> ('a World_scheme \<Rightarrow> bool)
  \<Rightarrow> 'a Sys \<Rightarrow> bool" where
  "sys_ok e0 tasks invar s \<longleftrightarrow>
     (case sy_shared s of (e, u) \<Rightarrow>
       same_static e0 e \<and> invar u \<and> owners_ok (tasks u) (ex_queue e) (threads s) \<and>
       registry_ok e (sy_workers s) \<and> contexts_ok (sy_next s) (sy_workers s))"

lemma threads_sub:
  "i < length (sy_subs s) \<Longrightarrow> threads (s\<lparr>sy_shared := sh, sy_subs := (sy_subs s)[i := pc]\<rparr>) = (threads s)[i := Inl pc]"
  "i < length (sy_subs s) \<Longrightarrow> threads s ! i = Inl (sy_subs s ! i) \<and> i < length (threads s)"
  by (simp_all add: threads_def list_update_append map_update nth_append)

lemma threads_work:
  "i < length (sy_workers s) \<Longrightarrow>
   threads (s\<lparr>sy_shared := sh, sy_workers := (sy_workers s)[i := pc], sy_next := n\<rparr>) =
   (threads s)[length (sy_subs s) + i := Inr pc]"
  "i < length (sy_workers s) \<Longrightarrow> threads s ! (length (sy_subs s) + i) = Inr (sy_workers s ! i) \<and>
     length (sy_subs s) + i < length (threads s)"
  by (simp_all add: threads_def list_update_append map_update nth_append)

lemma worker_ids_once:
  assumes "owners_ok m q (threads s)"
  shows "\<forall>x. count (sum_list (map work_ids (sy_workers s))) x \<le> 1"
proof
  fix x
  have "map ids_of (threads s) = map sub_ids (sy_subs s) @ map work_ids (sy_workers s)"
    by (simp add: threads_def ids_of_def)
  with assms have "count (sum_list (map sub_ids (sy_subs s)) + sum_list (map work_ids (sy_workers s)) + mset q) x \<le> 1"
    by (simp add: owners_ok_def)
  then show "count (sum_list (map work_ids (sy_workers s))) x \<le> 1" by simp
qed

context sys_env begin

lemma owners_drift:
  assumes "owners_ok m q T" and "drift {} m m'"
  shows "owners_ok m' q T"
  using assms life_of_drift [OF _ assms(2)] status_in_drift [OF _ assms(2)]
  by (simp add: owners_ok_def)

lemma sys_ok_step:
  assumes "sys_step cn s s'" and ok: "sys_ok e0 tasks invar s"
  shows "sys_ok e0 tasks invar s'"
  using assms(1)
proof cases
  case (sys_sub i pc' sh')
  obtain e u e' u' where sh: "sy_shared s = (e, u)" "sh' = (e', u')" by (metis surj_pair)
  have o: "same_static e0 e" "invar u" "owners_ok (tasks u) (ex_queue e) (threads s)"
    "registry_ok e (sy_workers s)" "contexts_ok (sy_next s) (sy_workers s)"
    using ok by (simp_all add: sys_ok_def sh)
  note T = threads_sub(2) [OF sys_sub(2)]
  have "life_of (tasks u) (threads s ! i)" using o(3) T unfolding owners_ok_def by blast
  then have life: "sub_life (tasks u) (sy_subs s ! i)" using T by (simp add: life_of_def)
  note l = sub_step_life [OF sys_sub(3) [unfolded sh] o(1,2) life]
  have "owners_ok (tasks u') (ex_queue e') ((threads s)[i := Inl pc'])"
    using l T by (intro owners_step [OF o(3)]) (auto simp: ids_of_def life_of_def)
  with l o(4,5) show ?thesis
    by (simp add: sys_ok_def sys_sub(1) sh threads_sub(1) [OF sys_sub(2)] registry_ok_def)
next
  case (sys_work i pc' sh')
  obtain e u e' u' where sh: "sy_shared s = (e, u)" "sh' = (e', u')" by (metis surj_pair)
  have o: "same_static e0 e" "invar u" "owners_ok (tasks u) (ex_queue e) (threads s)"
    "registry_ok e (sy_workers s)" "contexts_ok (sy_next s) (sy_workers s)"
    using ok by (simp_all add: sys_ok_def sh)
  note T = threads_work(2) [OF sys_work(2)]
  have "life_of (tasks u) (threads s ! (length (sy_subs s) + i))" using o(3) T unfolding owners_ok_def by blast
  then have life: "work_life (tasks u) (sy_workers s ! i)" using T by (simp add: life_of_def)
  have queue: "\<forall>tid \<in> set (ex_queue e). status_in (tasks u) tid {StatusQueued, StatusCancelled}"
    using o(3) by (simp add: owners_ok_def)
  note l = work_step_life [OF sys_work(3) [unfolded sh] o(1,2) life queue]
  have "owners_ok (tasks u') (ex_queue e') ((threads s)[length (sy_subs s) + i := Inr pc'])"
    using l T by (intro owners_step [OF o(3)]) (auto simp: ids_of_def life_of_def)
  moreover have "registry_ok e' ((sy_workers s)[i := pc'])"
    using registry_step [OF o(4) sys_work(2) worker_ids_once [OF o(3)] sys_work(3) [unfolded sh]] .
  moreover have "contexts_ok (Suc (sy_next s)) ((sy_workers s)[i := pc'])"
    using contexts_step [OF o(5) sys_work(2) work_step_ctxs [OF sys_work(3) [unfolded sh]]] .
  ultimately show ?thesis
    using l by (simp add: sys_ok_def sys_work(1) sh threads_work(1) [OF sys_work(2)])
next
  case (sys_can i pc' sh')
  obtain e u e' u' where sh: "sy_shared s = (e, u)" "sh' = (e', u')" by (metis surj_pair)
  have o: "invar u" "owners_ok (tasks u) (ex_queue e) (threads s)" using ok by (simp_all add: sys_ok_def sh)
  from cancel_step_life [OF sys_can(3) [unfolded sh] o(1)] owners_drift [OF o(2)] ok
  show ?thesis by (simp add: sys_ok_def sys_can(1) sh threads_def)
next
  case (sys_tick e u d)
  with ok clock_tasks [of "wd_clock u + d" u] show ?thesis by (simp add: sys_ok_def threads_def)
next
  case (sys_shutdown e u)
  with ok ctx_tasks [of Parent u] show ?thesis by (simp add: sys_ok_def threads_def)
next
  case (sys_outer e u u')
  with ok outer_tasks [of u u'] show ?thesis by (simp add: sys_ok_def threads_def)
qed

lemma sys_ok_init:
  assumes "sys_init s" and "same_static e0 (fst (sy_shared s))" and "invar (snd (sy_shared s))"
  shows "sys_ok e0 tasks invar s"
proof -
  obtain e u where sh: "sy_shared s = (e, u)" by fastforce
  have T: "\<forall>t \<in> set (threads s). t = Inl SubIdle \<or> t = Inr WIdle"
    using assms(1) by (auto simp: sys_init_def threads_def list_all_iff)
  then have "\<forall>t \<in> set (threads s). ids_of t = {#}" by (auto simp: ids_of_def)
  then have "x \<notin># sum_list (map ids_of (threads s))" for x by (simp add: in_sum_list_mset)
  then have "sum_list (map ids_of (threads s)) = {#}" by (metis multiset_nonemptyE)
  moreover have "life_of m t" if "t \<in> set (threads s)" for m t
    using T that by (auto simp: life_of_def)
  moreover have "sum_list (map ctxs (sy_workers s)) = {#}"
    using assms(1) init_zero [of WIdle "sy_workers s" ctxs] by (simp add: sys_init_def)
  moreover have "entry (sy_workers s ! j) = None" if "j < length (sy_workers s)" for j
    using assms(1) that by (auto simp: sys_init_def list_all_length)
  ultimately show ?thesis
    using assms by (simp add: sys_ok_def sys_init_def sh owners_ok_def registry_ok_def contexts_ok_def)
qed

lemma sys_ok_reachable:
  assumes "reachable cn s0 s" and "sys_init s0" and "same_static e0 (fst (sy_shared s0))"
    and "invar (snd (sy_shared s0))"
  shows "sys_ok e0 tasks invar s"
  using assms(1) unfolding reachable_def
proof (induction rule: rtranclp_induct)
  case base
  then show ?case using sys_ok_init [OF assms(2-4)] .
next
  case (step s1 s2)
  then show ?case using sys_ok_step by blast
qed

text \<open>Two workers never have the same task, and a queued task is with no worker.\<close>

lemma one_owner:
  assumes "sys_ok e0 tasks invar s" and i: "i < length (sy_workers s)" "tid \<in># work_ids (sy_workers s ! i)"
  shows "tid \<notin> set (ex_queue (fst (sy_shared s))) \<and>
    (\<forall>j < length (sy_workers s). tid \<in># work_ids (sy_workers s ! j) \<longrightarrow> j = i)"
proof -
  obtain e u where sh: "sy_shared s = (e, u)" by fastforce
  have o: "owners_ok (tasks u) (ex_queue e) (threads s)" using assms(1) by (simp add: sys_ok_def sh)
  note T = threads_work(2) [OF i(1)]
  have "tid \<in># ids_of (threads s ! (length (sy_subs s) + i))" using T i(2) by (simp add: ids_of_def)
  then have "tid \<in># sum_list (map ids_of (threads s))" using T by (metis in_sum_list_mset nth_mem)
  then have "1 \<le> count (sum_list (map ids_of (threads s))) tid" by (simp only: count_greater_eq_one_iff)
  moreover have "count (sum_list (map ids_of (threads s)) + mset (ex_queue e)) tid \<le> 1"
    using o by (simp only: owners_ok_def)
  ultimately have "count (mset (ex_queue e)) tid = 0" by (simp only: count_union)
  then have "tid \<notin> set (ex_queue e)" by (metis count_eq_zero_iff set_mset_mset)
  moreover have "j = i" if "j < length (sy_workers s)" "tid \<in># work_ids (sy_workers s ! j)" for j
  proof (rule ccontr)
    assume "j \<noteq> i"
    have "1 \<le> count (work_ids (sy_workers s ! j)) tid" "1 \<le> count (work_ids (sy_workers s ! i)) tid"
      using that(2) i(2) by (simp_all only: count_greater_eq_one_iff)
    with sum_list_two [OF that(1) i(1) \<open>j \<noteq> i\<close>, of work_ids tid] worker_ids_once [OF o, rule_format, of tid]
    show False by simp
  qed
  ultimately show ?thesis using sh by auto
qed

text \<open>The signal of a cancel request reaches the worker of that task, and no other.\<close>

lemma signal_reaches:
  assumes ok: "sys_ok e0 tasks invar s" and i: "i < length (sy_workers s)"
    and en: "entry (sy_workers s ! i) = Some (tid, k)"
  shows "CancelTask tid (fst (sy_shared s)) u = cancel_ctx (TaskCtx k) u \<and>
    (\<forall>j < length (sy_workers s). k \<in># ctxs (sy_workers s ! j) \<longrightarrow> j = i)"
proof -
  obtain e w where sh: "sy_shared s = (e, w)" by fastforce
  have "registry_ok e (sy_workers s)" and c: "contexts_ok (sy_next s) (sy_workers s)"
    using ok by (simp_all add: sys_ok_def sh)
  then have "ex_cancels e tid = Some (TaskCtx k)" using i en by (simp add: registry_ok_def)
  moreover have "j = i" if "j < length (sy_workers s)" "k \<in># ctxs (sy_workers s ! j)" for j
  proof (rule ccontr)
    assume "j \<noteq> i"
    have "1 \<le> count (ctxs (sy_workers s ! j)) k" "1 \<le> count (ctxs (sy_workers s ! i)) k"
      using that(2) entry_id [OF en] by (simp_all only: count_greater_eq_one_iff)
    moreover have "count (sum_list (map ctxs (sy_workers s))) k \<le> 1" using c by (simp only: contexts_ok_def)
    ultimately show False using sum_list_two [OF that(1) i \<open>j \<noteq> i\<close>, of ctxs k] by linarith
  qed
  ultimately show ?thesis using sh by (auto simp: CancelTask_def)
qed

text \<open>A result is final: completed, partial and failed tasks keep their status.\<close>

lemma drift_settled:
  assumes "drift A m m'" and "tid \<notin> A" and "m tid = Some t"
    and "t_Status t \<notin> {StatusQueued, StatusRunning}"
  shows "m' tid = Some t"
  using assms by (auto simp: drift_def cancels_def)

lemma work_step_owner:
  assumes "work_step k pc (e, u) pc' (e', u')" and "same_static e0 e" and "invar u"
    and "work_life (tasks u) pc" and "tid \<in># work_ids pc"
  shows "status_in (tasks u) tid {StatusQueued, StatusRunning, StatusCancelled} \<or> tasks u' = tasks u"
  using assms(1)
proof cases
  case (work_unregister tid j)
  then show ?thesis by simp
next
  case (work_cancel_ctx tid j)
  then show ?thesis using ctx_tasks by simp
next
  case (work_release tid)
  then show ?thesis by simp
qed (use assms(4,5) in \<open>auto simp: status_in_def\<close>)

lemma settled_step:
  assumes "sys_step cn s s'" and ok: "sys_ok e0 tasks invar s"
    and t: "tasks (snd (sy_shared s)) tid = Some t" "t_Status t \<in> {StatusCompleted, StatusPartial, StatusFailed}"
  shows "tasks (snd (sy_shared s')) tid = Some t"
  using assms(1)
proof cases
  case (sys_sub i pc' sh')
  obtain e u e' u' where sh: "sy_shared s = (e, u)" "sh' = (e', u')" by (metis surj_pair)
  have o: "same_static e0 e" "invar u" "owners_ok (tasks u) (ex_queue e) (threads s)"
    using ok by (simp_all add: sys_ok_def sh)
  note T = threads_sub(2) [OF sys_sub(2)]
  have "life_of (tasks u) (threads s ! i)" using o(3) T unfolding owners_ok_def by blast
  then have life: "sub_life (tasks u) (sy_subs s ! i)" using T by (simp add: life_of_def)
  note l = sub_step_life [OF sys_sub(3) [unfolded sh] o(1,2) life]
  have "tid \<notin># sub_ids (sy_subs s ! i)"
    using life t sh by (cases "sy_subs s ! i") (auto simp: status_in_def)
  with l drift_settled [of _ "tasks u" "tasks u'" tid t] t sh show ?thesis by (auto simp: sys_sub(1))
next
  case (sys_work i pc' sh')
  obtain e u e' u' where sh: "sy_shared s = (e, u)" "sh' = (e', u')" by (metis surj_pair)
  have o: "same_static e0 e" "invar u" "owners_ok (tasks u) (ex_queue e) (threads s)"
    using ok by (simp_all add: sys_ok_def sh)
  note T = threads_work(2) [OF sys_work(2)]
  have "life_of (tasks u) (threads s ! (length (sy_subs s) + i))" using o(3) T unfolding owners_ok_def by blast
  then have life: "work_life (tasks u) (sy_workers s ! i)" using T by (simp add: life_of_def)
  have queue: "\<forall>tid \<in> set (ex_queue e). status_in (tasks u) tid {StatusQueued, StatusCancelled}"
    using o(3) by (simp add: owners_ok_def)
  note l = work_step_life [OF sys_work(3) [unfolded sh] o(1,2) life queue]
  show ?thesis
  proof (cases "tid \<in># work_ids (sy_workers s ! i)")
    case True
    from work_step_owner [OF sys_work(3) [unfolded sh] o(1,2) life True] t sh
    show ?thesis by (auto simp: sys_work(1) status_in_def)
  next
    case False
    with l drift_settled [of _ "tasks u" "tasks u'" tid t] t sh show ?thesis by (auto simp: sys_work(1))
  qed
next
  case (sys_can i pc' sh')
  obtain e u e' u' where sh: "sy_shared s = (e, u)" "sh' = (e', u')" by (metis surj_pair)
  have "invar u" using ok by (simp add: sys_ok_def sh)
  from cancel_step_life [OF sys_can(3) [unfolded sh] this] drift_settled [of "{}" "tasks u" "tasks u'" tid t] t sh
  show ?thesis by (auto simp: sys_can(1))
next
  case (sys_tick e u d)
  with t clock_tasks [of "wd_clock u + d" u] show ?thesis by simp
next
  case (sys_shutdown e u)
  with t ctx_tasks [of Parent u] show ?thesis by simp
next
  case (sys_outer e u u')
  with t outer_tasks [of u u'] show ?thesis by simp
qed

lemma settled_reachable:
  assumes "(sys_step cn)\<^sup>*\<^sup>* s s'" and "sys_ok e0 tasks invar s"
    and "tasks (snd (sy_shared s)) tid = Some t" "t_Status t \<in> {StatusCompleted, StatusPartial, StatusFailed}"
  shows "tasks (snd (sy_shared s')) tid = Some t"
  using assms(1)
proof (induction rule: rtranclp_induct)
  case base
  then show ?case using assms(3) .
next
  case (step s1 s2)
  have "sys_ok e0 tasks invar s1"
    using step(1)
  proof (induction rule: rtranclp_induct)
    case base
    then show ?case using assms(2) .
  next
    case (step a b)
    then show ?case using sys_ok_step by blast
  qed
  then show ?case using settled_step [OF step(2) _ step(3) assms(4)] by blast
qed

end

end
