(* ===== verification/Deployment.thy ===== *)
theory Deployment
  imports Service_Main Services Part_Table System_Invariant
begin

text \<open>
  The whole service on the reference services: the submitter, the canceller and the executor
  as \<open>main\<close> wires them meet the contracts their lemmas are proved under, and what a run may
  change in the database is bounded.
\<close>

section \<open>Steps outside the database\<close>

text \<open>A step that leaves both tables, the contexts and the clock alone and makes no faults.\<close>

definition quiet_step :: "'a MySQL_scheme \<Rightarrow> 'a MySQL_scheme \<Rightarrow> bool" where
  "quiet_step w w' \<longleftrightarrow>
     batch_task w' = batch_task w \<and> batch_task_part w' = batch_task_part w \<and>
     wd_cancelled w' = wd_cancelled w \<and> wd_clock w' = wd_clock w \<and>
     (wd_faults w = [] \<longrightarrow> wd_faults w' = [])"

lemma quiet_refl [simp]: "quiet_step w w"
  by (simp add: quiet_step_def)

lemma quiet_trans: "quiet_step u v \<Longrightarrow> quiet_step v w \<Longrightarrow> quiet_step u w"
  by (simp add: quiet_step_def)

lemma quiet_emit [simp]: "quiet_step u (emit m w) = quiet_step u w"
  by (simp add: quiet_step_def emit_def)

lemma quiet_take_fault: "take_fault w = (f, w') \<Longrightarrow> quiet_step w w'"
  by (auto simp: take_fault_def quiet_step_def split: list.splits)

lemma quiet_query: "remote_query c f w = (r, w') \<Longrightarrow> quiet_step w w'"
  by (auto simp: remote_query_def split: if_splits prod.splits fault.splits dest: quiet_take_fault)

lemma quiet_exec:
  assumes "remote_exec c f w = (r, w')" and "\<And>w. quiet_step w (f w)"
  shows "quiet_step w w'"
proof -
  obtain g w1 where t: "take_fault w = (g, w1)" by fastforce
  from quiet_take_fault [OF t] assms t show ?thesis
    by (auto simp: remote_exec_def split: if_splits fault.splits intro: quiet_trans)
qed

lemma quiet_tables:
  assumes "quiet_step w w'"
  shows "mysql_tasks w' = mysql_tasks w" "mysql_invar w' = mysql_invar w"
  using assms by (simp_all add: quiet_step_def mysql_tasks_def mysql_invar_def)

lemma memory_OS_quiet:
  "tp_Info (memory_OS docs) c w = (r0, w') \<Longrightarrow> quiet_step w w'"
  "tp_Count (memory_OS docs) c idx body w = (r1, w') \<Longrightarrow> quiet_step w w'"
  "tp_Search (memory_OS docs) c body w = (r2, w') \<Longrightarrow> quiet_step w w'"
  "tp_Perform (memory_OS docs) c meth path b w = (r3, w') \<Longrightarrow> quiet_step w w'"
  by (simp_all add: memory_OS_def quiet_query)

lemma OSClient_quiet:
  "OSClient_Count (memory_OS docs) c idx ch s e w = (r0, w') \<Longrightarrow> quiet_step w w'"
  "OSClient_OpenPIT (memory_OS docs) c idx ka w = (r1, w') \<Longrightarrow> quiet_step w w'"
  "OSClient_ClosePIT (memory_OS docs) c pit w = (r2, w') \<Longrightarrow> quiet_step w w'"
  "OSClient_Search (memory_OS docs) c req w = (r3, w') \<Longrightarrow> quiet_step w w'"
  by (auto simp: OSClient_Count_def OSClient_OpenPIT_def OSClient_ClosePIT_def OSClient_Search_def
      Let_def split: prod.splits sum.splits if_splits option.splits dest!: memory_OS_quiet)

lemma quiet_objects: "quiet_step w (put_object k data w)" "quiet_step w (remove_object k w)"
  by (simp_all add: quiet_step_def put_object_def remove_object_def)

lemma memory_S3_quiet:
  "cl_Upload memory_S3 b k data w = (q0, w') \<Longrightarrow> quiet_step w w'"
  "cl_DeleteObject memory_S3 b k w = (q1, w') \<Longrightarrow> quiet_step w w'"
  "cl_ListObjectsV2 memory_S3 b pre w = (r2, w') \<Longrightarrow> quiet_step w w'"
  by (auto simp: memory_S3_def dest: quiet_query quiet_exec [OF _ quiet_objects(1)]
      quiet_exec [OF _ quiet_objects(2)])

lemma memory_S3_metric [simp]: "cl_metric memory_S3 = emit"
  by (simp add: memory_S3_def)

lemma Upload_quiet: "S3Uploader_Upload ps cfg memory_S3 t c n day data w = (k, w') \<Longrightarrow> quiet_step w w'"
  by (auto simp: S3Uploader_Upload_def Let_def split: prod.splits option.splits dest!: memory_S3_quiet)

lemma delete_objects_quiet: "delete_objects cfg memory_S3 ks w = (q, w') \<Longrightarrow> quiet_step w w'"
proof (induction ks arbitrary: w)
  case Nil
  then show ?case by simp
next
  case (Cons k ks)
  obtain r w1 where d: "cl_DeleteObject memory_S3 (s3_Bucket cfg) k w = (r, w1)" by fastforce
  from memory_S3_quiet(2) [OF d] Cons d show ?case
    by (cases r) (auto intro: quiet_trans)
qed

lemma DeletePrefix_quiet: "S3Uploader_DeletePrefix cfg memory_S3 pre w = (q, w') \<Longrightarrow> quiet_step w w'"
  by (auto simp: S3Uploader_DeletePrefix_def split: prod.splits sum.splits
      dest!: memory_S3_quiet delete_objects_quiet intro: quiet_trans)

lemma Auditor_quiet: "quiet_step w (Auditor_Log a ev w)"
proof -
  have "quiet_step w (append_file s w)" for s and w :: "'a MySQL_scheme"
    by (auto simp: append_file_def quiet_step_def take_fault_def split: prod.splits fault.splits list.splits)
  moreover have "quiet_step w (w\<lparr>wd_stdout := ls\<rparr>)" for ls by (simp add: quiet_step_def)
  ultimately show ?thesis
    by (auto simp: Auditor_Log_def Let_def intro: quiet_trans)
qed

section \<open>What a run may change\<close>

text \<open>At any later moment, whatever its gate, its queue and its registry hold.\<close>

definition memory_at :: "ExecutorConfig \<Rightarrow> int \<Rightarrow> nat \<Rightarrow> S3Config \<Rightarrow> (string \<Rightarrow> string)
  \<Rightarrow> (string \<Rightarrow> string) \<Rightarrow> gmap list \<Rightarrow> Gate \<Rightarrow> string list \<Rightarrow> (string \<Rightarrow> ctx option)
  \<Rightarrow> 'a Services_scheme Executor" where
  "memory_at cfg slots ps s3 gz sha docs g q cn =
     (memory_executor cfg slots ps s3 gz sha docs)\<lparr>ex_gate := g, ex_queue := q, ex_cancels := cn\<rparr>"

lemma memory_at_simps [simp]:
  "ex_os (memory_at cfg slots ps s3 gz sha docs g q cn) = OSClient (memory_OS docs)"
  "ex_store (memory_at cfg slots ps s3 gz sha docs g q cn) = MySQLStore"
  "ex_up (memory_at cfg slots ps s3 gz sha docs g q cn) = s3_writer_env ps s3 memory_S3 gz sha"
  by (simp_all add: memory_at_def)

interpretation memory_frame: run_frame "memory_at cfg slots ps s3 gz sha docs g q cn"
  "\<lambda>u. batch_task u = rows \<and> wd_cancelled u = cs \<and> (calm \<longrightarrow> wd_faults u = [])"
  for cfg slots ps s3 gz sha docs g q cn rows cs calm
proof (unfold_locales, unfold memory_at_simps OSClient_simps, goal_cases)
  case (1 c idx ka u x u')
  then show ?case using OSClient_quiet(2) [OF 1(1)] by (auto simp: quiet_step_def)
next
  case (2 c pit u q u')
  then show ?case using OSClient_quiet(3) [OF 2(1)] by (auto simp: quiet_step_def)
next
  case (3 c req u r u')
  then show ?case using OSClient_quiet(4) [OF 3(1)] by (auto simp: quiet_step_def)
next
  case (4 t cl n day data u k u')
  then show ?case using Upload_quiet [of ps s3 t cl n day data u k u']
    by (auto simp: quiet_step_def s3_writer_env_def)
next
  case (5 u m)
  then show ?case by (simp add: s3_writer_env_def emit_def)
next
  case (6 c p u q u')
  then show ?case
    by (auto simp: MySQLStore_def MySQLStore_AppendPart_def Let_def remote_exec_def take_fault_def
        split: prod.splits option.splits if_splits list.splits fault.splits)
qed

interpretation memory_listed: listed_export "memory_executor cfg slots ps s3 gz sha docs"
  objects_of "s3_key s3" "os_hits (\<lambda>_. indexed docs)" for cfg slots ps s3 gz sha docs
proof (unfold listed_export_def, intro conjI)
  show "export_env (memory_executor cfg slots ps s3 gz sha docs) objects_of (s3_key s3)
      (os_hits (\<lambda>_. indexed docs))"
    by (rule memory_run.export_env_axioms)
  show "listed_export_axioms (memory_executor cfg slots ps s3 gz sha docs)"
    by unfold_locales
      (simp_all, (drule OSClient_quiet Upload_quiet | simp add: quiet_step_def s3_writer_env_def emit_def)+)
qed

section \<open>The submitter\<close>

definition index_hits :: "gmap list \<Rightarrow> string \<Rightarrow> int \<Rightarrow> int \<Rightarrow> int" where
  "index_hits docs ch s e = int (length (channel_docs (indexed docs) ch s e))"

lemma mysql_emit [simp]: "mysql_tasks (emit m u) = mysql_tasks u" "mysql_invar (emit m u) = mysql_invar u"
  by (simp_all add: mysql_tasks_def mysql_invar_def emit_def)

text \<open>A count that is itself a 64-bit number is read back exactly.\<close>

lemma memory_Count:
  assumes "OSClient_Count (memory_OS docs) c idx ch s e u = (Inr n, u')" and "in_i64 s" and "in_i64 e"
    and "in_i64 (int (length docs))"
  shows "n = index_hits docs ch s e"
proof -
  have le: "index_hits docs ch s e \<le> int (length docs)"
    by (auto simp: index_hits_def channel_docs_def indexed_def intro: order_trans [OF length_filter_le])
  then have "in_i64 (index_hits docs ch s e)"
    using assms(4) by (auto simp: in_i64_def index_hits_def)
  moreover have "filter (bool_matches (filterQuery ch s e)) (indexed docs) = channel_docs (indexed docs) ch s e"
    using channel_docs_query [OF assms(2,3)] .
  ultimately show ?thesis
    using assms(1)
    by (auto simp: OSClient_Count_def memory_OS_def Let_def gget_def ok_response_def json_of_int_def
        index_hits_def ParseInt_show_int IsError_def elim!: remote_query_cases
        split: prod.splits sum.splits if_splits option.splits)
qed

lemma wire_submitter_simps [simp]:
  "sb_store (wire_submitter c osc st) = st" "sb_Count (wire_submitter c osc st) = os_Count osc"
  "sb_cfg (wire_submitter c osc st) = cf_Protect c"
  by (simp_all add: wire_submitter_def)

text \<open>An index of any realistic size; a larger one is taken as empty.\<close>

definition counted :: "gmap list \<Rightarrow> gmap list" where
  "counted docs = (if int (length docs) < 2 ^ 58 then docs else [])"

interpretation memory_submit: submit_env "wire_submitter c (OSClient (memory_OS (counted docs))) MySQLStore"
  mysql_tasks mysql_invar "index_hits (counted docs)" for c docs
proof (unfold submit_env_def, intro conjI)
  show "task_store (sb_store (wire_submitter c (OSClient (memory_OS (counted docs))) MySQLStore))
      mysql_tasks mysql_invar"
    by (simp add: mysql.task_store_axioms)
  have small: "in_i64 (int (length (counted docs)))"
    by (simp add: counted_def in_i64_def)
  show "submit_env_axioms (wire_submitter c (OSClient (memory_OS (counted docs))) MySQLStore)
      mysql_tasks mysql_invar (index_hits (counted docs))"
  proof (unfold_locales, unfold wire_submitter_simps OSClient_simps, goal_cases)
    case (1 c' ch st en u n u')
    then show ?case using memory_Count [OF 1(1,2,3) small] by simp
  next
    case (2 c' ch st en u x u')
    then show ?case using quiet_tables [OF OSClient_quiet(1) [OF 2]] by simp
  next
    case (3 m u)
    then show ?case by simp
  qed
qed

lemma index_hits_bound: "0 \<le> index_hits (counted docs) ch s e \<and> index_hits (counted docs) ch s e < 2 ^ 58"
proof -
  have "index_hits (counted docs) ch s e \<le> int (length (counted docs))"
    by (auto simp: index_hits_def channel_docs_def indexed_def intro: order_trans [OF length_filter_le])
  moreover have "int (length (counted docs)) < 2 ^ 58" by (simp add: counted_def)
  ultimately show ?thesis by (simp add: index_hits_def)
qed

section \<open>The canceller\<close>

lemma mysql_cancel_ctx [simp]:
  "mysql_tasks (cancel_ctx c u) = mysql_tasks u" "mysql_invar (cancel_ctx c u) = mysql_invar u"
  by (simp_all add: mysql_tasks_def mysql_invar_def cancel_ctx_def)

interpretation memory_cancel: cancel_env "wire_canceller c MySQLStore memory_S3 au e" mysql_tasks mysql_invar
  for c au and e :: "'a Services_scheme Executor"
proof (unfold cancel_env_def, intro conjI)
  show "task_store (cc_store (wire_canceller c MySQLStore memory_S3 au e)) mysql_tasks mysql_invar"
    by (simp add: wire_canceller_def mysql.task_store_axioms)
  show "cancel_env_axioms (wire_canceller c MySQLStore memory_S3 au e) mysql_tasks mysql_invar"
  proof (unfold_locales, goal_cases)
    case (1 tid u)
    show ?case
      by (simp add: signal_def wire_canceller_def CancelTask_def split: option.splits)
  next
    case (2 tid cl u)
    obtain q u1 where d: "S3Uploader_DeletePrefix (s3_config (cf_S3 c)) memory_S3
        (TaskPrefix (s3_config (cf_S3 c)) (format_day (wd_clock u)) cl tid) u = (q, u1)" by fastforce
    from quiet_tables [OF DeletePrefix_quiet [OF d]] d show ?case
      by (simp add: clean_def wire_canceller_def s3_cleaner_def)
  next
    case (3 tid cl rid u)
    show ?case
      by (simp add: audit_cancel_def wire_canceller_def quiet_tables [OF Auditor_quiet])
  qed
qed

section \<open>The running system\<close>

lemma memory_same_static:
  "same_static (memory_executor cfg slots ps s3 gz sha docs) e \<Longrightarrow>
   e = memory_at cfg slots ps s3 gz sha docs (ex_gate e) (ex_queue e) (ex_cancels e)"
  by (simp add: same_static_def memory_at_def)

lemma memory_run_tasks:
  assumes "same_static (memory_executor cfg slots ps s3 gz sha docs) e" and "run e c t u = (r, u')"
  shows "batch_task u' = batch_task u \<and> wd_cancelled u' = wd_cancelled u \<and>
    (wd_faults u = [] \<longrightarrow> wd_faults u' = [])"
proof -
  have "run (memory_at cfg slots ps s3 gz sha docs (ex_gate e) (ex_queue e) (ex_cancels e)) c t u = (r, u')"
    using assms(2) memory_same_static [OF assms(1)] by metis
  from memory_frame.run_P [OF this, of "batch_task u" "wd_cancelled u" "wd_faults u = []"]
  show ?thesis by simp
qed

interpretation memory_sys: sys_env "memory_executor cfg slots ps s3 gz sha docs" mysql_tasks mysql_invar
  "wire_canceller c MySQLStore memory_S3 au" for cfg slots ps s3 gz sha docs c au
proof (unfold sys_env_def, intro conjI)
  show "task_store (ex_store (memory_executor cfg slots ps s3 gz sha docs)) mysql_tasks mysql_invar"
    by (simp add: mysql.task_store_axioms)
  show "sys_env_axioms (memory_executor cfg slots ps s3 gz sha docs) mysql_tasks mysql_invar
      (wire_canceller c MySQLStore memory_S3 au)"
  proof (unfold_locales, goal_cases)
    case (1 u u')
    then show ?case by (auto simp: outer_def mysql_tasks_def mysql_invar_def)
  next
    case (2 x u)
    show ?case by simp
  next
    case (3 n u)
    show ?case by (simp add: mysql_tasks_def mysql_invar_def)
  next
    case (4 e x t u r u')
    from memory_run_tasks [OF 4] show ?case by (simp add: mysql_tasks_def mysql_invar_def)
  next
    case (5 logev ev u)
    then show ?case
      by (auto simp: memory_executor_def Executor_New_def Let_def quiet_tables [OF Auditor_quiet])
  next
    case (6 e)
    show ?case by (simp add: wire_canceller_def)
  next
    case (7 e tid u)
    show ?case using memory_cancel.signal_frame .
  next
    case (8 e tid cl u)
    show ?case using memory_cancel.clean_frame .
  next
    case (9 e tid cl rid u)
    show ?case using memory_cancel.audit_frame .
  qed
qed

section \<open>Without faults every task comes to an end\<close>

text \<open>A world in which every remote call works and the \<open>k\<close>-th and later task contexts are live.\<close>

definition calm :: "nat \<Rightarrow> 'a World_scheme \<Rightarrow> bool" where
  "calm k u \<longleftrightarrow> wd_faults u = [] \<and> Parent \<notin> set (wd_cancelled u) \<and>
     (\<forall>i \<ge> k. TaskCtx i \<notin> set (wd_cancelled u))"

lemma calm_live: "calm k u \<Longrightarrow> \<not> ctx_Err Parent u \<and> \<not> ctx_Err (TaskCtx k) u"
  by (simp add: calm_def ctx_Err_def)

lemma calm_take: "calm k u \<Longrightarrow> take_fault u = (NoFault, u)"
  by (simp add: calm_def take_fault_def)

lemma calm_exec: "calm k u \<Longrightarrow> c \<in> {Parent, TaskCtx k} \<Longrightarrow> remote_exec c f u = (None, f u)"
  using calm_live [of k u] calm_take [of k u] by (auto simp: remote_exec_def)

lemma calm_query: "calm k u \<Longrightarrow> c \<in> {Parent, TaskCtx k} \<Longrightarrow> remote_query c f u = (Inr (f u), u)"
  using calm_live [of k u] calm_take [of k u] by (auto simp: remote_query_def)

lemma calm_same: "wd_faults u' = [] \<Longrightarrow> wd_cancelled u' = wd_cancelled u \<Longrightarrow> calm k u \<Longrightarrow> calm k u'"
  by (simp add: calm_def)

lemma calm_Get:
  assumes "calm k u" and "mysql_tasks u tid = Some t"
  shows "MySQLStore_Get (TaskCtx k) tid u = (Inr t, u)"
proof -
  have "scanTask (select_task tid u) = Inr t"
    using assms(2) by (auto simp: mysql_tasks_def table_tasks_def select_task_def split: sum.splits)
  then show ?thesis
    using calm_query [OF assms(1), of "TaskCtx k" "select_task tid"] by (simp add: MySQLStore_Get_def)
qed

lemma calm_UpdateStatus:
  assumes "calm k u" and "MySQLStore_UpdateStatus (TaskCtx k) tid s u = (q, u')"
  shows "q = None \<and> calm k u'"
proof -
  have "calm k (update_tasks P f u)" for P f
    using assms(1) by (simp add: calm_def update_tasks_def)
  with assms calm_exec [OF assms(1)] show ?thesis
    by (auto simp: MySQLStore_UpdateStatus_def Let_def)
qed

lemma calm_Finalize:
  assumes "calm k u" and "MySQLStore_Finalize Parent tid s n ws ec em u = (q, u')"
  shows "q = None \<and> calm k u'"
proof -
  have "calm k (update_tasks P f u)" for P f
    using assms(1) by (simp add: calm_def update_tasks_def)
  with assms calm_exec [OF assms(1)] show ?thesis
    by (auto simp: MySQLStore_Finalize_def Let_def)
qed

lemma calm_emit: "calm k u \<Longrightarrow> calm k (emit m u)"
  by (simp add: calm_def emit_def)

text \<open>What one call of \<open>process\<close> does to the tasks then.\<close>

definition ends_task :: "string \<Rightarrow> tasks \<Rightarrow> tasks \<Rightarrow> bool" where
  "ends_task tid m m' \<longleftrightarrow>
     (\<exists>t. m' tid = Some t \<and> IsTerminal (t_Status t)) \<and> (\<forall>j. j \<noteq> tid \<longrightarrow> m' j = m j)"

lemma ends_touched:
  assumes "touched tid f m m'" and "m tid = Some t" and "IsTerminal (t_Status (f t))"
  shows "ends_task tid m m'"
  using touched_Some [OF assms(1,2)] assms(3) by (auto simp: ends_task_def)

lemma calm_audit: "calm k (w :: 'a MySQL_scheme) \<Longrightarrow> calm k (Auditor_Log a ev w)"
proof -
  assume c: "calm k w"
  have "quiet_step w (Auditor_Log a ev w)" by (rule Auditor_quiet)
  with c show ?thesis by (auto simp: calm_def quiet_step_def)
qed

lemma calm_finalize_task:
  assumes "calm k u" and "mysql_tasks u tid = Some t0" and "ex_store e = MySQLStore"
    and "ex_audit e = Some (Auditor_Log au)" and "run e0 c t v = (r, u)"
  shows "ends_task tid (mysql_tasks u) (mysql_tasks (finalize_task e Parent (TaskCtx k) tid t r u)) \<and>
    calm k (finalize_task e Parent (TaskCtx k) tid t r u)"
proof -
  obtain s n ws ec em where fr: "final_result (TaskCtx k) r u = (s, n, ws, ec, em)" by (metis prod.exhaust)
  have tm: "IsTerminal s" using final_result_terminal [OF assms(5) fr] .
  obtain q u1 where f: "MySQLStore_Finalize Parent tid s n ws ec em u = (q, u1)" by fastforce
  note c = calm_Finalize [OF assms(1) f]
  have live: "\<not> ctx_Err Parent u" using calm_live [OF assms(1)] by simp
  have tt: "touched tid (set_final s n (kept_warnings ws) ec em) (mysql_tasks u) (mysql_tasks u1)"
    using mysql_Finalize [OF f terminal_named [OF tm]] c by simp
  have "ends_task tid (mysql_tasks u) (mysql_tasks u1)"
    by (rule ends_touched [OF tt assms(2)]) (simp add: set_final_def tm)
  moreover have "st_Finalize (ex_store e) Parent tid s n ws ec em u = (None, u1)"
    using f c assms(3) by (simp add: MySQLStore_def)
  then have "mysql_tasks (finalize_task e Parent (TaskCtx k) tid t r u) = mysql_tasks u1 \<and>
      calm k (finalize_task e Parent (TaskCtx k) tid t r u)"
    using live c assms(4)
    by (simp add: finalize_task_def fr Let_def set_inflight_def quiet_tables [OF Auditor_quiet]
        calm_audit calm_emit)
  ultimately show ?thesis by simp
qed

lemma memory_at_audit: "ex_audit (memory_at cfg slots ps s3 gz sha docs g q cn) = Some (Auditor_Log \<lparr>au_f = True\<rparr>)"
  by (simp add: memory_at_def memory_executor_def Executor_New_def Let_def)

lemma process_body_ends:
  assumes c: "calm k u" and t: "mysql_tasks u tid = Some t"
    and e: "same_static (memory_executor cfg slots ps s3 gz sha docs) e"
  shows "ends_task tid (mysql_tasks u) (mysql_tasks (process_body e Parent (TaskCtx k) tid u)) \<and>
    calm k (process_body e Parent (TaskCtx k) tid u)"
proof -
  have st: "ex_store e = MySQLStore" "ex_audit e = Some (Auditor_Log \<lparr>au_f = True\<rparr>)"
    using memory_same_static [OF e] memory_at_simps(2) memory_at_audit by metis+
  have g: "st_Get (ex_store e) (TaskCtx k) tid u = (Inr t, u)"
    using calm_Get [OF c t] st by (simp add: MySQLStore_def)
  show ?thesis
  proof (cases "IsTerminal (t_Status t)")
    case True
    with g c t show ?thesis by (simp add: process_body_def ends_task_def)
  next
    case False
    obtain q u1 where up: "MySQLStore_UpdateStatus (TaskCtx k) tid StatusRunning u = (q, u1)" by fastforce
    note cu = calm_UpdateStatus [OF c up]
    have "touched tid (set_status StatusRunning) (mysql_tasks u) (mysql_tasks u1)"
      using mysql_UpdateStatus [OF up] cu by simp
    from touched_Some [OF this t] obtain n where
      m1: "mysql_tasks u1 = (mysql_tasks u)(tid \<mapsto> (set_status StatusRunning t)\<lparr>t_UpdatedAt := n\<rparr>)" by blast
    obtain r u3 where ru: "run e (TaskCtx k) t (set_inflight e u1) = (r, u3)" by fastforce
    have m3: "mysql_tasks u3 = mysql_tasks u1" "calm k u3"
      using memory_run_tasks [OF e ru] cu calm_emit [of k u1]
      by (auto simp: mysql_tasks_def set_inflight_def emit_def calm_def)
    have "mysql_tasks u3 tid \<noteq> None" using m3 m1 by simp
    then obtain t3 where "mysql_tasks u3 tid = Some t3" by blast
    note fin = calm_finalize_task [OF m3(2) this st ru]
    have "process_body e Parent (TaskCtx k) tid u = finalize_task e Parent (TaskCtx k) tid t r u3"
      using g False up cu ru st by (simp add: process_body_def) (simp add: MySQLStore_def)
    with fin m1 m3 show ?thesis by (auto simp: ends_task_def)
  qed
qed

lemma process_ends:
  assumes c: "calm k u" and t: "mysql_tasks u tid = Some t"
    and e: "same_static (memory_executor cfg slots ps s3 gz sha docs) e"
    and pr: "process Parent k tid e u = (e', u')"
  shows "ends_task tid (mysql_tasks u) (mysql_tasks u') \<and> calm (Suc k) u' \<and>
    same_static (memory_executor cfg slots ps s3 gz sha docs) e' \<and> ex_queue e' = ex_queue e"
proof -
  let ?e = "register tid (TaskCtx k) e"
  have "same_static (memory_executor cfg slots ps s3 gz sha docs) ?e" using e by (simp add: register_def)
  note b = process_body_ends [OF c t this]
  have u': "u' = cancel_ctx (TaskCtx k) (process_body ?e Parent (TaskCtx k) tid u)"
    using pr by (simp add: process_def Let_def)
  have "calm (Suc k) (cancel_ctx (TaskCtx k) v)" if "calm k v" for v :: "'a Services_scheme"
    using that by (auto simp: calm_def cancel_ctx_def)
  with b u' e process_executor [OF pr] show ?thesis by simp
qed

text \<open>One worker, as often as there are tasks in the queue.\<close>

fun work_all :: "nat \<Rightarrow> nat \<Rightarrow> 'a shared \<Rightarrow> 'a shared" where
  "work_all 0 k sh = sh"
| "work_all (Suc n) k sh =
     (case worker_step Parent k (fst sh) (snd sh) of None \<Rightarrow> sh | Some sh' \<Rightarrow> work_all n (Suc k) sh')"

lemma work_all_ends:
  assumes "calm k u" and "same_static (memory_executor cfg slots ps s3 gz sha docs) e"
    and "\<forall>tid \<in> set (ex_queue e). mysql_tasks u tid \<noteq> None"
    and "work_all (length (ex_queue e)) k (e, u) = (e', u')"
  shows "ex_queue e' = [] \<and>
    (\<forall>tid \<in> set (ex_queue e). \<exists>t. mysql_tasks u' tid = Some t \<and> IsTerminal (t_Status t)) \<and>
    (\<forall>tid. tid \<notin> set (ex_queue e) \<longrightarrow> mysql_tasks u' tid = mysql_tasks u tid)"
  using assms
proof (induction "ex_queue e" arbitrary: e u k)
  case Nil
  then show ?case by (metis empty_iff list.set(1) list.size(3) prod.inject work_all.simps(1))
next
  case (Cons tid q)
  let ?e = "e\<lparr>ex_queue := q\<rparr>" and ?S = "same_static (memory_executor cfg slots ps s3 gz sha docs)"
  let ?u = "set_queue_depth ?e u"
  obtain e1 u1 where pr: "process Parent k tid ?e ?u = (e1, u1)" by fastforce
  have "worker_step Parent k e u = Some (e1, u1)"
    using pr by (simp add: worker_step_def Let_def flip: Cons(2))
  then have wa: "work_all (length q) (Suc k) (e1, u1) = (e', u')"
    using Cons.prems(4) by (simp flip: Cons(2))
  have mu: "mysql_tasks ?u = mysql_tasks u" by (simp add: set_queue_depth_def)
  have c: "calm k ?u" using Cons.prems(1) by (simp add: set_queue_depth_def calm_emit)
  have ex: "\<forall>j \<in> insert tid (set q). mysql_tasks u j \<noteq> None"
    using Cons.prems(3) by (simp flip: Cons(2))
  then obtain t where "mysql_tasks ?u tid = Some t" using mu by auto
  note p = process_ends [OF c this same_static_upd(2) [OF Cons.prems(2)] pr]
  have q1: "ex_queue e1 = q" using p by simp
  have ex1: "\<forall>j \<in> set (ex_queue e1). mysql_tasks u1 j \<noteq> None"
    using p ex mu q1 by (auto simp: ends_task_def)
  have wa1: "work_all (length (ex_queue e1)) (Suc k) (e1, u1) = (e', u')" using wa q1 by simp
  from p have s1: "calm (Suc k) u1" "?S e1" by simp_all
  note IH = Cons.hyps(1) [OF q1 [symmetric] s1 ex1 wa1]
  show ?case
    using IH p mu q1 unfolding Cons(2) [symmetric] by (auto simp: ends_task_def)
qed

end
