(* ===== verification/Examples.thy ===== *)
theory Examples
  imports Deployment
begin

text \<open>
  Concrete inputs for the witnesses: three documents in two channels, a configuration with
  small limits, a bucket, a task, and a world without faults.
\<close>

definition demo_doc :: "string \<Rightarrow> int \<Rightarrow> string \<Rightarrow> gmap" where
  "demo_doc ch n text =
     [(''channelId'', GString ch), (''messageId'', json_of_int n),
      (''subSeq'', json_of_int 0), (''messageSeq'', json_of_int n),
      (''timestamp'', json_of_int 5), (''from'', GString ''u''),
      (''payload'', GMap [(''type'', json_of_int 1), (''text'', GMap [(''content'', GString text)])])]"

definition demo_docs :: "gmap list" where
  "demo_docs = [demo_doc ''a'' 1 ''x'', demo_doc ''b'' 2 ''y'', demo_doc ''a'' 3 ''z'']"

definition demo_cfg :: ExecutorConfig where
  "demo_cfg = \<lparr>ec_Index = ''m'', ec_PITKeepAlive = 1000000000, ec_Workers = 1, ec_QueueBuffer = 1,
     ec_PartMaxRows = 2, ec_PartMaxBytes = 1000, ec_MaxTaskHits = 10, ec_PerChannelHardCap = 1,
     ec_PageSize = 1\<rparr>"

definition demo_s3 :: S3Config where
  "demo_s3 = \<lparr>s3_Endpoint = [], s3_Bucket = ''b'', s3_Region = [], s3_AccessKey = [], s3_SecretKey = [],
     s3_UsePathStyle = False, s3_PresignTTL = 1000000000, s3_KeyPrefix = ''test''\<rparr>"

definition demo_scope :: Scope where
  "demo_scope = \<lparr>sc_Channels = [\<lparr>ch_ChannelID = ''b''\<rparr>, \<lparr>ch_ChannelID = ''a''\<rparr>]\<rparr>"

definition demo_range :: TimeRange where
  "demo_range = \<lparr>tr_StartTS = 1, tr_EndTS = 9\<rparr>"

definition demo_task :: Task where
  "demo_task = \<lparr>t_TaskID = ''t'', t_CallerService = ''c'', t_Status = StatusQueued, t_ActualCount = 0,
    t_Scope = demo_scope, t_TimeRange = demo_range, t_RequestID = ''r'', t_Warnings = [],
    t_ErrorCode = [], t_ErrorMessage = [], t_CreatedAt = 0, t_UpdatedAt = 0, t_ExpiresAt = 0\<rparr>"

definition demo_world :: Services where
  "demo_world = \<lparr>wd_clock = 0, wd_faults = [], wd_cancelled = [], wd_metrics = [],
     wd_stdout = [], wd_audit_file = [], batch_task = [], batch_task_part = [], sv_objects = []\<rparr>"

definition demo_exec :: "Services Executor" where
  "demo_exec = memory_executor demo_cfg 2 100 demo_s3 (\<lambda>s. s) (\<lambda>s. []) demo_docs"

lemma demo_run:
  "fst (run demo_exec Background demo_task demo_world) =
     (StatusPartial, 2, [channel_warning demo_cfg ''a'' 1], [], [])"
  by code_simp

lemma demo_run_result:
  "run demo_exec Background demo_task demo_world =
     ((StatusPartial, 2, [channel_warning demo_cfg ''a'' 1], [], []),
      snd (run demo_exec Background demo_task demo_world))"
  by (simp only: demo_run [symmetric] prod.collapse)

lemma demo_typed:
  "in_i64 (tr_StartTS (t_TimeRange demo_task))" "in_i64 (tr_EndTS (t_TimeRange demo_task))"
  "in_i64 (ec_PageSize (ex_cfg demo_exec))" "1 \<le> ec_PageSize (ex_cfg demo_exec)"
  by code_simp+

lemma demo_gzip: "we_gzip (ex_up demo_exec) x = x"
  by (simp add: demo_exec_def s3_writer_env_def)

lemma demo_gunzip: "Some (we_gzip (ex_up demo_exec) x) = Some x"
  by (simp add: demo_gzip)

lemma demo_partial: "StatusPartial \<noteq> StatusFailed"
  by simp

lemma demo_listed:
  "listed_export demo_exec objects_of (s3_key demo_s3) (os_hits (\<lambda>_. indexed demo_docs))"
  unfolding demo_exec_def by (rule memory_listed.listed_export_axioms)

lemma demo_storable: "storable_scope (t_Scope demo_task)"
  by code_simp

lemma demo_no_parts: "\<forall>r \<in> set (batch_task_part demo_world). pr_task_id r \<noteq> tid"
  by (simp add: demo_world_def)

text \<open>A task on one channel, which no limit cuts short.\<close>

definition demo_single :: Task where
  "demo_single = demo_task\<lparr>t_TaskID := ''s'', t_Scope := \<lparr>sc_Channels = [\<lparr>ch_ChannelID = ''b''\<rparr>]\<rparr>\<rparr>"

lemma demo_single_run:
  "fst (run demo_exec Background demo_single demo_world) = (StatusCompleted, 1, [], [], [])"
  by code_simp

lemma demo_single_result:
  "run demo_exec Background demo_single demo_world =
     ((StatusCompleted, 1, [], [], []), snd (run demo_exec Background demo_single demo_world))"
  by (simp only: demo_single_run [symmetric] prod.collapse)

lemma demo_single_typed:
  "in_i64 (tr_StartTS (t_TimeRange demo_single))" "in_i64 (tr_EndTS (t_TimeRange demo_single))"
  "storable_scope (t_Scope demo_single)"
  by code_simp+

lemma demo_env: "export_env demo_exec objects_of (s3_key demo_s3) (os_hits (\<lambda>_. indexed demo_docs))"
  unfolding demo_exec_def by (rule memory_run.export_env_axioms)

end
