(* ===== verification/Export_Properties.thy ===== *)
theory Export_Properties
  imports Examples
begin

text \<open>
  The properties of the export: what a finished run leaves in the bucket and in the table of
  parts, what a truncated one promises, the writer as a refinement of a plain grouping of
  lines, the lines as texts that read back, and the paging of the search.
\<close>

section \<open>What a run exports\<close>

text \<open>The hits of a task's channel in the view \<open>pit\<close>, and the lines of a list of hits.\<close>

definition hits_of :: "(string \<Rightarrow> string \<Rightarrow> int \<Rightarrow> int \<Rightarrow> Hit list) \<Rightarrow> string \<Rightarrow> Task \<Rightarrow> string \<Rightarrow> Hit list" where
  "hits_of result_set pit t ch =
     result_set pit ch (tr_StartTS (t_TimeRange t)) (tr_EndTS (t_TimeRange t))"

definition hit_lines :: "Hit list \<Rightarrow> string list" where
  "hit_lines hs = List.map_filter (\<lambda>h. line_of (input_of h)) hs"

lemma plan_lines_concat: "map snd (plan_lines p) = concat (map (\<lambda>(ch, hs). hit_lines hs) p)"
  by (induction p) (auto simp: plan_lines_def hit_lines_def comp_def)

text \<open>
  C1: A finished export is exact and listed. When \<open>run\<close> does not fail, the parts the table
  then lists for the task, fetched by their keys and decompressed, are together exactly the
  lines of the plan (channel by channel in byte order, newest message first): nothing lost,
  duplicated, reordered or mixed with other tasks. The reported count is the number of lines
  and the sum of the counts of the parts, and every part holds between one line and the
  configured maximum.
\<close>

theorem finished_export:
  assumes env: "listed_export e objects key result_set"
    and r: "run e c t u = ((status, n, ws, ec, em), u')" and ok: "status \<noteq> StatusFailed"
    and ty: "in_i64 (tr_StartTS (t_TimeRange t))" "in_i64 (tr_EndTS (t_TimeRange t))"
      "in_i64 (ec_PageSize (ex_cfg e))" "1 \<le> ec_PageSize (ex_cfg e)" "storable_scope (t_Scope t)"
    and none: "\<forall>q \<in> set (batch_task_part u). pr_task_id q \<noteq> t_TaskID t"
    and gz: "\<And>x. gunzip (we_gzip (ex_up e) x) = Some x"
  shows "\<exists>pit u1 p pt.
    os_OpenPIT (ex_os e) c (ec_Index (ex_cfg e)) (ec_PITKeepAlive (ex_cfg e)) u = (Inr pit, u1) \<and>
    plan (ex_cfg e) (hits_of result_set pit t) (sorted_channels t) 0 = (p, ws, pt) \<and>
    status = (if ws = [] then StatusCompleted else StatusPartial) \<and>
    read_parts gunzip (objects u') (mysql_parts u' (t_TaskID t)) =
      Some (map butlast (concat (map (\<lambda>(ch, hs). hit_lines hs) p))) \<and>
    n = int (length (plan_lines p)) \<and>
    n = sum_list (map p_MessageCount (mysql_parts u' (t_TaskID t))) \<and>
    (\<forall>q \<in> set (mysql_parts u' (t_TaskID t)).
       1 \<le> p_MessageCount q \<and> p_MessageCount q \<le> max 1 (ec_PartMaxRows (ex_cfg e)))"
  using listed_export.run_listed [OF env r ok ty none gz]
  by (simp add: hits_of_def [abs_def] plan_lines_concat [symmetric] comp_def)

theorem finished_export_witness:
  "\<exists>pit u1 p pt.
    os_OpenPIT (ex_os demo_exec) Background (ec_Index (ex_cfg demo_exec))
      (ec_PITKeepAlive (ex_cfg demo_exec)) demo_world = (Inr pit, u1) \<and>
    plan (ex_cfg demo_exec) (hits_of (os_hits (\<lambda>_. indexed demo_docs)) pit demo_task)
      (sorted_channels demo_task) 0 = (p, [channel_warning demo_cfg ''a'' 1], pt) \<and>
    read_parts Some (objects_of (snd (run demo_exec Background demo_task demo_world)))
        (mysql_parts (snd (run demo_exec Background demo_task demo_world)) (t_TaskID demo_task)) =
      Some (map butlast (concat (map (\<lambda>(ch, hs). hit_lines hs) p))) \<and>
    2 = int (length (plan_lines p))"
  using finished_export [OF demo_listed demo_run_result demo_partial demo_typed demo_storable
      demo_no_parts demo_gunzip]
  by fastforce

text \<open>
  C2: A completed export is complete. When \<open>run\<close> reports \<open>StatusCompleted\<close> it gives no warning
  and the listed parts hold every line of every hit of every channel in the time range.
\<close>

theorem completed_export:
  assumes env: "listed_export e objects key result_set"
    and r: "run e c t u = ((StatusCompleted, n, ws, ec, em), u')"
    and ty: "in_i64 (tr_StartTS (t_TimeRange t))" "in_i64 (tr_EndTS (t_TimeRange t))"
      "in_i64 (ec_PageSize (ex_cfg e))" "1 \<le> ec_PageSize (ex_cfg e)" "storable_scope (t_Scope t)"
    and none: "\<forall>q \<in> set (batch_task_part u). pr_task_id q \<noteq> t_TaskID t"
    and gz: "\<And>x. gunzip (we_gzip (ex_up e) x) = Some x"
  shows "ws = [] \<and> (\<exists>pit u1.
    os_OpenPIT (ex_os e) c (ec_Index (ex_cfg e)) (ec_PITKeepAlive (ex_cfg e)) u = (Inr pit, u1) \<and>
    read_parts gunzip (objects u') (mysql_parts u' (t_TaskID t)) =
      Some (map butlast (concat (map (\<lambda>ch. hit_lines (hits_of result_set pit t ch)) (sorted_channels t)))))"
proof -
  from listed_export.run_listed [OF env r _ ty none gz] obtain pit u1 p pt where
    op: "os_OpenPIT (ex_os e) c (ec_Index (ex_cfg e)) (ec_PITKeepAlive (ex_cfg e)) u = (Inr pit, u1)"
    and pl: "plan (ex_cfg e) (hits_of result_set pit t) (sorted_channels t) 0 = (p, ws, pt)"
    and ws: "ws = []"
    and rd: "read_parts gunzip (objects u') (mysql_parts u' (t_TaskID t)) =
      Some (map butlast (map snd (plan_lines p)))"
    by (auto simp: hits_of_def [abs_def] comp_def split: if_splits)
  have "p = map (\<lambda>ch. (ch, hits_of result_set pit t ch)) (sorted_channels t)"
    using plan_complete pl ws by blast
  then have "map snd (plan_lines p) =
      concat (map (\<lambda>ch. hit_lines (hits_of result_set pit t ch)) (sorted_channels t))"
    by (simp add: plan_lines_concat comp_def)
  with op ws rd show ?thesis by simp
qed

theorem completed_export_witness:
  "\<exists>pit u1. os_OpenPIT (ex_os demo_exec) Background (ec_Index (ex_cfg demo_exec))
      (ec_PITKeepAlive (ex_cfg demo_exec)) demo_world = (Inr pit, u1) \<and>
    read_parts Some (objects_of (snd (run demo_exec Background demo_single demo_world)))
        (mysql_parts (snd (run demo_exec Background demo_single demo_world)) (t_TaskID demo_single)) =
      Some (map butlast (concat (map (\<lambda>ch. hit_lines (hits_of (os_hits (\<lambda>_. indexed demo_docs))
        pit demo_single ch)) (sorted_channels demo_single))))"
  using completed_export [OF demo_listed demo_single_result demo_single_typed(1,2) demo_typed(3,4)
      demo_single_typed(3) demo_no_parts demo_gunzip]
  by simp

text \<open>
  C3: A truncated export says where it was cut. When \<open>run\<close> does not fail, each visited channel
  contributes its newest hits, at most as many as the channel cap; together they stay within
  the task limit, and the channels are visited in order without gaps. Every warning names a
  visited channel of which hits were left out, with the limit that did it and the number of
  hits taken.
\<close>

theorem truncated_export:
  assumes env: "listed_export e objects key result_set"
    and r: "run e c t u = ((status, n, ws, ec, em), u')" and ok: "status \<noteq> StatusFailed"
    and ty: "in_i64 (tr_StartTS (t_TimeRange t))" "in_i64 (tr_EndTS (t_TimeRange t))"
      "in_i64 (ec_PageSize (ex_cfg e))" "1 \<le> ec_PageSize (ex_cfg e)" "storable_scope (t_Scope t)"
    and none: "\<forall>q \<in> set (batch_task_part u). pr_task_id q \<noteq> t_TaskID t"
    and gz: "\<And>x. gunzip (we_gzip (ex_up e) x) = Some x"
    and lim: "0 \<le> ec_PerChannelHardCap (ex_cfg e)" "0 \<le> ec_MaxTaskHits (ex_cfg e)"
  shows "\<exists>pit u1 p.
    os_OpenPIT (ex_os e) c (ec_Index (ex_cfg e)) (ec_PITKeepAlive (ex_cfg e)) u = (Inr pit, u1) \<and>
    read_parts gunzip (objects u') (mysql_parts u' (t_TaskID t)) =
      Some (map butlast (concat (map (\<lambda>(ch, hs). hit_lines hs) p))) \<and>
    prefix (map fst p) (sorted_channels t) \<and>
    (\<forall>(ch, hs) \<in> set p. prefix hs (hits_of result_set pit t ch) \<and>
       int (length hs) \<le> ec_PerChannelHardCap (ex_cfg e)) \<and>
    int (length (concat (map snd p))) \<le> ec_MaxTaskHits (ex_cfg e) \<and>
    (\<forall>x \<in> set ws. \<exists>hs. (wn_ChannelID x, hs) \<in> set p \<and>
       length hs < length (hits_of result_set pit t (wn_ChannelID x)) \<and>
       (wn_Code x = WarnPerChannelTruncated \<and> wn_ActualSeen x = int (length hs) \<and>
          wn_Limit x = ec_PerChannelHardCap (ex_cfg e)
        \<or> wn_Code x = WarnTotalTruncated \<and> wn_ActualSeen x = int (length (concat (map snd p))) \<and>
          wn_Limit x = ec_MaxTaskHits (ex_cfg e)))"
proof -
  from listed_export.run_listed [OF env r ok ty none gz] obtain pit u1 p pt where
    op: "os_OpenPIT (ex_os e) c (ec_Index (ex_cfg e)) (ec_PITKeepAlive (ex_cfg e)) u = (Inr pit, u1)"
    and pl: "plan (ex_cfg e) (hits_of result_set pit t) (sorted_channels t) 0 = (p, ws, pt)"
    and rd: "read_parts gunzip (objects u') (mysql_parts u' (t_TaskID t)) =
      Some (map butlast (map snd (plan_lines p)))"
    by (auto simp: hits_of_def [abs_def] comp_def)
  have "\<exists>hs. (wn_ChannelID x, hs) \<in> set p \<and>
       length hs < length (hits_of result_set pit t (wn_ChannelID x)) \<and>
       (wn_Code x = WarnPerChannelTruncated \<and> wn_ActualSeen x = int (length hs) \<and>
          wn_Limit x = ec_PerChannelHardCap (ex_cfg e)
        \<or> wn_Code x = WarnTotalTruncated \<and> wn_ActualSeen x = pt \<and>
          wn_Limit x = ec_MaxTaskHits (ex_cfg e))" if "x \<in> set ws" for x
    using plan_warnings [OF pl that] by blast
  with plan_bounds [OF pl _ lim(2,1)] rd op show ?thesis
    by (intro exI [of _ pit] exI [of _ u1] exI [of _ p]) (simp add: plan_lines_concat)
qed

theorem truncated_export_witness:
  "\<exists>pit p. prefix (map fst p) (sorted_channels demo_task) \<and>
    int (length (concat (map snd p))) \<le> ec_MaxTaskHits (ex_cfg demo_exec) \<and>
    (\<exists>hs :: Hit list. (''a'', hs) \<in> set p \<and>
       length hs < length (hits_of (os_hits (\<lambda>_. indexed demo_docs)) pit demo_task ''a''))"
proof -
  have "0 \<le> ec_PerChannelHardCap (ex_cfg demo_exec)" "0 \<le> ec_MaxTaskHits (ex_cfg demo_exec)"
    by code_simp+
  note t = truncated_export [OF demo_listed demo_run_result demo_partial demo_typed demo_storable
      demo_no_parts demo_gunzip this]
  show ?thesis
    using t by (simp add: channel_warning_def) blast
qed

section \<open>The writer\<close>


definition demo_message :: "string \<Rightarrow> string \<Rightarrow> InputMessage" where
  "demo_message ch text =
     \<lparr>im_MessageSeq = 1, im_From = ''u'', im_ChannelID = ch, im_Timestamp = 5,
      im_Payload = Some [(''type'', GInt 1), (''text'', GMap [(''content'', GString text)])],
      im_PayloadRaw = None\<rparr>"

definition demo_ops :: "wop list" where
  "demo_ops = [OpStart ''a'', OpWrite (demo_message ''a'' ''x''), OpStart ''b'',
     OpWrite (demo_message ''b'' ''y''), OpWrite (demo_message ''b'' ''z'')]"

definition demo_env_w :: "nat WriterEnv" where
  "demo_env_w = \<lparr>we_Upload = (\<lambda>t c n day data u. (Inr (show_int n), Suc u)), we_gzip = (\<lambda>s. s),
     we_sha256 = (\<lambda>s. []), we_metric = (\<lambda>m u. u)\<rparr>"

definition demo_written :: "err option \<times> Writer \<times> nat" where
  "demo_written = write_ops demo_env_w demo_ops (NewWriter ''t'' ''c'' 1 1000 ''d'') 0"

lemma demo_written_ok:
  "write_ops demo_env_w demo_ops (NewWriter ''t'' ''c'' 1 1000 ''d'') 0 =
     (None, fst (snd demo_written), snd (snd demo_written))"
proof -
  have "fst demo_written = None" by code_simp
  then have "demo_written = (None, fst (snd demo_written), snd (snd demo_written))"
    by (metis prod.collapse)
  then show ?thesis by (simp only: demo_written_def)
qed

definition demo_finished :: "(Part list \<times> int) res \<times> Writer \<times> nat" where
  "demo_finished = Finish demo_env_w (fst (snd demo_written)) (snd (snd demo_written))"

lemma demo_finished_ok:
  "\<exists>ps w2 u2. Finish demo_env_w (fst (snd demo_written)) (snd (snd demo_written)) = (Inr (ps, 3), w2, u2) \<and>
     length ps = 3"
proof -
  have "map_sum (\<lambda>e. ()) (\<lambda>(ps, n). (length ps, n)) (fst demo_finished) = Inr (3, 3)" by code_simp
  then obtain ps where "fst demo_finished = Inr (ps, 3)" "length ps = 3"
    by (cases "fst demo_finished") auto
  then show ?thesis by (metis demo_finished_def prod.collapse)
qed


text \<open>
  C13: A line reads back. The line of a message, without its line feed, has no line feed in it
  and parses as JSON to the message's number, sender, channel, time and text, where bytes
  that are not UTF-8 have become the replacement character.
\<close>

theorem line_reads_back:
  assumes "line_of m = Some l" and "in_i64 (im_MessageSeq m)" and "in_i64 (im_Timestamp m)"
  shows "lf \<notin> set (butlast l) \<and> last l = lf \<and>
    (\<exists>text. fst (extractPayload (im_Payload m) (im_PayloadRaw m)) = Some text \<and>
       read_line (butlast l) = Some \<lparr>ol_MessageSeq = im_MessageSeq m,
         ol_FromUID = to_valid (im_From m), ol_ChannelID = to_valid (im_ChannelID m),
         ol_Timestamp = im_Timestamp m, ol_Payload = to_valid text\<rparr>)"
proof -
  from assms(1) obtain x js where t: "fst (extractPayload (im_Payload m) (im_PayloadRaw m)) = Some x"
    and js: "Marshal_outLine (outLine_of m x) = Some js" and l: "l = js @ [lf]"
    by (auto simp: line_of_def split: option.splits)
  have "read_line js = Some ((outLine_of m x)\<lparr>ol_FromUID := to_valid (im_From m),
      ol_ChannelID := to_valid (im_ChannelID m), ol_Payload := to_valid x\<rparr>)"
    using read_Marshal [of "outLine_of m x"] js assms(2,3) by (simp add: outLine_of_def)
  with t l Marshal_no_lf [OF js] show ?thesis by (simp add: outLine_of_def)
qed

theorem line_reads_back_witness:
  "\<exists>l. line_of (demo_message ''a'' [dq, lf]) = Some l \<and> lf \<notin> set (butlast l) \<and>
    (\<exists>x. read_line (butlast l) = Some x \<and> ol_ChannelID x = to_valid ''a'')"
proof -
  have "line_of (demo_message ''a'' [dq, lf]) \<noteq> None" by code_simp
  then obtain l where l: "line_of (demo_message ''a'' [dq, lf]) = Some l" by blast
  have "in_i64 (im_MessageSeq (demo_message ''a'' [dq, lf]))" "in_i64 (im_Timestamp (demo_message ''a'' [dq, lf]))"
    by (simp_all add: demo_message_def in_i64_def)
  from line_reads_back [OF l this] l show ?thesis by (auto simp: demo_message_def)
qed

section \<open>The limits hold whatever the index answers\<close>

text \<open>
  C11: No channel and no task exceeds its cap. Whatever pages the search returns, even pages of
  the wrong size, out of order or without end, \<open>drainChannel\<close> returns, has taken at most the
  channel cap from this channel and at most the task limit in all, and the total has risen by
  exactly the number of hits taken.
\<close>

theorem drain_within_limits:
  assumes "drainChannel e c w pit t ch tot u = ((seen, tr, tc, er), tot', w', u')"
    and "0 \<le> ec_PerChannelHardCap (ex_cfg e)" and "tot \<le> ec_MaxTaskHits (ex_cfg e)"
  shows "0 \<le> seen \<and> seen \<le> ec_PerChannelHardCap (ex_cfg e) \<and> tot' \<le> ec_MaxTaskHits (ex_cfg e) \<and>
    tot' = tot + seen"
  using drain_from_bounds [OF assms(1) [unfolded drainChannel_def] assms(2,3)] by simp

text \<open>An index that answers every search with the same two hits.\<close>

definition endless_exec :: "Services Executor" where
  "endless_exec = demo_exec
     \<lparr>ex_cfg := demo_cfg\<lparr>ec_PerChannelHardCap := 3\<rparr>,
      ex_os := (ex_os demo_exec)\<lparr>os_Search := (\<lambda>c req u.
        (Inr (replicate 2 (hit_of_source (demo_doc ''a'' 1 ''x'') [])), u))\<rparr>\<rparr>"

theorem drain_within_limits_witness:
  "\<exists>seen tr tc er tot' w' u'. drainChannel endless_exec Background (NewWriter ''t'' ''c'' 2 1000 ''d'')
      ''p'' demo_task ''a'' 0 demo_world = ((seen, tr, tc, er), tot', w', u') \<and>
    seen \<le> 3 \<and> tot' = seen"
proof -
  obtain seen tr tc er tot' w' u' where d: "drainChannel endless_exec Background
      (NewWriter ''t'' ''c'' 2 1000 ''d'') ''p'' demo_task ''a'' 0 demo_world = ((seen, tr, tc, er), tot', w', u')"
    by (metis surj_pair)
  have "0 \<le> ec_PerChannelHardCap (ex_cfg endless_exec)" "0 \<le> ec_MaxTaskHits (ex_cfg endless_exec)"
    "ec_PerChannelHardCap (ex_cfg endless_exec) = 3"
    by (simp_all add: endless_exec_def demo_cfg_def)
  with drain_within_limits [OF d] d show ?thesis by auto
qed

section \<open>Paging\<close>

text \<open>
  C12: Paging neither skips nor repeats. On an index whose documents have unique keys, a search
  with the sort values of the \<open>n\<close>-th hit as cursor (none for \<open>n = 0\<close>) returns exactly the hits
  \<open>n, n + 1, \<dots>\<close> up to the page size, of the documents of that channel and time range that
  are not virtual, newest first.
\<close>

theorem search_page:
  assumes "opensearch tp snapshot" and "OSClient_Search tp c req w = (Inr page, w')" and "request_ok req"
    and "hs = os_hits snapshot (sr_PITID req) (sr_ChannelID req) (sr_StartTS req) (sr_EndTS req)"
    and "n \<le> length hs" and "sr_SearchAfter req = (if n = 0 then [] else hit_Sort (hs ! (n - 1)))"
  shows "page = take (nat (sr_Size req)) (drop n hs)"
  using opensearch.page_exact [OF assms(1-5)] assms(6) by (simp add: cursor_at_def)

definition demo_request :: SearchRequest where
  "demo_request = \<lparr>sr_PITID = ''p'', sr_KeepAlive = 0, sr_ChannelID = ''a'', sr_StartTS = 1, sr_EndTS = 9,
     sr_Size = 1, sr_SearchAfter = [json_of_int 3, json_of_int 0]\<rparr>"

lemma demo_page:
  "map hit_MessageID (os_hits (\<lambda>_. indexed demo_docs) ''p'' ''a'' 1 9) = [3, 1]"
  "hit_Sort (hd (os_hits (\<lambda>_. indexed demo_docs) ''p'' ''a'' 1 9)) = [json_of_int 3, json_of_int 0]"
  by code_simp+

theorem search_page_witness:
  "\<exists>page w'. OSClient_Search (memory_OS demo_docs) Background demo_request demo_world = (Inr page, w') \<and>
     map hit_MessageID page = [1]"
proof -
  let ?hs = "os_hits (\<lambda>_. indexed demo_docs) ''p'' ''a'' 1 9"
  have "\<not> isl (fst (OSClient_Search (memory_OS demo_docs) Background demo_request demo_world))"
    by code_simp
  then obtain page w' where s:
    "OSClient_Search (memory_OS demo_docs) Background demo_request demo_world = (Inr page, w')"
    by (metis isl_def prod.collapse sum.exhaust_sel sum.disc(1))
  have len: "length ?hs = 2" using arg_cong [OF demo_page(1), of length] by simp
  then have "hit_Sort (?hs ! 0) = [json_of_int 3, json_of_int 0]"
    using demo_page(2) by (cases ?hs) auto
  then have "page = take (nat (sr_Size demo_request)) (drop 1 ?hs)"
    using search_page [OF memory_os.opensearch_axioms s, of ?hs 1] len
    by (simp add: demo_request_def request_ok_def in_i64_def)
  then have "map hit_MessageID page = take 1 (drop 1 (map hit_MessageID ?hs))"
    by (simp add: demo_request_def drop_map take_map)
  with s show ?thesis by (simp add: demo_page)
qed

end
