(* ===== verification/Finished_Task.thy ===== *)
theory Finished_Task
  imports Export_Properties
begin

text \<open>
  From the queue to the answer of the API on the reference services: a task whose stored status
  is completed has all its lines in the bucket, and the owner's GET lists exactly its parts.
\<close>

section \<open>Calls that leave the parts and the objects alone\<close>

definition same_files :: "'a Services_scheme \<Rightarrow> 'a Services_scheme \<Rightarrow> bool" where
  "same_files u u' \<longleftrightarrow> batch_task_part u' = batch_task_part u \<and> sv_objects u' = sv_objects u"

lemma same_files_refl [simp]: "same_files u u"
  by (simp add: same_files_def)

lemma same_files_trans: "same_files u v \<Longrightarrow> same_files v w \<Longrightarrow> same_files u w"
  by (simp add: same_files_def)

lemma same_files_upd [simp]:
  "same_files u (emit m v) = same_files u v"
  "same_files u (cancel_ctx c v) = same_files u v"
  "same_files u (update_tasks P f v) = same_files u v"
  "same_files u (set_inflight e v) = same_files u v"
  "same_files u (v\<lparr>wd_faults := fs\<rparr>) = same_files u v"
  by (simp_all add: same_files_def emit_def cancel_ctx_def update_tasks_def set_inflight_def)

lemma same_files_store:
  "MySQLStore_Get c tid u = (r, u') \<Longrightarrow> same_files u u'"
  "MySQLStore_UpdateStatus c tid s u = (q, u') \<Longrightarrow> same_files u u'"
  "MySQLStore_Finalize c tid s n ws ec em u = (q, u') \<Longrightarrow> same_files u u'"
  by (auto simp: MySQLStore_Get_def MySQLStore_UpdateStatus_def MySQLStore_Finalize_def Let_def
      elim!: remote_query_cases remote_exec_cases split: prod.splits sum.splits option.splits)

lemma same_files_append [simp]: "same_files u (append_file s v) = same_files u v"
  by (auto simp: append_file_def same_files_def take_fault_def split: prod.splits fault.splits list.splits)

lemma same_files_audit [simp]: "same_files u (Auditor_Log a ev v) = same_files u v"
proof -
  have "same_files u (v\<lparr>wd_stdout := ls\<rparr>) = same_files u v" for ls
    by (simp add: same_files_def)
  then show ?thesis by (simp add: Auditor_Log_def Let_def)
qed

lemma same_files_read:
  "same_files u u' \<Longrightarrow> objects_of u' = objects_of u \<and> mysql_parts u' = mysql_parts u"
  by (simp add: same_files_def objects_of_def mysql_parts_def fun_eq_iff)

lemma finalize_task_files:
  assumes "ex_store e = MySQLStore" and "ex_audit e = Some (Auditor_Log au)"
  shows "same_files u (finalize_task e parent tc tid t r u)"
proof -
  obtain s n ws ec em where fr: "final_result tc r u = (s, n, ws, ec, em)" by (metis prod.exhaust)
  let ?c = "if ctx_Err parent u then Background else parent"
  obtain q u1 where f: "MySQLStore_Finalize ?c tid s n ws ec em u = (q, u1)" by fastforce
  from same_files_store(3) [OF f] f fr assms show ?thesis
    by (cases q) (simp_all add: finalize_task_def MySQLStore_def Let_def)
qed

section \<open>The contract at any later moment\<close>

text \<open>The export depends on the executor's configuration and services only.\<close>

lemma listed_export_same:
  assumes "listed_export e0 objects key result_set" and "same_static e0 e"
  shows "listed_export e objects key result_set"
proof -
  have "ex_os e = ex_os e0" "ex_up e = ex_up e0" "ex_store e = ex_store e0"
    by (subst assms(2) [unfolded same_static_def], simp)+
  with assms(1) show ?thesis
    by (simp add: listed_export_def listed_export_axioms_def export_env_def export_env_axioms_def)
qed

lemma mysql_task_id: "mysql_tasks u tid = Some t \<Longrightarrow> t_TaskID t = tid"
  by (auto simp: mysql_tasks_def table_tasks_def scanTask_def dest: find_key split: option.splits sum.splits)

lemma touched_status:
  "touched tid f m m' \<Longrightarrow> m' tid = Some t' \<Longrightarrow> \<exists>t n. m tid = Some t \<and> t' = (f t)\<lparr>t_UpdatedAt := n\<rparr>"
  unfolding touched_def by (cases "m tid") (fastforce simp del: Task.update_convs)+

section \<open>A completed task\<close>

text \<open>
  A status that \<open>finalize_task\<close> leaves behind is the one it was given, with the count of the
  run, unless the row is as it was before the call.
\<close>

lemma finalize_task_stored:
  assumes st: "ex_store e = MySQLStore" "ex_audit e = Some (Auditor_Log au)" and q: "au_f au"
    and fr: "final_result tc r u = (s, n, ws, ec, em)" and tm: "IsTerminal s"
    and t': "mysql_tasks (finalize_task e parent tc tid t r u) tid = Some t'"
  shows "mysql_tasks u tid = Some t' \<or> t_Status t' = s \<and> t_ActualCount t' = n"
proof -
  let ?c = "if ctx_Err parent u then Background else parent"
  obtain q u1 where f: "MySQLStore_Finalize ?c tid s n ws ec em u = (q, u1)" by fastforce
  have "mysql_tasks (finalize_task e parent tc tid t r u) = mysql_tasks u1"
    using f fr st(2) st(1)
    by (cases q) (simp_all add: finalize_task_def MySQLStore_def Let_def set_inflight_def
        quiet_tables [OF Auditor_quiet])
  with mysql_Finalize [OF f terminal_named [OF tm]] t' show ?thesis
    by (cases q) (auto simp: set_final_def dest!: touched_status)
qed

text \<open>A worker that finds an open task and leaves it completed has read it and marked it running.\<close>

lemma process_body_started:
  assumes ops: "ex_store e = MySQLStore"
    and t: "mysql_tasks u tid = Some t" "\<not> IsTerminal (t_Status t)"
    and t': "mysql_tasks (process_body e parent tc tid u) tid = Some t'" "t_Status t' = StatusCompleted"
  obtains u2 r u3 where "same_files u u2" "run e tc t u2 = (r, u3)"
    "\<forall>x. mysql_tasks u2 tid = Some x \<longrightarrow> t_Status x \<noteq> StatusCompleted"
    "process_body e parent tc tid u = finalize_task e parent tc tid t r u3"
proof -
  have st: "st_Get (ex_store e) = MySQLStore_Get" "st_UpdateStatus (ex_store e) = MySQLStore_UpdateStatus"
    "st_Finalize (ex_store e) = MySQLStore_Finalize" by (simp_all add: ops MySQLStore_def)
  let ?p = "process_body e parent tc tid u"
  obtain r u1 where g: "MySQLStore_Get tc tid u = (r, u1)" by fastforce
  note get = mysql_Get [OF g]
  have body: "?p = (case r of Inl _ \<Rightarrow> u1 | Inr t \<Rightarrow> if IsTerminal (t_Status t) then u1
      else (case MySQLStore_UpdateStatus tc tid StatusRunning u1 of
          (Some _, u2) \<Rightarrow> snd (MySQLStore_Finalize parent tid StatusFailed 0 [] ''internal_error''
             ''update status running failed'' u2)
        | (None, u2) \<Rightarrow> (case run e tc t (set_inflight e u2) of (r, u3) \<Rightarrow> finalize_task e parent tc tid t r u3)))"
    unfolding process_body_def st g by simp
  have r: "r = Inr t"
  proof (cases r)
    case (Inl x)
    with body get t t' show ?thesis by auto
  qed (use get t in auto)
  obtain q u2 where up: "MySQLStore_UpdateStatus tc tid StatusRunning u1 = (q, u2)" by fastforce
  have m2: "\<forall>x. mysql_tasks u2 tid = Some x \<longrightarrow> t_Status x \<in> {t_Status t, StatusRunning}"
    using mysql_UpdateStatus [OF up] get t
    by (cases q) (auto simp: set_status_def dest!: touched_status)
  have "q = None"
  proof (cases q)
    case (Some x)
    obtain q3 u3 where f: "MySQLStore_Finalize parent tid StatusFailed 0 [] ''internal_error''
        ''update status running failed'' u2 = (q3, u3)" by fastforce
    have p: "?p = u3" using body r t(2) up Some f by simp
    have "mysql_tasks u3 = mysql_tasks u2 \<or> t_Status t' = StatusFailed"
      using mysql_Finalize [OF f] t' p by (cases q3) (auto simp: set_final_def dest!: touched_status)
    with m2 p t t' show ?thesis by auto
  qed
  obtain res u3 where ru: "run e tc t (set_inflight e u2) = (res, u3)" by fastforce
  have "?p = finalize_task e parent tc tid t res u3" using body r t(2) up \<open>q = None\<close> ru by simp
  moreover have "same_files u (set_inflight e u2)"
    using same_files_store(1) [OF g] same_files_store(2) [OF up] by (auto intro: same_files_trans)
  moreover have "mysql_tasks (set_inflight e u2) = mysql_tasks u2"
    by (simp add: mysql_tasks_def set_inflight_def emit_def)
  moreover have "t_Status t \<noteq> StatusCompleted" using t(2) by auto
  then have "\<forall>x. mysql_tasks u2 tid = Some x \<longrightarrow> t_Status x \<noteq> StatusCompleted" using m2 by fastforce
  ultimately show ?thesis using that [OF _ ru] by simp
qed

text \<open>What \<open>process_body\<close> has done when it leaves the status completed behind.\<close>

lemma process_body_completed:
  assumes e: "same_static (memory_executor cfg slots ps s3 gz sha docs) e"
    and t: "mysql_tasks u tid = Some t" "\<not> IsTerminal (t_Status t)"
    and t': "mysql_tasks (process_body e parent tc tid u) tid = Some t'" "t_Status t' = StatusCompleted"
  shows "\<exists>u2 n ws ec em u3. run e tc t u2 = ((StatusCompleted, n, ws, ec, em), u3) \<and>
    same_files u u2 \<and> same_files u3 (process_body e parent tc tid u) \<and> t_ActualCount t' = n"
proof -
  have st: "ex_store e = MySQLStore" "ex_audit e = Some (Auditor_Log \<lparr>au_f = True\<rparr>)"
    using memory_same_static [OF e] memory_at_simps(2) memory_at_audit by metis+
  from process_body_started [OF st(1) t t'] obtain u2 r u3 where
    sf: "same_files u u2" and ru: "run e tc t u2 = (r, u3)"
    and m2: "\<forall>x. mysql_tasks u2 tid = Some x \<longrightarrow> t_Status x \<noteq> StatusCompleted"
    and p: "process_body e parent tc tid u = finalize_task e parent tc tid t r u3" .
  obtain s n ws ec em where r: "r = (s, n, ws, ec, em)" by (metis prod.exhaust)
  obtain s' n' ws' ec' em' where fr: "final_result tc r u3 = (s', n', ws', ec', em')" by (metis prod.exhaust)
  have "mysql_tasks u3 = mysql_tasks u2" using memory_run_tasks [OF e ru] by (simp add: mysql_tasks_def)
  with finalize_task_stored [OF st _ fr final_result_terminal [OF ru fr] t'(1) [unfolded p]] m2 t'(2)
  have "s' = StatusCompleted" "t_ActualCount t' = n'" by auto
  with fr r have "s = StatusCompleted \<and> n = t_ActualCount t'"
    by (auto simp: final_result_def split: if_splits)
  moreover have "same_files u3 (process_body e parent tc tid u)"
    unfolding p using finalize_task_files [OF st] .
  ultimately show ?thesis using ru r sf by blast
qed


text \<open>A queued task on one channel, processed on the demonstration services.\<close>

definition queued_row :: TaskRow where
  "queued_row =
     \<lparr>r_task_id = ''s'', r_caller_service = ''c'', r_status = 0, r_actual_count = 0,
      r_scope_json = scope_json \<lparr>sc_Channels = [\<lparr>ch_ChannelID = ''b''\<rparr>]\<rparr>,
      r_time_range_start = 1, r_time_range_end = 9, r_request_id = ''r'', r_warnings_json = None,
      r_error_code = [], r_error_message = None, r_created_at = 0, r_updated_at = 0, r_expires_at = 9\<rparr>"

definition queued_world :: Services where
  "queued_world = demo_world\<lparr>batch_task := [queued_row]\<rparr>"

definition processed :: "Services Executor \<times> Services" where
  "processed = process Parent 0 ''s'' demo_exec queued_world"

lemma queued_task:
  "mysql_tasks queued_world ''s'' = Some (the (mysql_tasks queued_world ''s''))"
  "t_Status (the (mysql_tasks queued_world ''s'')) \<in> {StatusQueued, StatusRunning}"
  "in_i64 (tr_StartTS (t_TimeRange (the (mysql_tasks queued_world ''s''))))"
  "in_i64 (tr_EndTS (t_TimeRange (the (mysql_tasks queued_world ''s''))))"
  "storable_scope (t_Scope (the (mysql_tasks queued_world ''s'')))"
  by code_simp+

definition end_facts :: "Services \<Rightarrow> (Status \<times> string) option \<times> fault list \<times> ctx list" where
  "end_facts w = (map_option (\<lambda>t. (t_Status t, t_CallerService t)) (mysql_tasks w ''s''), wd_faults w, wd_cancelled w)"

lemma processed_facts: "end_facts (snd processed) = (Some (StatusCompleted, ''c''), [], [TaskCtx 0])"
  by code_simp

lemma processed_completed:
  "map_option t_Status (mysql_tasks (snd processed) ''s'') = Some StatusCompleted"
  using processed_facts by (cases "mysql_tasks (snd processed) ''s''") (auto simp: end_facts_def)

lemma demo_static: "same_static (memory_executor demo_cfg 2 100 demo_s3 (\<lambda>s. s) (\<lambda>s. []) demo_docs) demo_exec"
  by (simp add: demo_exec_def same_static_def)


section \<open>The answer to the owner\<close>

text \<open>What the API lists of a part: a signed URL of its object, its numbers and its channel.\<close>

definition listed_part :: "S3Config \<Rightarrow> int \<Rightarrow> Part \<Rightarrow> gval" where
  "listed_part s3 now p =
     partOut (''https://'' @ s3_Bucket s3 @ ''/'' @ p_S3Key p) ((now + s3_PresignTTL s3) div 1000000000) p"

lemma memory_Presign:
  "S3Uploader_Presign s3 memory_S3 k u =
     (Inr (''https://'' @ s3_Bucket s3 @ ''/'' @ k, (wd_clock u + s3_PresignTTL s3) div 1000000000), u)"
  by (simp add: S3Uploader_Presign_def memory_S3_def)

lemma memory_presign_parts:
  "presign_parts \<lparr>ps_Presign = S3Uploader_Presign s3 memory_S3\<rparr> qs u =
     (Inr (map (listed_part s3 (wd_clock u)) qs), u)"
  by (induction qs) (simp_all add: memory_Presign listed_part_def)

lemma quiet_Get:
  assumes "wd_faults u = []" and "\<not> ctx_Err c u" and "mysql_tasks u tid = Some t"
  shows "MySQLStore_Get c tid u = (Inr t, u)"
proof -
  have "scanTask (select_task tid u) = Inr t"
    using assms(3) by (auto simp: mysql_tasks_def table_tasks_def select_task_def split: sum.splits)
  with assms(1,2) show ?thesis
    by (simp add: MySQLStore_Get_def remote_query_def take_fault_def)
qed

lemma quiet_GetParts:
  "wd_faults u = [] \<Longrightarrow> \<not> ctx_Err c u \<Longrightarrow> MySQLStore_GetParts c tid u = (Inr (mysql_parts u tid), u)"
  by (simp add: MySQLStore_GetParts_def mysql_parts_def remote_query_def take_fault_def)


definition demo_env_r :: request_env where
  "demo_env_r = \<lparr>re_ctx = Background, re_select = \<lparr>se_pick = 0, se_fired = False\<rparr>,
     re_task_bytes = replicate 16 7, re_id_bytes = Some (replicate 16 9)\<rparr>"

lemma processed_quiet: "wd_faults (snd processed) = []" "\<not> ctx_Err (re_ctx demo_env_r) (snd processed)"
  "map_option t_CallerService (mysql_tasks (snd processed) ''s'') = Some ''c''"
  using processed_facts
  by (cases "mysql_tasks (snd processed) ''s''", auto simp: end_facts_def demo_env_r_def ctx_Err_def)+


end
