(* ===== verification/System_Properties.thy ===== *)
theory System_Properties
  imports Finished_Task
begin

text \<open>
  The properties of the running service, over every interleaving of submit requests, cancel
  requests and workers: slots, the queue, ownership of tasks, the cancel signal, the statuses
  that are final and the one that is not, and the end of every queued task.
\<close>

section \<open>A system that runs\<close>

text \<open>
  One submit thread, one worker and one cancel thread over the demonstration services with a
  single slot, in the states they go through from a submission to the work on its task.
\<close>

definition sys_exec :: "Services Executor" where
  "sys_exec = memory_executor demo_cfg 1 100 demo_s3 (\<lambda>s. s) (\<lambda>s. []) demo_docs"

definition sys_cn :: "Services Executor \<Rightarrow> Services Canceller" where
  "sys_cn = wire_canceller (read_config (\<lambda>_. None)) MySQLStore memory_S3 \<lparr>au_f = False\<rparr>"

lemma sys_demo_env: "sys_env sys_exec mysql_tasks mysql_invar sys_cn"
  unfolding sys_exec_def sys_cn_def by (rule memory_sys.sys_env_axioms)

definition sys_task :: Task where
  "sys_task = new_task (NewTaskID 0 [1]) ''c'' ''r'' 1 \<lparr>rq_Scope = demo_scope, rq_TimeRange = demo_range\<rparr>"

definition created :: "Task res \<times> Services" where
  "created = MySQLStore_Create Background sys_task demo_world"

definition demo_sys :: "submit_pc \<Rightarrow> worker_pc \<Rightarrow> Services Executor \<Rightarrow> Services \<Rightarrow> nat \<Rightarrow> _ Sys" where
  "demo_sys p w e u n = \<lparr>sy_shared = (e, u), sy_subs = [p], sy_workers = [w], sy_cans = [CanIdle], sy_next = n\<rparr>"

lemma demo_sys_simps [simp]:
  "sy_shared (demo_sys p w e u n) = (e, u)" "sy_subs (demo_sys p w e u n) = [p]"
  "sy_workers (demo_sys p w e u n) = [w]" "sy_next (demo_sys p w e u n) = n"
  "sy_cans (demo_sys p w e u n) = [CanIdle]"
  by (simp_all add: demo_sys_def)

lemma demo_sub: "sub_step p (e, u) p' (e', u') \<Longrightarrow> sys_step cn (demo_sys p w e u n) (demo_sys p' w e' u' n)"
  using sys_sub [of 0 "demo_sys p w e u n" p' "(e', u')" cn] by (simp add: demo_sys_def)

lemma demo_work: "work_step n w (e, u) w' (e', u') \<Longrightarrow>
    sys_step cn (demo_sys p w e u n) (demo_sys p w' e' u' (Suc n))"
  using sys_work [of 0 "demo_sys p w e u n" w' "(e', u')" cn] by (simp add: demo_sys_def)

definition slot_taken :: "Services Executor" where
  "slot_taken = sys_exec\<lparr>ex_gate := \<lparr>g_cap = 1, g_len = 1\<rparr>\<rparr>"

lemma sys_exec_simps [simp]:
  "ex_gate sys_exec = \<lparr>g_cap = 1, g_len = 0\<rparr>" "ex_queue sys_exec = []" "ex_cancels sys_exec = (\<lambda>_. None)"
  "ex_store sys_exec = MySQLStore" "ec_QueueBuffer (ex_cfg sys_exec) = 1"
  by (simp_all add: sys_exec_def memory_executor_def Executor_New_def NewGate_def Let_def demo_cfg_def)

lemma sys_start: "sys_init (demo_sys SubIdle WIdle sys_exec u 0)"
  by (simp add: sys_init_def gate_ok_def)

lemma sys_start_static: "same_static sys_exec (fst (sy_shared (demo_sys p w sys_exec u n)))"
  by (simp add: same_static_def)

lemma sys_start_invar: "mysql_invar (snd (sy_shared (demo_sys p w e demo_world n)))"
  by (simp add: mysql_invar_def table_ok_def demo_world_def)

abbreviation sys_tid :: string where
  "sys_tid \<equiv> t_TaskID sys_task"

lemma step_admit:
  "sys_step cn (demo_sys SubIdle w sys_exec demo_world n) (demo_sys (SubAdmitted sys_task) w slot_taken demo_world n)"
proof (rule demo_sub)
  have a: "Acquire \<lparr>se_pick = 0, se_fired = False\<rparr> False 0 (ex_gate sys_exec) = (True, \<lparr>g_cap = 1, g_len = 1\<rparr>)"
    by (simp add: Acquire_def ready_cases_def)
  have "storable_scope demo_scope" using demo_storable by (simp add: demo_task_def)
  then have s: "storable_scope (rq_Scope \<lparr>rq_Scope = demo_scope, rq_TimeRange = demo_range\<rparr>)" by simp
  have "NewTaskID (wd_clock demo_world) [1] = NewTaskID 0 [1]" by (simp add: demo_world_def)
  with sub_admit [OF a s, of demo_world "[1]" "''c''" "''r''" 1]
  show "sub_step SubIdle (sys_exec, demo_world) (SubAdmitted sys_task) (slot_taken, demo_world)"
    by (simp add: sys_task_def slot_taken_def)
qed

lemma created_ok: "\<exists>t'. st_Create MySQLStore Background sys_task demo_world = (Inr t', snd created)"
proof -
  have "\<not> isl (fst created)" by code_simp
  then obtain t' where "fst created = Inr t'" by (cases "fst created") auto
  then have "created = (Inr t', snd created)" by (metis prod.collapse)
  then show ?thesis by (auto simp: created_def MySQLStore_def)
qed

lemma step_create:
  "sys_step cn (demo_sys (SubAdmitted sys_task) w slot_taken demo_world n)
     (demo_sys (SubCreated sys_tid) w slot_taken (snd created) n)"
proof -
  from created_ok obtain t' where "st_Create (ex_store slot_taken) Background sys_task demo_world = (Inr t', snd created)"
    by (auto simp: slot_taken_def)
  from demo_sub [OF sub_create [OF this]] show ?thesis .
qed

definition enqueued :: "Services Executor" where
  "enqueued = slot_taken\<lparr>ex_queue := [sys_tid]\<rparr>"

definition enqueued_world :: Services where
  "enqueued_world = set_queue_depth enqueued (snd created)"

lemma step_enqueue:
  "sys_step cn (demo_sys (SubCreated sys_tid) w slot_taken (snd created) n)
     (demo_sys SubIdle w enqueued enqueued_world n)"
  by (rule demo_sub, rule sub_enqueue)
    (simp add: Enqueue_def Let_def slot_taken_def enqueued_def enqueued_world_def)

definition received_world :: Services where
  "received_world = set_queue_depth slot_taken enqueued_world"

lemma step_receive:
  "sys_step cn (demo_sys p WIdle enqueued enqueued_world n)
     (demo_sys p (WTaken sys_tid) slot_taken received_world (Suc n))"
proof (rule demo_work)
  have "ex_queue enqueued = [sys_tid]" "enqueued\<lparr>ex_queue := []\<rparr> = slot_taken"
    by (simp_all add: enqueued_def slot_taken_def)
  from work_receive [OF this(1), of n enqueued_world] this(2)
  show "work_step n WIdle (enqueued, enqueued_world) (WTaken sys_tid) (slot_taken, received_world)"
    by (simp add: received_world_def)
qed

definition at_work :: "Services Executor" where
  "at_work = register sys_tid (TaskCtx 1) slot_taken"

lemma step_register:
  "sys_step cn (demo_sys p (WTaken sys_tid) slot_taken u 1)
     (demo_sys p (WGet sys_tid 1) at_work u 2)"
  using demo_work [OF work_register [of 1 sys_tid slot_taken u], of cn p] by (simp add: at_work_def numeral_2_eq_2)

lemma reach_created:
  "reachable cn (demo_sys SubIdle WIdle sys_exec demo_world 0)
     (demo_sys (SubCreated sys_tid) WIdle slot_taken (snd created) 0)"
  unfolding reachable_def using step_admit step_create by (meson converse_rtranclp_into_rtranclp rtranclp.rtrancl_refl)

lemma reach_work:
  "reachable cn (demo_sys SubIdle WIdle sys_exec demo_world 0)
     (demo_sys SubIdle (WGet sys_tid 1) at_work received_world 2)"
proof -
  have "sys_step cn (demo_sys SubIdle WIdle enqueued enqueued_world 0)
      (demo_sys SubIdle (WTaken sys_tid) slot_taken received_world 1)"
    using step_receive [of cn SubIdle 0] by simp
  with reach_created [of cn] step_enqueue [of cn WIdle 0] step_register [of cn SubIdle received_world]
  show ?thesis unfolding reachable_def by (meson rtranclp.rtrancl_into_rtrancl)
qed

section \<open>Slots\<close>

text \<open>
  C5: No slot is lost, freed twice or overbooked. In every state the service can reach, the
  gate counts exactly the slots in use: one per request between \<open>Acquire\<close> and \<open>Enqueue\<close> or its
  release, one per task in the queue, one per task a worker has; and never more than its
  capacity, on every outcome of every call.
\<close>

theorem slots_never_leak:
  assumes "reachable cn s0 s" and "sys_init s0"
  shows "g_len (ex_gate (fst (sy_shared s))) =
      int (sum_list (map sub_slots (sy_subs s)) + length (ex_queue (fst (sy_shared s)))
         + sum_list (map work_slots (sy_workers s))) \<and>
    g_len (ex_gate (fst (sy_shared s))) \<le> g_cap (ex_gate (fst (sy_shared s0)))"
  using slots_reachable [OF assms] by (auto simp: slots_ok_def slots_held_def gate_ok_def)

theorem slots_never_leak_witness:
  "g_len (ex_gate slot_taken) = 1 \<and> (1 :: int) \<le> g_cap (ex_gate sys_exec)"
  using slots_never_leak [OF reach_created [of sys_cn] sys_start] by (simp add: slot_taken_def)

text \<open>
  C18: The queue is never full when its buffer has room for every slot. With at least as many
  places in the queue as slots in the gate, as in the default configuration, a request that
  has persisted its task always finds a place: the branch of \<open>Submit\<close> that fails the task with
  \<open>queue full\<close> cannot be reached.
\<close>

theorem queue_never_full:
  assumes "reachable cn s0 s" and "sys_init s0" and "i < length (sy_subs s)"
    and "sy_subs s ! i = SubCreated tid"
    and "g_cap (ex_gate (fst (sy_shared s0))) \<le> ec_QueueBuffer (ex_cfg (fst (sy_shared s0)))"
  shows "\<exists>e' u'. Enqueue tid (fst (sy_shared s)) (snd (sy_shared s)) = (None, e', u')"
  using slots_reachable [OF assms(1,2)] enqueue_has_room [OF _ assms(3,4)] assms(5) by metis

theorem queue_never_full_witness:
  "\<exists>e' u'. Enqueue sys_tid slot_taken (snd created) = (None, e', u')"
  using queue_never_full [OF reach_created [of sys_cn] sys_start, of 0 sys_tid] by simp

section \<open>Ownership\<close>

text \<open>
  C6: No task is worked on twice. In every reachable state a task some worker has taken is
  neither in the queue nor with another worker.
\<close>

theorem one_worker_per_task:
  assumes "sys_env e0 tasks invar cn" and "reachable cn s0 s" and "sys_init s0"
    and "same_static e0 (fst (sy_shared s0))" and "invar (snd (sy_shared s0))"
    and "i < length (sy_workers s)" and "tid \<in># work_ids (sy_workers s ! i)"
  shows "tid \<notin> set (ex_queue (fst (sy_shared s))) \<and>
    (\<forall>j < length (sy_workers s). tid \<in># work_ids (sy_workers s ! j) \<longrightarrow> j = i)"
  using sys_env.one_owner [OF assms(1) sys_env.sys_ok_reachable [OF assms(1-5)] assms(6,7)] .

theorem one_worker_per_task_witness: "sys_tid \<notin> set (ex_queue at_work)"
  using one_worker_per_task [OF sys_demo_env reach_work sys_start sys_start_static sys_start_invar,
      of 0 sys_tid] by simp

text \<open>
  C19: A cancel signal hits its task and no other. While a worker is between registering a task
  and taking it out of the registry, \<open>CancelTask\<close> cancels exactly the context this worker runs
  the task under, and no other worker holds that context.
\<close>

theorem cancel_signal_hits:
  assumes "sys_env e0 tasks invar cn" and "reachable cn s0 s" and "sys_init s0"
    and "same_static e0 (fst (sy_shared s0))" and "invar (snd (sy_shared s0))"
    and "i < length (sy_workers s)" and "entry (sy_workers s ! i) = Some (tid, k)"
  shows "CancelTask tid (fst (sy_shared s)) u = cancel_ctx (TaskCtx k) u \<and>
    (\<forall>j < length (sy_workers s). k \<in># ctxs (sy_workers s ! j) \<longrightarrow> j = i)"
  using sys_env.signal_reaches [OF assms(1) sys_env.sys_ok_reachable [OF assms(1-5)] assms(6,7)] .

theorem cancel_signal_hits_witness:
  "CancelTask sys_tid at_work received_world = cancel_ctx (TaskCtx 1) received_world"
  using cancel_signal_hits [OF sys_demo_env reach_work sys_start sys_start_static sys_start_invar,
      of 0 sys_tid 1] by simp

section \<open>What is final and what is not\<close>

text \<open>
  C7: Completed, partial and failed are final. Once the stored status of a task is one of
  them, no later step of any thread, whatever fails, changes anything of the stored task.
\<close>

theorem settled_is_final:
  assumes "sys_env e0 tasks invar cn" and "reachable cn s0 s" and "sys_init s0"
    and "same_static e0 (fst (sy_shared s0))" and "invar (snd (sy_shared s0))"
    and "tasks (snd (sy_shared s)) tid = Some t"
    and "t_Status t \<in> {StatusCompleted, StatusPartial, StatusFailed}"
    and "(sys_step cn)\<^sup>*\<^sup>* s s'"
  shows "tasks (snd (sy_shared s')) tid = Some t"
  using sys_env.settled_reachable [OF assms(1,8) sys_env.sys_ok_reachable [OF assms(1-5)] assms(6,7)] .

definition settled_world :: Services where
  "settled_world = demo_world\<lparr>batch_task := [queued_row\<lparr>r_status := 2\<rparr>]\<rparr>"

lemma settled_task:
  "mysql_invar settled_world" "mysql_tasks settled_world ''s'' = Some (the (mysql_tasks settled_world ''s''))"
  "t_Status (the (mysql_tasks settled_world ''s'')) \<in> {StatusCompleted, StatusPartial, StatusFailed}"
  by code_simp+

theorem settled_is_final_witness:
  "\<exists>s'. (sys_step sys_cn)\<^sup>*\<^sup>* (demo_sys SubIdle WIdle sys_exec settled_world 0) s' \<and>
     mysql_tasks (snd (sy_shared s')) ''s'' = Some (the (mysql_tasks settled_world ''s''))"
proof -
  let ?s = "demo_sys SubIdle WIdle sys_exec settled_world 0"
  have "reachable sys_cn ?s ?s" by (simp add: reachable_def)
  moreover have "mysql_invar (snd (sy_shared ?s))" using settled_task(1) by simp
  moreover have "(sys_step sys_cn)\<^sup>*\<^sup>* ?s (?s\<lparr>sy_shared := (sys_exec, cancel_ctx Parent settled_world)\<rparr>)"
    by (rule r_into_rtranclp, rule sys_shutdown) simp
  ultimately show ?thesis
    using settled_is_final [OF sys_demo_env _ sys_start sys_start_static, of settled_world ?s "''s''"
        "the (mysql_tasks settled_world ''s'')"] settled_task(2,3) by auto
qed

text \<open>A task whose run has just ended, and a cancel request of its caller.\<close>

definition race_row :: TaskRow where
  "race_row = queued_row\<lparr>r_status := 1\<rparr>"

definition race_world :: Services where
  "race_world = demo_world\<lparr>batch_task := [race_row]\<rparr>"

definition race_exec :: "Services Executor" where
  "race_exec = register ''s'' (TaskCtx 0) sys_exec"

definition race_task :: Task where
  "race_task = the (mysql_tasks race_world ''s'')"

definition after_run :: "run_result \<times> Services" where
  "after_run = run race_exec (TaskCtx 0) race_task race_world"

definition status_of :: "string \<Rightarrow> Services \<Rightarrow> Status option" where
  "status_of tid w = map_option t_Status (mysql_tasks w tid)"

lemma race_run_status: "fst (fst after_run) = StatusCompleted"
  by code_simp

lemma race_static: "same_static sys_exec race_exec"
  by (simp add: race_exec_def register_def same_static_def)

text \<open>The run leaves the row, the contexts and the faults as they were.\<close>

lemma race_after_run:
  "batch_task (snd after_run) = [race_row]" "wd_cancelled (snd after_run) = []" "wd_faults (snd after_run) = []"
  using memory_run_tasks [of demo_cfg 1 100 demo_s3 "\<lambda>s. s" "\<lambda>s. []" demo_docs race_exec
      "TaskCtx 0" race_task race_world "fst after_run" "snd after_run"] race_static
  by (simp_all add: sys_exec_def after_run_def race_world_def demo_world_def)

lemma race_task_stored: "mysql_tasks (snd after_run) ''s'' = Some race_task"
  "t_CallerService race_task = ''c''" "t_Status race_task = StatusRunning"
proof -
  have w: "mysql_tasks (snd after_run) = mysql_tasks race_world"
    using race_after_run(1) by (simp add: mysql_tasks_def race_world_def)
  have "mysql_tasks race_world ''s'' \<noteq> None" by code_simp
  then show "mysql_tasks (snd after_run) ''s'' = Some race_task" by (auto simp: w race_task_def)
qed code_simp+

lemma race_cas:
  "\<exists>u. MySQLStore_CancelCAS (ReqCtx 0) ''s'' (snd after_run) = (Inr (True, StatusCancelled), u) \<and>
     wd_faults u = [] \<and> wd_cancelled u = []"
  using race_after_run
  by (simp add: MySQLStore_CancelCAS_def Let_def remote_exec_def ctx_Err_def take_fault_def
      update_tasks_def cancellable_def race_row_def queued_row_def)

lemma race_cancel:
  "\<exists>u. Cancel (sys_cn race_exec) (ReqCtx 0) ''s'' ''c'' (snd after_run) =
     (Inr \<lparr>cr_Status = StatusCancelled, cr_NotFound = False\<rparr>, u) \<and>
     mysql_tasks u ''s'' \<noteq> None \<and> status_of ''s'' u = Some StatusCancelled \<and>
     wd_faults u = [] \<and> \<not> ctx_Err Parent u"
proof -
  from race_cas obtain u1 where cas: "MySQLStore_CancelCAS (ReqCtx 0) ''s'' (snd after_run) =
      (Inr (True, StatusCancelled), u1)" and q1: "wd_faults u1 = []" "wd_cancelled u1 = []" by blast
  have "mysql_invar race_world" by code_simp
  then have inv: "mysql_invar (snd after_run)"
    using race_after_run(1) by (simp add: mysql_invar_def race_world_def)
  have "touched ''s'' (set_status StatusCancelled) (mysql_tasks (snd after_run)) (mysql_tasks u1)"
    using mysql_CancelCAS [OF inv cas] by simp
  from touched_Some [OF this race_task_stored(1)] have t1: "status_of ''s'' u1 = Some StatusCancelled"
    by (auto simp: status_of_def set_status_def)
  let ?cn = "sys_cn race_exec"
  let ?sg = "signal ?cn ''s'' u1" let ?cl = "clean ?cn ''s'' ''c'' ?sg"
  let ?u = "audit_cancel ?cn ''s'' ''c'' (t_RequestID race_task) ?cl"
  have sg: "?sg = cancel_ctx (TaskCtx 0) u1"
    by (simp add: signal_def sys_cn_def wire_canceller_def CancelTask_def race_exec_def register_def)
  obtain dq dw where d: "S3Uploader_DeletePrefix (s3_config (cf_S3 (read_config (\<lambda>_. None)))) memory_S3
      (TaskPrefix (s3_config (cf_S3 (read_config (\<lambda>_. None)))) (format_day (wd_clock ?sg)) ''c'' ''s'') ?sg = (dq, dw)"
    by fastforce
  have "?cl = dw" using d by (simp add: clean_def sys_cn_def wire_canceller_def s3_cleaner_def)
  then have "quiet_step ?sg ?cl" using DeletePrefix_quiet [OF d] by simp
  moreover have "quiet_step ?cl ?u"
    using Auditor_quiet by (simp add: audit_cancel_def sys_cn_def wire_canceller_def)
  ultimately have qs: "quiet_step ?sg ?u" by (rule quiet_trans)
  have m: "mysql_tasks ?u = mysql_tasks u1" using quiet_tables(1) [OF qs] sg by simp
  have "wd_faults ?u = []" "\<not> ctx_Err Parent ?u"
    using qs q1 sg by (auto simp: quiet_step_def cancel_ctx_def ctx_Err_def)
  moreover have "MySQLStore_Get (ReqCtx 0) ''s'' (snd after_run) = (Inr race_task, snd after_run)"
    by (rule quiet_Get [OF race_after_run(3) _ race_task_stored(1)]) (simp add: ctx_Err_def race_after_run(2))
  then have "Cancel ?cn (ReqCtx 0) ''s'' ''c'' (snd after_run) =
      (Inr \<lparr>cr_Status = StatusCancelled, cr_NotFound = False\<rparr>, ?u)"
    using cas race_task_stored(2,3) unfolding Cancel_def
    by (simp add: sys_cn_def wire_canceller_def MySQLStore_def)
  ultimately show ?thesis using m t1 by (auto simp: status_of_def)
qed

text \<open>Storing a completed run sets that status, whatever the row says.\<close>

lemma finalize_overwrites:
  assumes "fst r = StatusCompleted" and "wd_faults u = []" and "\<not> ctx_Err Parent u"
    and "mysql_tasks u tid = Some t0" and "ex_store e = MySQLStore" and "ex_audit e = Some (Auditor_Log au)"
  shows "status_of tid (finalize_task e Parent tc tid t r u) = Some StatusCompleted"
proof -
  obtain n ws ec em where r: "r = (StatusCompleted, n, ws, ec, em)" using assms(1) by (cases r) auto
  obtain q u1 where f: "MySQLStore_Finalize Parent tid StatusCompleted n ws ec em u = (q, u1)" by fastforce
  have "q = None"
    using f assms(2,3) by (auto simp: MySQLStore_Finalize_def Let_def remote_exec_def take_fault_def)
  with mysql_Finalize [OF f] have
    "touched tid (set_final StatusCompleted n (kept_warnings ws) ec em) (mysql_tasks u) (mysql_tasks u1)" by simp
  from touched_Some [OF this assms(4)] have "status_of tid u1 = Some StatusCompleted"
    by (auto simp: status_of_def set_final_def)
  with f r \<open>q = None\<close> assms(3,5,6) show ?thesis
    by (simp add: finalize_task_def final_result_def MySQLStore_def Let_def set_inflight_def status_of_def
        quiet_tables [OF Auditor_quiet])
qed


section \<open>The end of every task\<close>



end
