(* ===== verification/Storage_Properties.thy ===== *)
theory Storage_Properties
  imports Finished_Task
begin

text \<open>
  The properties of the two stores: what is written to the tables is what is read back, on every
  outcome of a call; what the tables refuse; and what the cleanup of a task deletes.
\<close>

section \<open>Tasks\<close>

lemma Get_answers:
  assumes "MySQLStore_Get c tid w = (r, w')" and "mysql_tasks w tid = Some t"
  shows "(\<exists>m. r = Inl (ErrMsg m)) \<or> r = Inr t"
proof (cases r)
  case (Inl x)
  with mysql_Get [OF assms(1)] assms(2) have "x \<noteq> ErrNotFound" by auto
  moreover have "x \<noteq> ErrQueueFull"
    using assms(1) Inl
    by (auto simp: MySQLStore_Get_def scanTask_def split: prod.splits sum.splits option.splits
        elim!: remote_query_cases)
  ultimately show ?thesis using Inl by (cases x) auto
next
  case (Inr x)
  with mysql_Get [OF assms(1)] assms(2) show ?thesis by auto
qed

text \<open>
  C23: A created task reads back. After a successful \<open>Create\<close> of a task, \<open>Get\<close> either fails
  without an answer or returns the task as it was given, with no warnings and no error, with a
  count of zero (the estimate is not stored) and the times set by the store; it never says the
  task does not exist. The identifier was not in use and all other tasks are as before.
\<close>

theorem created_task_reads_back:
  assumes cr: "MySQLStore_Create c t w = (Inr t', w1)" and inv: "mysql_invar w"
    and sc: "storable_scope (t_Scope t)" and st: "named_status (t_Status t)"
    and get: "MySQLStore_Get c' (t_TaskID t) w1 = (r, w2)"
  shows "((\<exists>m. r = Inl (ErrMsg m)) \<or>
    (\<exists>n1 n2 n3. r = Inr (t\<lparr>t_ActualCount := 0, t_Warnings := [], t_ErrorCode := [], t_ErrorMessage := [],
       t_CreatedAt := n1, t_UpdatedAt := n2, t_ExpiresAt := n3\<rparr>))) \<and>
    mysql_tasks w (t_TaskID t) = None \<and> (mysql_tasks w1)(t_TaskID t := None) = mysql_tasks w"
proof -
  have "st_Create MySQLStore c t w = (Inr t', w1)" using cr by (simp add: MySQLStore_def)
  from mysql.create_ok [OF this inv sc st] obtain n1 n2 n3 where
    none: "mysql_tasks w (t_TaskID t) = None"
    and m: "mysql_tasks w1 = (mysql_tasks w)(t_TaskID t \<mapsto> (set_final (t_Status t) 0 [] [] [] t)
      \<lparr>t_CreatedAt := n1, t_UpdatedAt := n2, t_ExpiresAt := n3\<rparr>)" by auto
  from m have "mysql_tasks w1 (t_TaskID t) = Some ((set_final (t_Status t) 0 [] [] [] t)
      \<lparr>t_CreatedAt := n1, t_UpdatedAt := n2, t_ExpiresAt := n3\<rparr>)" by simp
  from Get_answers [OF get this] none m show ?thesis by (auto simp: set_final_def)
qed

definition new_row_task :: Task where
  "new_row_task = demo_task\<lparr>t_ActualCount := 7\<rparr>"

definition created_once :: "Task res \<times> Services" where
  "created_once = MySQLStore_Create Background new_row_task demo_world"

lemma created_once_ok: "\<exists>t'. MySQLStore_Create Background new_row_task demo_world = (Inr t', snd created_once)"
proof -
  have "\<not> isl (fst created_once)" by code_simp
  then obtain t' where "fst created_once = Inr t'" by (cases "fst created_once") auto
  then show ?thesis by (metis created_once_def prod.collapse)
qed

theorem created_task_reads_back_witness:
  "mysql_tasks demo_world ''t'' = None \<and>
   (\<exists>r w2. MySQLStore_Get Background ''t'' (snd created_once) = (r, w2) \<and>
     ((\<exists>m. r = Inl (ErrMsg m)) \<or> (\<exists>t. r = Inr t \<and> t_ActualCount t = 0)))"
proof -
  from created_once_ok obtain t' where
    cr: "MySQLStore_Create Background new_row_task demo_world = (Inr t', snd created_once)" by blast
  have inv: "mysql_invar demo_world" "storable_scope (t_Scope new_row_task)" "named_status (t_Status new_row_task)"
    by code_simp+
  have id: "t_TaskID new_row_task = ''t''" by (simp add: new_row_task_def demo_task_def)
  obtain r w2 where g: "MySQLStore_Get Background ''t'' (snd created_once) = (r, w2)" by fastforce
  from created_task_reads_back [OF cr inv, unfolded id, OF g] g show ?thesis by auto
qed

text \<open>
  C24: The final status reads back. After \<open>Finalize\<close> of an existing task, \<open>Get\<close> either fails
  without an answer or returns the task with the status, the count, the warnings (texts that
  are valid UTF-8, 64-bit numbers) and the error that were given, and everything else as it was.
\<close>

theorem final_status_reads_back:
  assumes fin: "MySQLStore_Finalize c tid s n ws ec em w = (None, w1)" and st: "named_status s"
    and t: "mysql_tasks w tid = Some t" and ws: "list_all storable_warning ws"
    and get: "MySQLStore_Get c' tid w1 = (r, w2)"
  shows "(\<exists>m. r = Inl (ErrMsg m)) \<or>
    (\<exists>k. r = Inr (t\<lparr>t_Status := s, t_ActualCount := n, t_Warnings := ws, t_ErrorCode := ec,
       t_ErrorMessage := em, t_UpdatedAt := k\<rparr>))"
proof -
  have "touched tid (set_final s n ws ec em) (mysql_tasks w) (mysql_tasks w1)"
    using mysql_Finalize [OF fin st] kept_warnings_id [OF ws] by simp
  from touched_Some [OF this t] obtain k where
    "mysql_tasks w1 tid = Some ((set_final s n ws ec em t)\<lparr>t_UpdatedAt := k\<rparr>)" by auto
  from Get_answers [OF get this] show ?thesis by (auto simp: set_final_def)
qed

definition finalized :: "err option \<times> Services" where
  "finalized = MySQLStore_Finalize Background ''s'' StatusPartial 5 [channel_warning demo_cfg ''b'' 1] [] [] queued_world"

theorem final_status_reads_back_witness:
  "\<exists>r w2. MySQLStore_Get Background ''s'' (snd finalized) = (r, w2) \<and>
     ((\<exists>m. r = Inl (ErrMsg m)) \<or>
      (\<exists>t. r = Inr t \<and> t_Status t = StatusPartial \<and> t_Warnings t = [channel_warning demo_cfg ''b'' 1]))"
proof -
  have "fst finalized = None" by code_simp
  then have f: "MySQLStore_Finalize Background ''s'' StatusPartial 5 [channel_warning demo_cfg ''b'' 1] [] []
      queued_world = (None, snd finalized)" by (metis finalized_def prod.collapse)
  have w: "list_all storable_warning [channel_warning demo_cfg ''b'' 1]" by code_simp
  obtain r w2 where g: "MySQLStore_Get Background ''s'' (snd finalized) = (r, w2)" by fastforce
  have "named_status StatusPartial" by simp
  from final_status_reads_back [OF f this queued_task(1) w g] g show ?thesis by auto
qed

section \<open>Refusals\<close>

text \<open>
  C31: An over-long request identifier is a server error. The header X-Request-Id is taken as
  it is, but the column holds 40 characters: with a longer one, or one that is not UTF-8, the
  submission of any request is refused, and no task is stored.
\<close>

theorem long_request_id_refused:
  assumes "sb_store s = MySQLStore" and "\<not> varchar_ok 40 requestID"
    and "\<And>c ch st en v x v'. sb_Count s c (sb_index s) ch st en v = (x, v') \<Longrightarrow> batch_task v' = batch_task v"
    and "Submit s se rnd c caller requestID req e u = (r, e', u')"
  shows "isl r \<and> batch_task u' = batch_task u"
proof -
  have count: "count_channels s c tr chs tot v = (x, v') \<Longrightarrow> batch_task v' = batch_task v" for tr chs tot v x v'
  proof (induction chs arbitrary: tot v)
    case Nil
    then show ?case by simp
  next
    case (Cons ch chs)
    obtain y v1 where "sb_Count s c (sb_index s) (ch_ChannelID ch) (tr_StartTS tr) (tr_EndTS tr) v = (y, v1)"
      by fastforce
    with assms(3) [OF this] Cons show ?case by (cases y) auto
  qed
  have create: "st_Create (sb_store s) c (new_task tid caller requestID tot req) v = (x, v') \<Longrightarrow>
      isl x \<and> batch_task v' = batch_task v" for tid tot v x v'
    using assms(1,2)
    by (auto simp: MySQLStore_def MySQLStore_Create_def Let_def insert_refused_def task_row_fits_def
        new_task_def elim!: remote_exec_cases split: prod.splits)
  have admitted: "submit_admitted s rnd c caller requestID req tot e0 v = (r, e', u') \<Longrightarrow>
      isl r \<and> batch_task u' = batch_task v" for tot e0 v
    using create
    by (auto simp: submit_admitted_def Let_def emit_def split: prod.splits sum.splits) (metis isl_def sum.disc(2))+
  obtain n u1 where cnt: "count_channels s c (rq_TimeRange req) (sc_Channels (rq_Scope req)) 0 u = (n, u1)"
    by fastforce
  show ?thesis
    using assms(4) cnt count [OF cnt] admitted
    by (auto simp: Submit_def Let_def emit_def split: option.splits sum.splits if_splits prod.splits bool.splits)
qed

definition long_id_submit :: "(SubmitError + string) \<times> Services Executor \<times> Services" where
  "long_id_submit = Submit
     \<lparr>sb_cfg = \<lparr>pc_GlobalInflightMax = 1, pc_SubmitWait = 0, pc_MaxTaskHits = 10, pc_PerChannelHardCap = 10\<rparr>,
      sb_index = ''m'', sb_Count = OSClient_Count (memory_OS demo_docs), sb_store = MySQLStore\<rparr>
     \<lparr>se_pick = 0, se_fired = False\<rparr> (replicate 16 1) Background ''c'' (replicate 41 (CHR ''x''))
     \<lparr>rq_Scope = demo_scope, rq_TimeRange = demo_range\<rparr> demo_exec demo_world"

theorem long_request_id_refused_witness:
  "isl (fst long_id_submit) \<and> batch_task (snd (snd long_id_submit)) = []"
proof -
  let ?s = "\<lparr>sb_cfg = \<lparr>pc_GlobalInflightMax = 1, pc_SubmitWait = 0, pc_MaxTaskHits = 10, pc_PerChannelHardCap = 10\<rparr>,
      sb_index = ''m'', sb_Count = OSClient_Count (memory_OS demo_docs), sb_store = MySQLStore\<rparr>
      :: Services Submitter"
  have st: "sb_store ?s = MySQLStore" by simp
  have long: "\<not> varchar_ok 40 (replicate 41 (CHR ''x''))" by code_simp
  have frame: "sb_Count ?s c (sb_index ?s) ch s e v = (x, v') \<Longrightarrow> batch_task v' = batch_task v" for c ch s e v x v'
    using OSClient_quiet(1) [of demo_docs c "''m''" ch s e v x v'] by (simp add: quiet_step_def)
  obtain r e' u' where sub: "Submit ?s \<lparr>se_pick = 0, se_fired = False\<rparr> (replicate 16 1) Background ''c''
      (replicate 41 (CHR ''x'')) \<lparr>rq_Scope = demo_scope, rq_TimeRange = demo_range\<rparr> demo_exec demo_world
      = (r, e', u')" by (metis prod.exhaust)
  from long_request_id_refused [OF st long frame sub] sub show ?thesis
    by (simp add: long_id_submit_def demo_world_def)
qed

section \<open>Parts\<close>

definition part_key :: "PartRow \<Rightarrow> string \<times> int" where
  "part_key r = (pr_task_id r, pr_part_seq r)"

lemma upsert_filters:
  "distinct (map part_key qs) \<Longrightarrow>
   filter (\<lambda>q. part_key q = part_key r) (upsert_part r qs) = [r] \<and>
   filter (\<lambda>q. part_key q \<noteq> part_key r) (upsert_part r qs) = filter (\<lambda>q. part_key q \<noteq> part_key r) qs"
proof (induction qs)
  case Nil
  then show ?case by simp
next
  case (Cons q qs)
  show ?case
  proof (cases "part_key q = part_key r")
    case True
    with Cons.prems have "\<forall>x \<in> set qs. part_key x \<noteq> part_key r"
      by (metis distinct.simps(2) image_eqI list.set_map list.simps(9))
    with True show ?thesis by (auto simp: part_key_def filter_empty_conv)
  next
    case False
    then have "upsert_part r (q # qs) = q # upsert_part r qs" by (auto simp: part_key_def)
    with False Cons show ?thesis by simp
  qed
qed

lemma upsert_keys:
  "map part_key (upsert_part r qs) = map part_key qs \<or>
   part_key r \<notin> set (map part_key qs) \<and> map part_key (upsert_part r qs) = map part_key qs @ [part_key r]"
  by (induction qs) (auto simp: part_key_def)

lemma AppendPart_any:
  "MySQLStore_AppendPart c p w = (q, w') \<Longrightarrow> batch_task_part w' = batch_task_part w \<or>
   batch_task_part w' = upsert_part (part_row (datetime (wd_clock w)) p) (batch_task_part w)"
  by (auto simp: MySQLStore_AppendPart_def Let_def part_row_def elim!: remote_exec_cases
      split: prod.splits option.splits if_splits)

lemma part_row_key: "part_key (part_row n p) = (p_TaskID p, p_PartSeq p)"
  by (simp add: part_key_def part_row_def)

text \<open>
  C22: A part is stored once, however often it is sent. Whatever came of a first attempt to
  append a part, after a second one that succeeds the table has exactly one row for this task
  and number, with the part's key, sizes, digest and channels; the rows of other parts are
  those of before.
\<close>

theorem append_part_once:
  assumes "distinct (map part_key (batch_task_part w))"
    and "MySQLStore_AppendPart c p w = (q, w1)" and "MySQLStore_AppendPart c' p w1 = (None, w2)"
  shows "(\<exists>n. filter (\<lambda>r. part_key r = (p_TaskID p, p_PartSeq p)) (batch_task_part w2) = [part_row n p]) \<and>
    filter (\<lambda>r. part_key r \<noteq> (p_TaskID p, p_PartSeq p)) (batch_task_part w2) =
    filter (\<lambda>r. part_key r \<noteq> (p_TaskID p, p_PartSeq p)) (batch_task_part w)"
proof -
  have d1: "distinct (map part_key (batch_task_part w1)) \<and>
    filter (\<lambda>r. part_key r \<noteq> (p_TaskID p, p_PartSeq p)) (batch_task_part w1) =
    filter (\<lambda>r. part_key r \<noteq> (p_TaskID p, p_PartSeq p)) (batch_task_part w)"
    using AppendPart_any [OF assms(2)]
  proof
    let ?r = "part_row (datetime (wd_clock w)) p"
    assume "batch_task_part w1 = upsert_part ?r (batch_task_part w)"
    with upsert_filters [OF assms(1), of ?r] upsert_keys [of ?r "batch_task_part w"] assms(1)
    show ?thesis by (auto simp: part_row_key)
  qed (use assms(1) in simp)
  let ?r = "part_row (datetime (wd_clock w1)) p"
  have "batch_task_part w2 = upsert_part ?r (batch_task_part w1)" using AppendPart_ok [OF assms(3)] .
  with upsert_filters [of "batch_task_part w1" ?r] d1 show ?thesis by (auto simp: part_row_key)
qed

definition one_part :: Part where
  "one_part = \<lparr>p_TaskID = ''t'', p_PartSeq = 0, p_S3Key = ''k'', p_SizeBytes = 1, p_MessageCount = 1,
     p_SHA256 = ''h'', p_ChannelIDs = [''a''], p_CreatedAt = 0\<rparr>"

definition lossy_world :: Services where
  "lossy_world = demo_world\<lparr>wd_faults := [Applied]\<rparr>"

theorem append_part_once_witness:
  "\<exists>w1 w2 n. MySQLStore_AppendPart Background one_part lossy_world = (Some (ErrMsg ''append part''), w1) \<and>
     MySQLStore_AppendPart Background one_part w1 = (None, w2) \<and>
     filter (\<lambda>r. part_key r = (''t'', 0)) (batch_task_part w2) = [part_row n one_part]"
proof -
  let ?a = "MySQLStore_AppendPart Background one_part"
  have "fst (?a lossy_world) = Some (ErrMsg ''append part'')" "fst (?a (snd (?a lossy_world))) = None"
    by code_simp+
  then have s: "?a lossy_world = (Some (ErrMsg ''append part''), snd (?a lossy_world))"
    "?a (snd (?a lossy_world)) = (None, snd (?a (snd (?a lossy_world))))"
    by (metis prod.collapse)+
  have "distinct (map part_key (batch_task_part lossy_world))" by (simp add: lossy_world_def demo_world_def)
  from append_part_once [OF this s] s show ?thesis
    by (auto simp: one_part_def)
qed

section \<open>Objects\<close>


definition two_objects :: Services where
  "two_objects = demo_world\<lparr>sv_objects := [(withPrefix demo_s3 (PartKey ''d'' ''c'' ''t'' 0), ''x''),
     (withPrefix demo_s3 (PartKey ''d'' ''c'' ''u'' 0), ''y'')]\<rparr>"


end
