(* ===== verification/Front_Properties.thy ===== *)
theory Front_Properties
  imports Finished_Task
begin

text \<open>
  The properties of the front of the service: submission and its refusals, task identifiers,
  cancellation, authentication, configuration, migration and shutdown.
\<close>

section \<open>Submission\<close>

text \<open>
  C8: An accepted request is stored, counted and queued. When \<open>Submit\<close> returns an identifier,
  the request is valid, the hits of its channels are together within the task limit, the
  identifier was not in use, the task is now stored as queued with the caller, request
  identifier, scope and range given, exactly one slot more is taken, of a gate that was not full,
  and the task is last in the queue.
\<close>

theorem submit_accepted:
  assumes "submit_env s tasks invar hits"
    and "Submit s se rnd c caller requestID req e u = (Inr taskID, e', u')" and "invar u"
    and "storable_scope (rq_Scope req)" and "gate_ok (ex_gate e)"
    and "\<forall>ch. 0 \<le> hits ch (tr_StartTS (rq_TimeRange req)) (tr_EndTS (rq_TimeRange req))
      \<and> hits ch (tr_StartTS (rq_TimeRange req)) (tr_EndTS (rq_TimeRange req)) < 2 ^ 58"
  shows "request_valid req \<and> estimate hits req \<le> pc_MaxTaskHits (sb_cfg s) \<and> tasks u taskID = None \<and>
    (\<exists>t. tasks u' = (tasks u)(taskID \<mapsto> t) \<and> t_TaskID t = taskID \<and> t_Status t = StatusQueued \<and>
       t_CallerService t = caller \<and> t_RequestID t = requestID \<and> t_Scope t = rq_Scope req \<and>
       t_TimeRange t = rq_TimeRange req \<and> t_ActualCount t = 0) \<and>
    g_len (ex_gate e) < g_cap (ex_gate e) \<and>
    e' = e\<lparr>ex_gate := (ex_gate e)\<lparr>g_len := g_len (ex_gate e) + 1\<rparr>, ex_queue := ex_queue e @ [taskID]\<rparr>"
  using submit_env.Submit_accepts [OF assms(1,2,3,4,6)] Submit_slot [OF assms(2,5)] by simp

text \<open>The submitter \<open>main\<close> wires over the demonstration index, with small limits.\<close>

definition demo_config :: Config where
  "demo_config = (read_config (\<lambda>_. None))\<lparr>cf_Protect :=
     \<lparr>pc_GlobalInflightMax = 2, pc_SubmitWait = 0, pc_MaxTaskHits = 10, pc_PerChannelHardCap = 10\<rparr>\<rparr>"

definition demo_submitter :: "Services Submitter" where
  "demo_submitter =
     \<lparr>sb_cfg = \<lparr>pc_GlobalInflightMax = 2, pc_SubmitWait = 0, pc_MaxTaskHits = 10, pc_PerChannelHardCap = 10\<rparr>,
      sb_index = ''messages'', sb_Count = OSClient_Count (memory_OS demo_docs), sb_store = MySQLStore\<rparr>"

lemma demo_counted: "counted demo_docs = demo_docs"
  by (simp add: counted_def demo_docs_def)

lemma demo_submit_env: "submit_env demo_submitter mysql_tasks mysql_invar (index_hits demo_docs)"
proof -
  let ?s = "wire_submitter demo_config (OSClient (memory_OS (counted demo_docs))) MySQLStore :: Services Submitter"
  have "?s = demo_submitter"
    by (simp add: wire_submitter_def demo_config_def demo_submitter_def read_config_def getEnv_def demo_counted)
  moreover have "submit_env ?s mysql_tasks mysql_invar (index_hits (counted demo_docs))"
    by (rule memory_submit.submit_env_axioms)
  ultimately show ?thesis by (simp only: demo_counted)
qed

definition demo_req :: Request where
  "demo_req = \<lparr>rq_Scope = demo_scope, rq_TimeRange = demo_range\<rparr>"

definition demo_select :: select_env where
  "demo_select = \<lparr>se_pick = 0, se_fired = False\<rparr>"

definition demo_submitted :: "(SubmitError + string) \<times> Services Executor \<times> Services" where
  "demo_submitted = Submit demo_submitter demo_select [1, 2] Background ''c'' ''q'' demo_req demo_exec demo_world"

lemma demo_submitted_ok:
  "\<exists>tid. Submit demo_submitter demo_select [1, 2] Background ''c'' ''q'' demo_req demo_exec demo_world
     = (Inr tid, fst (snd demo_submitted), snd (snd demo_submitted))"
proof -
  have "\<not> isl (fst demo_submitted)" by code_simp
  then obtain tid where "fst demo_submitted = Inr tid" by (cases "fst demo_submitted") auto
  then show ?thesis by (metis demo_submitted_def prod.collapse)
qed

lemma demo_front: "mysql_invar demo_world" "storable_scope (rq_Scope demo_req)" "gate_ok (ex_gate demo_exec)"
  by (code_simp | simp)+

theorem submit_accepted_witness:
  "\<exists>tid t. mysql_tasks (snd (snd demo_submitted)) tid = Some t \<and> t_Status t = StatusQueued \<and>
     ex_queue (fst (snd demo_submitted)) = [tid]"
proof -
  from demo_submitted_ok obtain tid where s: "Submit demo_submitter demo_select [1, 2] Background ''c'' ''q''
      demo_req demo_exec demo_world = (Inr tid, fst (snd demo_submitted), snd (snd demo_submitted))" by blast
  have "\<forall>ch. 0 \<le> index_hits demo_docs ch a b \<and> index_hits demo_docs ch a b < 2 ^ 58" for a b
    using index_hits_bound [of demo_docs] by (simp add: demo_counted)
  from submit_accepted [OF demo_submit_env s demo_front this] obtain t where
    "mysql_tasks (snd (snd demo_submitted)) = (mysql_tasks demo_world)(tid \<mapsto> t)" "t_Status t = StatusQueued"
    "ex_queue (fst (snd demo_submitted)) = ex_queue demo_exec @ [tid]" by auto
  moreover have "ex_queue demo_exec = []"
    by (simp add: demo_exec_def memory_executor_def Executor_New_def Let_def)
  ultimately show ?thesis by (intro exI [of _ tid] exI [of _ t]) simp
qed

text \<open>
  C20: A refused request costs nothing. Whenever \<open>Submit\<close> refuses, the gate, the queue and the
  registry are as before the call, so no slot is lost on any branch; and unless the store failed
  to persist the task or the queue was full, no stored task has changed.
\<close>

theorem submit_refused:
  assumes "submit_env s tasks invar hits"
    and "Submit s se rnd c caller requestID req e u = (Inl er, e', u')" and "gate_ok (ex_gate e)"
  shows "e' = e \<and> (se_HTTPStatus er \<in> {400, 413, 422} \<or> se_Message er = ''count check failed''
      \<or> se_Message er = ''global inflight limit reached'' \<longrightarrow> tasks u' = tasks u)"
  using submit_env.Submit_refuses [OF assms(1,2)] Submit_slot [OF assms(2,3)] by simp

definition empty_req :: Request where
  "empty_req = \<lparr>rq_Scope = \<lparr>sc_Channels = []\<rparr>, rq_TimeRange = demo_range\<rparr>"

theorem submit_refused_witness:
  "\<exists>er e' u'. Submit demo_submitter demo_select [1, 2] Background ''c'' ''q'' empty_req demo_exec demo_world
      = (Inl er, e', u') \<and> e' = demo_exec \<and> mysql_tasks u' = mysql_tasks demo_world"
proof -
  have "validate empty_req = Some (newErr 400 ''invalid_request'' ''scope.channels must not be empty'')"
    by (simp add: validate_def empty_req_def Let_def)
  then obtain e' u' where s: "Submit demo_submitter demo_select [1, 2] Background ''c'' ''q'' empty_req
      demo_exec demo_world = (Inl (newErr 400 ''invalid_request'' ''scope.channels must not be empty''), e', u')"
    by (auto simp: Submit_def)
  from submit_refused [OF demo_submit_env s demo_front(3)] s show ?thesis
    by (auto simp: newErr_def)
qed

text \<open>
  C21: Validation accepts exactly the valid requests: 1 to 30 channels, each with an
  identifier, a range in seconds that does not run backwards and is at most 31 days long. A
  refusal is a client error.
\<close>

theorem validate_exact:
  "case validate req of
     None \<Rightarrow> request_valid req
   | Some er \<Rightarrow> \<not> request_valid req \<and> se_HTTPStatus er \<in> {400, 413, 422}"
  using validate_iff [of req] validate_status [of req] by (cases "validate req") auto

section \<open>Task identifiers\<close>

text \<open>
  C29: Identifiers sort by creation time, within a period of \<open>2 ^ 40\<close> milliseconds (the
  present one began in November 2004): of two identifiers made in different milliseconds of
  one period, the earlier is the smaller text, whatever the random bytes. An identifier has 28
  characters, all in the base 32 alphabet after the prefix.
\<close>

theorem task_id_order:
  assumes "now1 div 1000000 mod 2 ^ 40 < now2 div 1000000 mod 2 ^ 40" and "length r1 = 16" and "length r2 = 16"
  shows "NewTaskID now1 r1 < NewTaskID now2 r2 \<and> length (NewTaskID now1 r1) = 28 \<and>
    prefix ''ost_'' (NewTaskID now1 r1) \<and> set (drop 4 (NewTaskID now1 r1)) \<subseteq> set base32Alphabet"
  using NewTaskID_mono [OF assms(1)] NewTaskID_length [OF assms(2)] time_digits_set base32_in
  by (auto simp: NewTaskID_def)

theorem task_id_order_witness:
  "NewTaskID 1000000 (replicate 16 31) < NewTaskID 2000000 (replicate 16 0)"
  using task_id_order [of 1000000 2000000 "replicate 16 31" "replicate 16 0"] by simp


section \<open>Cancellation\<close>

text \<open>
  C9: Cancelling answers truthfully. The answer \<open>not found\<close> is given only when the task does not
  exist or belongs to another caller, and changes nothing. Otherwise the answer is the status
  the task has after the call: \<open>cancelled\<close> for one that was queued or running, which is the
  only change, and its settled status for any other, unchanged.
\<close>

theorem cancel_answers:
  assumes "cancel_env cn tasks invar" and "Cancel cn c tid caller u = (Inr res, u')" and "invar u"
  shows "if cr_NotFound res
    then tasks u' = tasks u \<and> (\<forall>t. tasks u tid = Some t \<longrightarrow> t_CallerService t \<noteq> caller)
    else (\<exists>t. tasks u tid = Some t \<and> t_CallerService t = caller \<and>
      (if t_Status t \<in> {StatusQueued, StatusRunning}
       then cr_Status res = StatusCancelled \<and>
         (\<exists>n. tasks u' = (tasks u)(tid \<mapsto> t\<lparr>t_Status := StatusCancelled, t_UpdatedAt := n\<rparr>))
       else cr_Status res = t_Status t \<and> tasks u' = tasks u))"
proof (cases "cr_NotFound res")
  case True
  with cancel_env.Cancel_not_found [OF assms] show ?thesis by simp
next
  case False
  from cancel_env.Cancel_found [OF assms False] obtain t where
    t: "tasks u tid = Some t" "t_CallerService t = caller"
    and alt: "t_Status t \<notin> {StatusQueued, StatusRunning} \<and> cr_Status res = t_Status t \<and> tasks u' = tasks u
     \<or> t_Status t \<in> {StatusQueued, StatusRunning} \<and> cr_Status res = StatusCancelled \<and>
       touched tid (set_status StatusCancelled) (tasks u) (tasks u')" by blast
  then show ?thesis using False touched_Some [of tid "set_status StatusCancelled" "tasks u" "tasks u'" t]
    by (auto simp: set_status_def)
qed

definition demo_cn :: "Services Canceller" where
  "demo_cn = wire_canceller demo_config MySQLStore memory_S3 \<lparr>au_f = False\<rparr> demo_exec"

lemma demo_cancel_env: "cancel_env demo_cn mysql_tasks mysql_invar"
  unfolding demo_cn_def by (rule memory_cancel.cancel_env_axioms)

lemma foreign_cancel:
  "\<exists>u'. Cancel demo_cn Background ''s'' ''x'' queued_world =
     (Inr \<lparr>cr_Status = StatusQueued, cr_NotFound = True\<rparr>, u')"
proof -
  let ?t = "the (mysql_tasks queued_world ''s'')"
  have "wd_faults queued_world = []" "\<not> ctx_Err Background queued_world"
    by (simp_all add: queued_world_def demo_world_def ctx_Err_def)
  from quiet_Get [OF this queued_task(1)]
  have "st_Get (cc_store demo_cn) Background ''s'' queued_world = (Inr ?t, queued_world)"
    by (simp add: demo_cn_def wire_canceller_def MySQLStore_def)
  moreover have "t_CallerService ?t \<noteq> ''x''" by code_simp
  ultimately show ?thesis by (simp add: Cancel_def)
qed

lemma queued_invar: "mysql_invar queued_world"
  by code_simp

theorem cancel_answers_witness:
  "\<exists>u'. Cancel demo_cn Background ''s'' ''x'' queued_world =
     (Inr \<lparr>cr_Status = StatusQueued, cr_NotFound = True\<rparr>, u') \<and> mysql_tasks u' = mysql_tasks queued_world"
proof -
  from foreign_cancel obtain u' where c: "Cancel demo_cn Background ''s'' ''x'' queued_world =
     (Inr \<lparr>cr_Status = StatusQueued, cr_NotFound = True\<rparr>, u')" by blast
  from cancel_answers [OF demo_cancel_env c queued_invar] c show ?thesis by simp
qed

text \<open>
  Cancelling twice is cancelling once: a second call that answers gives the same answer
  and changes no task.
\<close>

theorem cancel_idempotent:
  assumes "cancel_env cn tasks invar" and "Cancel cn c tid caller u = (Inr res, u')" and "invar u"
    and "Cancel cn c' tid caller u' = (Inr res', u'')"
  shows "res' = res \<and> tasks u'' = tasks u'"
  using cancel_env.Cancel_again [OF assms] .

theorem cancel_idempotent_witness:
  "\<exists>u'. Cancel demo_cn Background ''s'' ''x'' queued_world =
      (Inr \<lparr>cr_Status = StatusQueued, cr_NotFound = True\<rparr>, u') \<and>
    (\<exists>x u''. Cancel demo_cn Background ''s'' ''x'' u' = (x, u'') \<and>
       (isl x \<or> x = Inr \<lparr>cr_Status = StatusQueued, cr_NotFound = True\<rparr>))"
proof -
  from foreign_cancel obtain u' where c: "Cancel demo_cn Background ''s'' ''x'' queued_world =
     (Inr \<lparr>cr_Status = StatusQueued, cr_NotFound = True\<rparr>, u')" by blast
  obtain x u'' where d: "Cancel demo_cn Background ''s'' ''x'' u' = (x, u'')" by fastforce
  have "isl x \<or> x = Inr \<lparr>cr_Status = StatusQueued, cr_NotFound = True\<rparr>"
    using cancel_idempotent [OF demo_cancel_env c queued_invar] d by (cases x) auto
  with c d show ?thesis by blast
qed

end
