(* ===== verification/Gateway_Properties.thy ===== *)
theory Gateway_Properties
  imports Front_Properties
begin

text \<open>
  The properties of what surrounds the service: who may call it, under which identity and
  request identifier, how it is configured and started, and how it stops.
\<close>

section \<open>Callers\<close>


definition demo_deps :: "Services Deps" where
  "demo_deps =
     \<lparr>hd_Auth = \<lparr>ac_Enabled = True, ac_CallerTokens = [(''t1'', ''alice'')]\<rparr>,
      hd_Submitter = demo_submitter,
      hd_Canceller = (\<lambda>e. wire_canceller demo_config MySQLStore memory_S3 \<lparr>au_f = False\<rparr> e),
      hd_Store = MySQLStore, hd_Presign = \<lparr>ps_Presign = S3Uploader_Presign demo_s3 memory_S3\<rparr>,
      hd_Audit = None, hd_DBPing = None, hd_OSPing = None, hd_Ready = None, hd_metrics_page = (\<lambda>u. [])\<rparr>"

definition demo_http :: "string \<Rightarrow> HttpRequest" where
  "demo_http authz =
     \<lparr>hr_Method = ''GET'', hr_Path = [''v1'', ''messages'', ''batch'', ''s''], hr_XRequestId = ''q'',
      hr_Authorization = authz, hr_Body = None\<rparr>"


lemma white_space_facts:
  "list_all (\<lambda>w. w \<noteq> [] \<and> hd w \<noteq> CHR ''B'' \<and> (CHR '' '' \<in> set w \<longrightarrow> w = '' '')) white_space"
  by code_simp

text \<open>A token without white space at its ends is read back from the header.\<close>

lemma no_margin_append:
  assumes "no_margin t" and "t \<noteq> []" and "last p = CHR '' ''"
    and "list_all (\<lambda>w. w \<noteq> [] \<and> \<not> prefix w (p @ t) \<and> (CHR '' '' \<in> set w \<longrightarrow> length w = 1)) white_space"
  shows "no_margin (p @ t)"
proof -
  have "\<not> suffix w (p @ t)" if w: "w \<in> set white_space" for w
  proof
    assume s: "suffix w (p @ t)"
    have "\<not> suffix w t" using assms(1) w by (auto simp: no_margin_def list_all_iff)
    with s obtain z where z: "w = z @ t" "suffix z p"
      by (auto simp: suffix_append)
    with \<open>\<not> suffix w t\<close> have ne: "z \<noteq> []" by auto
    from z(2) ne have "last z = last p" by (auto simp: suffix_def)
    with ne assms(3) have "CHR '' '' \<in> set z" by (metis last_in_set)
    with z(1) assms(4) w have "length (z @ t) = 1" by (auto simp: list_all_iff)
    with ne assms(2) show False by (cases z; cases t) auto
  qed
  with assms(4) show ?thesis by (auto simp: no_margin_def list_all_iff)
qed

lemma no_margin_bearer:
  assumes "no_margin t" and "t \<noteq> []"
  shows "no_margin (''Bearer '' @ t)"
proof (rule no_margin_append [OF assms])
  show "list_all (\<lambda>w. w \<noteq> [] \<and> \<not> prefix w (''Bearer '' @ t) \<and> (CHR '' '' \<in> set w \<longrightarrow> length w = 1)) white_space"
  proof (unfold list_all_iff, rule ballI)
    fix w assume "w \<in> set white_space"
    with white_space_facts have f: "w \<noteq> []" "hd w \<noteq> CHR ''B''" "CHR '' '' \<in> set w \<longrightarrow> w = '' ''"
      by (simp_all add: list_all_iff)
    from f(1,2) have "\<not> prefix w (''Bearer '' @ t)" by (cases w) auto
    moreover from f(3) have "CHR '' '' \<in> set w \<longrightarrow> length w = 1" by auto
    ultimately show "w \<noteq> [] \<and> \<not> prefix w (''Bearer '' @ t) \<and> (CHR '' '' \<in> set w \<longrightarrow> length w = 1)"
      using f(1) by blast
  qed
qed simp

lemma bearer_word: "EqualFold_ascii ''Bearer '' ''bearer ''"
  by code_simp

lemma bearer_read_back: "no_margin t \<Longrightarrow> t \<noteq> [] \<Longrightarrow> bearerToken (''Bearer '' @ t) = t"
  using TrimSpace_bearer [OF _ _ bearer_word] no_margin_bearer by blast

text \<open>
  C33: A configured caller is served under its name. With \<open>AUTH_S2S_TOKENS\<close> written as
  \<open>name1=token1,name2=token2,\<dots>\<close> with different tokens, a request that carries \<open>Bearer token\<close>
  of one of them is passed on with exactly the name of that token, and the response carries the
  identifier of the request.
\<close>

theorem token_names_caller:
  assumes "list_all (\<lambda>(n, t). plain n \<and> plain t \<and> CHR ''='' \<notin> set n) xs" and "distinct (map snd xs)"
    and "(name, token) \<in> set xs" and "hr_Authorization r = ''Bearer '' @ token"
  shows "Middleware \<lparr>ac_Enabled = True, ac_CallerTokens = parseCallerTokens (show_tokens xs)\<rparr>
      audit isPrint rnd nh r s =
    (case nh name (request_id rnd r) r s of (resp, s1) \<Rightarrow> (resp\<lparr>hp_XRequestId := request_id rnd r\<rparr>, s1))"
proof -
  have xs: "xs \<noteq> []" using assms(3) by auto
  have p: "plain token" using assms(1,3) by (auto simp: list_all_iff)
  then have b: "bearerToken (hr_Authorization r) = token"
    unfolding assms(4) by (intro bearer_read_back) (auto simp: plain_def)
  let ?ys = "map (\<lambda>(n, t). (t, n)) xs"
  have "map fst ?ys = map snd xs" by (induction xs) auto
  then have "map fst (rev ?ys) = rev (map snd xs)" by (simp only: rev_map [symmetric])
  then have "distinct (map fst (rev ?ys))" using assms(2) by (simp only: distinct_rev)
  moreover have "(token, name) \<in> set (rev ?ys)" using assms(3) by force
  ultimately have "map_of (rev ?ys) token = Some name" by (rule map_of_is_SomeI)
  then have "map_of (parseCallerTokens (show_tokens xs)) token = Some name"
    using parse_show_tokens [OF xs assms(1)] by simp
  with b show ?thesis
    by (intro Middleware_serves) (simp_all add: parseCallerTokens_ok)
qed

theorem token_names_caller_witness:
  "fst (Middleware \<lparr>ac_Enabled = True,
      ac_CallerTokens = parseCallerTokens (show_tokens [(''alice'', ''t1''), (''bob'', ''t2'')])\<rparr>
     None (\<lambda>_. True) None (\<lambda>caller reqID r s. (plain_response 200 caller, s)) (demo_http ''Bearer t2'') ()) =
   (plain_response 200 ''bob'')\<lparr>hp_XRequestId := request_id None (demo_http ''Bearer t2'')\<rparr>"
proof -
  have "list_all (\<lambda>(n, t). plain n \<and> plain t \<and> CHR ''='' \<notin> set n) [(''alice'', ''t1''), (''bob'', ''t2'')]"
    by code_simp
  then show ?thesis
    by (subst token_names_caller [where name = "''bob''" and token = "''t2''"]) (simp_all add: demo_http_def)
qed

text \<open>
  C34: A generated request identifier is a version 4 UUID: 36 characters, hyphens at 8, 13, 18
  and 23, the digit 4 at 14 and one of 8, 9, a, b at 19, whatever the 16 random bytes.
\<close>

theorem request_id_is_uuid4:
  assumes "length b = 16"
  shows "length (NewRequestID (Some b)) = 36 \<and> NewRequestID (Some b) ! 14 = CHR ''4'' \<and>
    NewRequestID (Some b) ! 19 \<in> set ''89ab'' \<and>
    (\<forall>i \<in> {8, 13, 18, 23}. NewRequestID (Some b) ! i = CHR ''-'')"
  using request_id_version [OF assms] .

theorem request_id_is_uuid4_witness: "NewRequestID (Some (replicate 16 255)) ! 14 = CHR ''4''"
  using request_id_is_uuid4 [of "replicate 16 255"] by simp

section \<open>Configuration\<close>

text \<open>
  C35: A loaded configuration can be used: it names endpoints, a database, a bucket and a key
  prefix, has at least one worker, and, with authentication on, at least one token; tokens are
  different and neither a token nor a caller is empty.
\<close>

theorem loaded_config_usable:
  assumes "Load env = Inr c"
  shows "oc_Endpoints (cf_OS c) \<noteq> [] \<and> mc_DSN (cf_MySQL c) \<noteq> [] \<and> cs_Bucket (cf_S3 c) \<noteq> [] \<and>
    cs_KeyPrefix (cf_S3 c) \<noteq> [] \<and> 0 < xc_Workers (cf_Exec c) \<and>
    (ac_Enabled (cf_Auth c) \<longrightarrow> ac_CallerTokens (cf_Auth c) \<noteq> []) \<and>
    distinct (map fst (ac_CallerTokens (cf_Auth c))) \<and>
    (\<forall>(token, name) \<in> set (ac_CallerTokens (cf_Auth c)). token \<noteq> [] \<and> name \<noteq> [])"
  using Load_ok [OF assms] by (simp add: tokens_ok_def)

definition small_env :: env where
  "small_env = map_of [(''OS_ENDPOINTS'', ''http://o''), (''MYSQL_DSN'', ''u@tcp(h)/db?x=1''), (''S3_BUCKET'', ''b''),
     (''S3_KEY_PREFIX'', ''p''), (''AUTH_S2S_TOKENS'', ''alice=t1'')]"

lemma small_env_loads: "\<not> isl (Load small_env)"
  by code_simp

theorem loaded_config_usable_witness:
  "\<exists>c. Load small_env = Inr c \<and> oc_Endpoints (cf_OS c) \<noteq> [] \<and> 0 < xc_Workers (cf_Exec c)"
proof -
  from small_env_loads obtain c where c: "Load small_env = Inr c" by (cases "Load small_env") auto
  from loaded_config_usable [OF c] c show ?thesis by blast
qed

text \<open>
  C36: Settings come from the environment first, then from \<open>.env.local\<close>, then from \<open>.env\<close>; of
  two lines for one variable in a file the first counts. A file that is missing changes nothing.
\<close>

theorem config_precedence:
  "\<exists>env'. load_config envLocal envFile env = Load env' \<and>
    (\<forall>k. env' k =
      (case env k of Some v \<Rightarrow> Some v
       | None \<Rightarrow> (case Option.bind envLocal (\<lambda>txt. map_of (dotenv_bindings txt) k) of Some v \<Rightarrow> Some v
                 | None \<Rightarrow> Option.bind envFile (\<lambda>txt. map_of (dotenv_bindings txt) k))))"
proof (unfold load_config_def, intro exI conjI allI, rule refl)
  fix k
  show "loadDotEnv envFile (loadDotEnv envLocal env) k =
      (case env k of Some v \<Rightarrow> Some v
       | None \<Rightarrow> (case Option.bind envLocal (\<lambda>txt. map_of (dotenv_bindings txt) k) of Some v \<Rightarrow> Some v
                 | None \<Rightarrow> Option.bind envFile (\<lambda>txt. map_of (dotenv_bindings txt) k)))"
    by (cases "env k"; cases envLocal; cases envFile)
      (auto simp: loadDotEnv_lookup split: option.splits)
qed

section \<open>Tasks of other callers\<close>

lemma quiet_Get_missing:
  assumes "wd_faults u = []" and "\<not> ctx_Err c u" and "mysql_invar u" and "mysql_tasks u tid = None"
  shows "MySQLStore_Get c tid u = (Inl ErrNotFound, u)"
proof -
  have "select_task tid u = None"
  proof (rule ccontr)
    assume "select_task tid u \<noteq> None"
    then obtain r where r: "select_task tid u = Some r" by blast
    then have "r \<in> set (batch_task u)" by (auto simp: select_task_def find_Some_iff)
    with assms(3) have "scope_of_json (r_scope_json r) \<noteq> None"
      by (auto simp: mysql_invar_def table_ok_def list_all_iff)
    from scanTask_total [OF this] r assms(4) show False
      by (auto simp: mysql_tasks_def table_tasks_def select_task_def)
  qed
  with assms(1,2) show ?thesis
    by (simp add: MySQLStore_Get_def remote_query_def take_fault_def scanTask_missing)
qed

text \<open>
  C26: A task is visible to its caller only. While the database answers, GET and DELETE on an
  identifier that belongs to another caller give the very answer they give on one that was never
  used, 404 with the code \<open>not_found\<close>, and nothing changes.
\<close>

theorem foreign_task_hidden:
  assumes "wd_faults u = []" and "\<not> ctx_Err (re_ctx re) u" and "mysql_invar u"
    and "hd_Store d = MySQLStore" and "cc_store (hd_Canceller d e) = MySQLStore"
    and "\<forall>t. mysql_tasks u tid = Some t \<longrightarrow> t_CallerService t \<noteq> caller"
  shows "handleGet d re caller reqID tid (e, u) =
      (writeError 404 ''not_found'' ''task not found'' reqID, (e, u)) \<and>
    handleCancel d re caller reqID tid (e, u) =
      (writeError 404 ''not_found'' ''task not found'' reqID, (e, u))"
proof -
  have st: "st_Get (hd_Store d) = MySQLStore_Get" "st_Get (cc_store (hd_Canceller d e)) = MySQLStore_Get"
    using assms(4,5) by (simp_all add: MySQLStore_def)
  show ?thesis
  proof (cases "mysql_tasks u tid")
    case None
    show ?thesis
      using quiet_Get_missing [OF assms(1-3) None] by (simp add: handleGet_def handleCancel_def Cancel_def st)
  next
    case (Some t)
    with assms(6) quiet_Get [OF assms(1,2) Some] show ?thesis
      by (simp add: handleGet_def handleCancel_def Cancel_def st)
  qed
qed

theorem foreign_task_hidden_witness:
  "handleGet demo_deps demo_env_r ''x'' ''q'' ''s'' (demo_exec, queued_world) =
    (writeError 404 ''not_found'' ''task not found'' ''q'', (demo_exec, queued_world))"
proof -
  have q: "wd_faults queued_world = []" "\<not> ctx_Err (re_ctx demo_env_r) queued_world"
    by (simp_all add: queued_world_def demo_world_def ctx_Err_def demo_env_r_def)
  have d: "hd_Store demo_deps = MySQLStore" "cc_store (hd_Canceller demo_deps demo_exec) = MySQLStore"
    by (simp_all add: demo_deps_def wire_canceller_def)
  have "map_option t_CallerService (mysql_tasks queued_world ''s'') = Some ''c''" by code_simp
  then have "\<forall>t. mysql_tasks queued_world ''s'' = Some t \<longrightarrow> t_CallerService t \<noteq> ''x''" by auto
  from foreign_task_hidden [OF q queued_invar d this] show ?thesis by simp
qed

section \<open>Auditing\<close>

text \<open>
  C39: The audit log is one line per event. Whatever callers, identifiers and results hold, an
  event prints as one line without a line feed; the file, when it is open, gets that line and a
  line feed, or nothing if the write failed. Nothing is overwritten.
\<close>

theorem audit_is_one_line:
  "\<exists>line. lf \<notin> set line \<and> wd_stdout (Auditor_Log a ev w) = wd_stdout w @ [line] \<and>
    (if \<not> au_f a then wd_audit_file (Auditor_Log a ev w) = wd_audit_file w
     else if wd_faults w = [] then wd_audit_file (Auditor_Log a ev w) = wd_audit_file w @ line @ [lf]
     else wd_audit_file (Auditor_Log a ev w) \<in> {wd_audit_file w, wd_audit_file w @ line @ [lf]})"
  using Marshal_AuditEvent_no_lf
  by (intro exI [of _ "Marshal_AuditEvent (if ae_TS ev = 0 then ev\<lparr>ae_TS := wd_clock w div 1000000000\<rparr> else ev)"])
    (auto simp: Auditor_Log_def append_file_def take_fault_def Let_def split: list.splits prod.splits fault.splits)

section \<open>Start and shutdown\<close>

text \<open>
  C37: The schema is applied on start. With a data source name of the documented form
  \<open>server/db?params\<close>, and a schema of statements ended by semicolons, the migration creates the
  database through a connection that names none, and then runs the statements in order, through
  a connection with several statements allowed, up to the first that fails.
\<close>

theorem schema_applied_in_order:
  assumes "CHR ''/'' \<notin> set (db @ ps)" and "CHR ''?'' \<notin> set db" and "db \<noteq> []"
    and "list_all (\<lambda>s. CHR '';'' \<notin> set s \<and> is_statement s) stmts"
    and "CHR '';'' \<notin> set tail" and "\<not> is_statement tail"
    and "\<And>dsn. sq_Open drv dsn = None"
  shows "applyMigrations drv (join_with (CHR '';'') (stmts @ [tail])) (srv @ ''/'' @ db @ ''?'' @ ps) u =
    (case sq_Exec drv (srv @ ''/?'' @ ps) (create_database db) u of
       (Some e, u1) \<Rightarrow> (Some e, u1)
     | (None, u1) \<Rightarrow> exec_all drv ((srv @ ''/'' @ db @ ''?'' @ ps) @ ''&multiStatements=true'') stmts u1)"
proof -
  have e: "ensureDatabase drv (srv @ ''/'' @ db @ ''?'' @ ps) u =
      sq_Exec drv (srv @ ''/?'' @ ps) (create_database db) u"
    by (simp only: ensureDatabase_dsn [OF assms(1-3)] assms(7) option.case)
  show ?thesis
  proof (cases "sq_Exec drv (srv @ ''/?'' @ ps) (create_database db) u")
    case (Pair er u1)
    show ?thesis
    proof (cases er)
      case None
      with e Pair have "ensureDatabase drv (srv @ ''/'' @ db @ ''?'' @ ps) u = (None, u1)" by (simp only:)
      from applyMigrations_statements [OF assms(4-6) this assms(7)] None Pair show ?thesis by simp
    next
      case (Some x)
      with e Pair show ?thesis by (simp add: applyMigrations_def)
    qed
  qed
qed

text \<open>A driver that records what it is asked to run.\<close>

definition recording_driver :: "(string \<times> string) list SqlDriver" where
  "recording_driver =
     \<lparr>sq_Open = (\<lambda>_. None), sq_Ping = (\<lambda>_ u. (None, u)), sq_Exec = (\<lambda>dsn stmt u. (None, u @ [(dsn, stmt)]))\<rparr>"

theorem schema_applied_in_order_witness:
  "applyMigrations recording_driver ''CREATE TABLE t (x INT);'' ''u@tcp(h)/db?p=1'' [] =
    (None, [(''u@tcp(h)/?p=1'', create_database ''db''),
            (''u@tcp(h)/db?p=1&multiStatements=true'', ''CREATE TABLE t (x INT)'')])"
proof -
  have "list_all (\<lambda>s. CHR '';'' \<notin> set s \<and> is_statement s) [''CREATE TABLE t (x INT)'']"
    "\<not> is_statement []" by code_simp+
  from schema_applied_in_order [OF _ _ _ this(1) _ this(2), of "''db''" "''p=1''" recording_driver "''u@tcp(h)''" "[]"]
  show ?thesis by (simp add: recording_driver_def)
qed


definition demo_platform :: "Services Platform" where
  "demo_platform =
     \<lparr>pf_sql = \<lparr>sq_Open = (\<lambda>_. None), sq_Ping = (\<lambda>_ u. (None, u)), sq_Exec = (\<lambda>_ _ u. (None, u))\<rparr>,
      pf_OpenSearch = (\<lambda>_. Inr (memory_OS demo_docs)), pf_Aws = (\<lambda>_. Inr memory_S3), pf_partSize = 100,
      pf_gzip = (\<lambda>x. x), pf_sha256 = (\<lambda>x. []), pf_metrics_page = (\<lambda>_. [])\<rparr>"

definition demo_service_config :: Config where
  "demo_service_config = demo_config\<lparr>cf_MySQL := \<lparr>mc_DSN = ''u@tcp(h)/db?p=1''\<rparr>, cf_DrainGraceMS := 5000\<rparr>"

definition demo_started :: "Services Service res \<times> Services" where
  "demo_started = run_service demo_platform [] demo_service_config demo_world"

lemma demo_started_ok:
  "\<exists>s. run_service demo_platform [] demo_service_config demo_world = (Inr s, snd demo_started)"
proof -
  have m: "applyMigrations (pf_sql demo_platform) [] ''u@tcp(h)/db?p=1'' demo_world = (None, demo_world)"
  proof -
    have "list_all (\<lambda>s. CHR '';'' \<notin> set s \<and> is_statement s) []" "\<not> is_statement []" by code_simp+
    from applyMigrations_statements [OF this(1) _ this(2), of "pf_sql demo_platform" "''u@tcp(h)/db?p=1''" demo_world demo_world]
      ensureDatabase_dsn [of "''db''" "''p=1''" "pf_sql demo_platform" "''u@tcp(h)''" demo_world]
    show ?thesis by (simp add: demo_platform_def)
  qed
  have "\<not> isl (fst demo_started)"
    using m by (simp add: demo_started_def run_service_def NewMySQLStore_def OSClient_New_def NewS3Uploader_def
        demo_service_config_def demo_platform_def split: prod.splits)
  then obtain s where "fst demo_started = Inr s" by (cases "fst demo_started") auto
  then show ?thesis by (metis demo_started_def prod.collapse)
qed


end
