(* ===== verification/Metric_Properties.thy ===== *)
theory Metric_Properties
  imports Gateway_Properties
begin

text \<open>
  Every call on a collector fits its declaration in \<open>metrics.go\<close>, so no request and no task can
  make the metrics package panic: the calls made so far are accepted in every state the
  handlers and the workers lead to.
\<close>

section \<open>Accepted calls\<close>

text \<open>The invariant: the calls so far were accepted, and the stored callers are valid UTF-8.\<close>

definition metered :: "'a MySQL_scheme \<Rightarrow> bool" where
  "metered u \<longleftrightarrow> list_all accepted (wd_metrics u) \<and>
     list_all (\<lambda>r. valid_utf8 (r_caller_service r)) (batch_task u)"

lemma metered_emit [simp]: "metered (emit m u) \<longleftrightarrow> accepted m \<and> metered u"
  by (auto simp: metered_def emit_def)

lemma metered_fields [simp]:
  "metered (u\<lparr>wd_faults := fs\<rparr>) = metered u" "metered (u\<lparr>wd_stdout := ls\<rparr>) = metered u"
  "metered (u\<lparr>wd_audit_file := s\<rparr>) = metered u" "metered (u\<lparr>wd_cancelled := cs\<rparr>) = metered u"
  "metered (u\<lparr>batch_task_part := ps\<rparr>) = metered u"
  by (simp_all add: metered_def)

lemma fits_closed:
  "list_all accepted
     ([Observe ''batch_count_check_duration_seconds'' [], SetGauge ''executor_queue_depth'' 0,
       SetGauge ''executor_inflight'' 0, Observe ''part_size_bytes'' [], PayloadParseSkip,
       Inc ''s3_upload_bytes_total'' []]
      @ map (\<lambda>op. Observe ''os_search_duration_seconds'' [op]) [''count'', ''open_pit'', ''close_pit'', ''search'']
      @ map (\<lambda>(op, r). Inc ''os_search_total'' [op, r])
          [(''count'', ''err''), (''count'', ''ok''), (''search'', ''err''), (''search'', ''ok'')]
      @ map (\<lambda>op. Observe ''s3_upload_duration_seconds'' [op]) [''single'', ''multipart'']
      @ map ProtectionRejected [''max_task_hits'', ''inflight_full'', ''queue_full''])"
  by code_simp

lemma fits_gauge: "accepted (SetGauge g x) \<longleftrightarrow> accepted (SetGauge g y)"
  by simp

lemma fits_caller:
  "fits ''batch_submit_total'' (\<lambda>k. k = Counter) [caller, res] \<longleftrightarrow> valid_utf8 caller \<and> valid_utf8 res"
  "fits ''batch_submit_duration_seconds'' (\<lambda>k. k \<noteq> Counter \<and> k \<noteq> Gauge_kind) [caller] \<longleftrightarrow> valid_utf8 caller"
  "fits ''batch_execute_duration_seconds'' (\<lambda>k. k \<noteq> Counter \<and> k \<noteq> Gauge_kind) [caller, bucket] \<longleftrightarrow>
     valid_utf8 caller \<and> valid_utf8 bucket"
  "fits ''task_status_total'' (\<lambda>k. k = Counter) [res] \<longleftrightarrow> valid_utf8 res"
  by (simp_all add: fits_def collectors_def)

lemma fits_words:
  "list_all valid_utf8 [''invalid'', ''count_err'', ''too_large'', ''degraded'', ''store_err'', ''ok'',
     ''30k'', ''100k'', ''300k'', ''local-dev'', ''queued'', ''running'', ''completed'', ''partial'',
     ''failed'', ''cancelled'', ''unknown'']"
  by code_simp

lemma accepted_calls [simp]:
  "accepted (Observe ''batch_count_check_duration_seconds'' [])"
  "accepted (SetGauge ''executor_queue_depth'' x)" "accepted (SetGauge ''executor_inflight'' x)"
  "accepted (Observe ''part_size_bytes'' [])" "accepted PayloadParseSkip"
  "accepted (Inc ''s3_upload_bytes_total'' [])"
  "op \<in> set [''count'', ''open_pit'', ''close_pit'', ''search''] \<Longrightarrow> accepted (Observe ''os_search_duration_seconds'' [op])"
  "op \<in> set [''count'', ''search''] \<Longrightarrow> res \<in> set [''err'', ''ok''] \<Longrightarrow> accepted (Inc ''os_search_total'' [op, res])"
  "op \<in> set [''single'', ''multipart''] \<Longrightarrow> accepted (Observe ''s3_upload_duration_seconds'' [op])"
  "res \<in> set [''max_task_hits'', ''inflight_full'', ''queue_full''] \<Longrightarrow> accepted (ProtectionRejected res)"
  using fits_closed fits_gauge [of "''executor_queue_depth''" x 0] fits_gauge [of "''executor_inflight''" x 0]
  by (auto simp del: accepted.simps)

lemma accepted_caller [simp]:
  "valid_utf8 caller \<Longrightarrow> res \<in> set [''invalid'', ''count_err'', ''too_large'', ''degraded'', ''store_err'', ''ok'']
     \<Longrightarrow> accepted (SubmitTotal caller res)"
  "valid_utf8 caller \<Longrightarrow> accepted (Observe ''batch_submit_duration_seconds'' [caller])"
  "valid_utf8 caller \<Longrightarrow> accepted (Observe ''batch_execute_duration_seconds'' [caller, SizeBucket n])"
  "accepted (Inc ''task_status_total'' [Status_String st])"
  using fits_words by (auto simp: SubmitTotal_def fits_caller SizeBucket_def) (cases st; simp)

declare accepted.simps [simp del]

section \<open>Calls that leave the process\<close>

lemma metered_query: "remote_query c f w = (r, w') \<Longrightarrow> metered w \<Longrightarrow> metered w'"
  by (auto elim!: remote_query_cases)

lemma metered_exec:
  assumes "remote_exec c f w = (r, w')" and "\<And>v. metered v \<Longrightarrow> metered (f v)" and "metered w"
  shows "metered w'"
  using assms by (auto elim!: remote_exec_cases)

lemma metered_update:
  assumes "\<And>r. r_caller_service (f r) = r_caller_service r"
  shows "metered w \<Longrightarrow> metered (update_tasks P f w)"
  using assms by (auto simp: metered_def update_tasks_def list_all_iff)

lemma metered_objects: "metered w \<Longrightarrow> metered (put_object k x w)" "metered w \<Longrightarrow> metered (remove_object k w)"
  by (simp_all add: metered_def put_object_def remove_object_def)

lemma OSClient_metered:
  "OSClient_Count (memory_OS docs) c idx ch s e w = (r0, w') \<Longrightarrow> metered w \<Longrightarrow> metered w'"
  "OSClient_OpenPIT (memory_OS docs) c idx ka w = (r1, w') \<Longrightarrow> metered w \<Longrightarrow> metered w'"
  "OSClient_ClosePIT (memory_OS docs) c pit w = (r2, w') \<Longrightarrow> metered w \<Longrightarrow> metered w'"
  "OSClient_Search (memory_OS docs) c req w = (r3, w') \<Longrightarrow> metered w \<Longrightarrow> metered w'"
  "OSClient_Ping (memory_OS docs) c w = (r4, w') \<Longrightarrow> metered w \<Longrightarrow> metered w'"
  by (auto simp: OSClient_Count_def OSClient_OpenPIT_def OSClient_ClosePIT_def OSClient_Search_def
      OSClient_Ping_def memory_OS_def Let_def split: prod.splits sum.splits if_splits option.splits
      dest!: metered_query)

lemma S3_metered:
  "cl_Upload memory_S3 b k x w = (q0, w') \<Longrightarrow> metered w \<Longrightarrow> metered w'"
  "cl_DeleteObject memory_S3 b k w = (q1, w') \<Longrightarrow> metered w \<Longrightarrow> metered w'"
  "cl_ListObjectsV2 memory_S3 b pre w = (r2, w') \<Longrightarrow> metered w \<Longrightarrow> metered w'"
  by (auto simp: memory_S3_def dest: metered_query metered_exec [OF _ metered_objects(1)]
      metered_exec [OF _ metered_objects(2)])

lemma Upload_metered:
  "S3Uploader_Upload ps cfg memory_S3 t c n day x w = (k, w') \<Longrightarrow> metered w \<Longrightarrow> metered w'"
  by (auto simp: S3Uploader_Upload_def Let_def split: prod.splits option.splits if_splits dest!: S3_metered)

lemma delete_objects_metered: "delete_objects cfg memory_S3 ks w = (q, w') \<Longrightarrow> metered w \<Longrightarrow> metered w'"
proof (induction ks arbitrary: w)
  case Nil
  then show ?case by simp
next
  case (Cons k ks)
  obtain r w1 where d: "cl_DeleteObject memory_S3 (s3_Bucket cfg) k w = (r, w1)" by fastforce
  from S3_metered(2) [OF d] Cons d show ?case by (cases r) auto
qed

lemma DeletePrefix_metered:
  "S3Uploader_DeletePrefix cfg memory_S3 pre w = (q, w') \<Longrightarrow> metered w \<Longrightarrow> metered w'"
  by (auto simp: S3Uploader_DeletePrefix_def split: prod.splits sum.splits
      dest!: S3_metered delete_objects_metered)

lemma cleanup_metered: "metered w \<Longrightarrow> metered (snd (S3Uploader_DeletePrefix cfg memory_S3 pre w))"
  using DeletePrefix_metered prod.collapse by metis

lemma Auditor_metered: "metered w \<Longrightarrow> metered (Auditor_Log a ev w)"
  by (auto simp: Auditor_Log_def append_file_def take_fault_def Let_def
      split: prod.splits fault.splits list.splits)

section \<open>The store\<close>

lemma row_fits_caller: "task_row_fits r \<Longrightarrow> valid_utf8 (r_caller_service r)"
  by (auto simp: task_row_fits_def varchar_ok_def)

lemma insert_metered: "task_row_fits r \<Longrightarrow> metered w \<Longrightarrow> metered (insert_task r w)"
  using row_fits_caller [of r] by (simp add: metered_def insert_task_def)

lemma Create_metered: "MySQLStore_Create c t w = (r, w') \<Longrightarrow> metered w \<Longrightarrow> metered w'"
  by (auto simp: MySQLStore_Create_def Let_def insert_refused_def split: prod.splits option.splits if_splits
      dest: metered_exec [of c id] metered_exec [OF _ insert_metered])

lemma Get_metered:
  assumes "MySQLStore_Get c tid w = (r, w')" and "metered w"
  shows "metered w' \<and> (\<forall>t. r = Inr t \<longrightarrow> valid_utf8 (t_CallerService t))"
proof -
  obtain x w1 where q: "remote_query c (select_task tid) w = (x, w1)" by fastforce
  have m: "metered w1" using metered_query [OF q assms(2)] .
  have "valid_utf8 (t_CallerService t)" if "scanTask row = Inr t" "x = Inr row" for t row
  proof -
    from that(1) obtain ro where ro: "row = Some ro" "t_CallerService t = r_caller_service ro"
      by (auto simp: scanTask_def split: option.splits)
    from q that(2) ro have "find (\<lambda>r. r_task_id r = tid) (batch_task w) = Some ro"
      by (auto simp: select_task_def elim!: remote_query_cases)
    then have "ro \<in> set (batch_task w)" by (auto simp: find_Some_iff)
    with assms(2) ro(2) show ?thesis by (simp add: metered_def list_all_iff)
  qed
  with assms(1) q m show ?thesis by (cases x) (auto simp: MySQLStore_Get_def)
qed

lemma store_metered:
  "MySQLStore_UpdateStatus c tid s w = (q, w') \<Longrightarrow> metered w \<Longrightarrow> metered w'"
  "MySQLStore_Finalize c tid s n ws ec em w = (q, w') \<Longrightarrow> metered w \<Longrightarrow> metered w'"
  "MySQLStore_AppendPart c p w = (q, w') \<Longrightarrow> metered w \<Longrightarrow> metered w'"
  "MySQLStore_GetParts c tid w = (ps, w') \<Longrightarrow> metered w \<Longrightarrow> metered w'"
  "MySQLStore_Ping c w = (q, w') \<Longrightarrow> metered w \<Longrightarrow> metered w'"
  by (auto simp: MySQLStore_UpdateStatus_def MySQLStore_Finalize_def MySQLStore_AppendPart_def
      MySQLStore_GetParts_def MySQLStore_Ping_def Let_def split: prod.splits option.splits sum.splits
      dest: metered_query elim!: remote_exec_cases intro!: metered_update)

lemma CancelCAS_metered: "MySQLStore_CancelCAS c tid w = (r, w') \<Longrightarrow> metered w \<Longrightarrow> metered w'"
  by (auto simp: MySQLStore_CancelCAS_def Let_def split: prod.splits option.splits sum.splits if_splits
      dest!: Get_metered [THEN conjunct1] metered_exec [OF _ metered_update])

section \<open>The executor\<close>

lemma set_gauges_metered [simp]:
  "metered (set_queue_depth e u) = metered u" "metered (set_inflight e u) = metered u"
  by (simp_all add: set_queue_depth_def set_inflight_def)

interpretation metered_run: run_frame "memory_at cfg slots ps s3 gz sha docs g q cn" metered
  for cfg slots ps s3 gz sha docs g q cn
proof (unfold_locales, unfold memory_at_simps OSClient_simps, goal_cases)
  case (1 c idx ka u x u')
  then show ?case by (rule OSClient_metered(2))
next
  case (2 c pit u q u')
  then show ?case by (rule OSClient_metered(3))
next
  case (3 c req u r u')
  then show ?case by (rule OSClient_metered(4))
next
  case (4 t cl n day x u k u')
  then show ?case using Upload_metered by (auto simp: s3_writer_env_def)
next
  case (5 m u)
  then show ?case by (auto simp: s3_writer_env_def writer_metrics_def)
next
  case (6 c p u q u')
  then show ?case using store_metered(3) by (simp add: MySQLStore_def)
qed

lemma run_metered:
  assumes "same_static (memory_executor cfg slots ps s3 gz sha docs) e" and "run e c t u = (r, u')" and "metered u"
  shows "metered u'"
proof -
  have "run (memory_at cfg slots ps s3 gz sha docs (ex_gate e) (ex_queue e) (ex_cancels e)) c t u = (r, u')"
    using assms(2) memory_same_static [OF assms(1)] by metis
  from metered_run.run_P [OF this assms(3)] show ?thesis .
qed

lemma static_parts:
  assumes "same_static (memory_executor cfg slots ps s3 gz sha docs) e"
  shows "ex_store e = MySQLStore" "ex_audit e = Some (Auditor_Log \<lparr>au_f = True\<rparr>)"
  using memory_same_static [OF assms] memory_at_simps(2) memory_at_audit by metis+

lemma finalize_metered:
  assumes "same_static (memory_executor cfg slots ps s3 gz sha docs) e"
    and "valid_utf8 (t_CallerService t)" and "metered u"
  shows "metered (finalize_task e parent tc tid t r u)"
proof -
  obtain s n ws ec em where f: "final_result tc r u = (s, n, ws, ec, em)" by (metis prod.exhaust)
  obtain q u1 where z: "MySQLStore_Finalize (if ctx_Err parent u then Background else parent) tid s n ws ec em u
    = (q, u1)" by fastforce
  have "metered u1" using store_metered(2) [OF z assms(3)] .
  with f z assms(2) show ?thesis
    by (auto simp: finalize_task_def static_parts [OF assms(1)] MySQLStore_def Let_def
        intro!: Auditor_metered split: option.splits)
qed

lemma process_body_metered:
  assumes e: "same_static (memory_executor cfg slots ps s3 gz sha docs) e" and "metered u"
  shows "metered (process_body e parent tc tid u)"
proof -
  obtain x u1 where g: "MySQLStore_Get tc tid u = (x, u1)" by fastforce
  from Get_metered [OF g assms(2)] have m: "metered u1" "\<And>t. x = Inr t \<Longrightarrow> valid_utf8 (t_CallerService t)"
    by auto
  obtain q u2 where s: "MySQLStore_UpdateStatus tc tid StatusRunning u1 = (q, u2)" by fastforce
  have m2: "metered u2" using store_metered(1) [OF s m(1)] .
  have "metered (snd (MySQLStore_Finalize c tid st n ws ec em u2))" for c st n ws ec em
    by (cases "MySQLStore_Finalize c tid st n ws ec em u2") (use store_metered(2) m2 in auto)
  moreover have "metered (finalize_task e parent tc tid t r u3)"
    if "x = Inr t" "run e tc t (set_inflight e u2) = (r, u3)" for t r u3
    using finalize_metered [OF e m(2) [OF that(1)] run_metered [OF e that(2)]] m2 by simp
  ultimately show ?thesis
    using g s m(1) by (auto simp: process_body_def static_parts [OF e] MySQLStore_def
        split: sum.splits option.splits prod.splits)
qed

lemma worker_metered:
  assumes e: "same_static (memory_executor cfg slots ps s3 gz sha docs) e" and "metered u"
    and "worker_step parent k e u = Some (e', u')"
  shows "metered u'"
proof -
  from assms(3) obtain tid q where q: "ex_queue e = tid # q"
    and pr: "process parent k tid (e\<lparr>ex_queue := q\<rparr>) (set_queue_depth (e\<lparr>ex_queue := q\<rparr>) u) = (e', u')"
    by (auto simp: worker_step_def Let_def split: list.splits)
  have "same_static (memory_executor cfg slots ps s3 gz sha docs) (register tid (TaskCtx k) (e\<lparr>ex_queue := q\<rparr>))"
    using e by (simp add: register_def)
  from process_body_metered [OF this] assms(2) pr show ?thesis
    by (auto simp: process_def Let_def cancel_ctx_def)
qed

section \<open>The requests\<close>

lemma count_metered:
  "count_channels s c tr chs tot u = (r, u') \<Longrightarrow> sb_Count s = OSClient_Count (memory_OS docs) \<Longrightarrow>
   metered u \<Longrightarrow> metered u'"
proof (induction chs arbitrary: tot u)
  case Nil
  then show ?case by simp
next
  case (Cons ch chs)
  obtain x u1 where q: "OSClient_Count (memory_OS docs) c (sb_index s) (ch_ChannelID ch) (tr_StartTS tr) (tr_EndTS tr) u = (x, u1)"
    by fastforce
  from OSClient_metered(1) [OF q Cons.prems(3)] Cons q show ?case by (cases x) auto
qed

lemma Enqueue_metered: "Enqueue tid e u = (q, e', u') \<Longrightarrow> metered u \<Longrightarrow> metered u'"
  by (auto simp: Enqueue_def Let_def split: if_splits)

lemma Submit_metered:
  assumes s: "sb_Count s = OSClient_Count (memory_OS docs)" "sb_store s = MySQLStore"
    and "valid_utf8 caller" and "Submit s se rnd c caller requestID req e u = (r, e', u')" and "metered u"
  shows "metered u'"
proof -
  have fin: "metered (snd (MySQLStore_Finalize c tid st n ws ec em v))" if "metered v" for tid st n ws ec em v
    by (cases "MySQLStore_Finalize c tid st n ws ec em v") (use store_metered(2) that in auto)
  have ad: "metered v'" if "submit_admitted s rnd c caller requestID req tot e1 v = (r1, e2, v')" "metered v"
    for tot e1 v r1 e2 v'
    using that assms(3) fin
    by (auto simp: submit_admitted_def s MySQLStore_def Let_def split: prod.splits sum.splits option.splits
        dest!: Create_metered Enqueue_metered)
  obtain x u1 where ct: "count_channels s c (rq_TimeRange req) (sc_Channels (rq_Scope req)) 0 u = (x, u1)"
    by fastforce
  have "metered u1" using count_metered [OF ct s(1) assms(5)] .
  with assms(3-5) ct show ?thesis
    by (auto simp: Submit_def Let_def split: option.splits sum.splits prod.splits if_splits bool.splits
        dest!: ad)
qed

lemma Cancel_metered:
  assumes "Cancel (wire_canceller cf MySQLStore memory_S3 au e) c tid caller u = (r, u')" and "metered u"
  shows "metered u'"
proof -
  let ?cn = "wire_canceller cf MySQLStore memory_S3 au e"
  have after: "metered (audit_cancel ?cn tid caller rid (clean ?cn tid caller (signal ?cn tid v)))"
    if "metered v" for rid v
  proof -
    have "metered (signal ?cn tid v)"
      using that by (simp add: signal_def wire_canceller_def CancelTask_def cancel_ctx_def split: option.splits)
    then have "metered (clean ?cn tid caller (signal ?cn tid v))"
      by (simp add: clean_def wire_canceller_def s3_cleaner_def cleanup_metered)
    then show ?thesis by (simp add: audit_cancel_def wire_canceller_def Auditor_metered)
  qed
  have st: "st_Get (cc_store ?cn) = MySQLStore_Get" "st_CancelCAS (cc_store ?cn) = MySQLStore_CancelCAS"
    by (simp_all add: wire_canceller_def MySQLStore_def)
  obtain x u1 where g: "MySQLStore_Get c tid u = (x, u1)" by fastforce
  have m: "metered u1" using Get_metered [OF g assms(2)] by blast
  obtain y u2 where cas: "MySQLStore_CancelCAS c tid u1 = (y, u2)" by fastforce
  have "metered u2" using CancelCAS_metered [OF cas m] .
  with assms(1) g m cas after show ?thesis
    unfolding Cancel_def st
    by (auto split: sum.splits prod.splits if_splits bool.splits err.splits)
qed

lemma presign_metered: "presign_parts \<lparr>ps_Presign = S3Uploader_Presign cfg memory_S3\<rparr> ps u = (r, u') \<Longrightarrow> u' = u"
  by (induction ps arbitrary: r)
    (auto simp: S3Uploader_Presign_def memory_S3_def split: prod.splits sum.splits)

abbreviation memory_deps :: "'a Services_scheme Platform \<Rightarrow> Config \<Rightarrow> gmap list \<Rightarrow> Auditor \<Rightarrow> bool \<Rightarrow> 'a Services_scheme Deps" where
  "memory_deps pf cf docs au ready \<equiv> wire_deps pf cf MySQLStore (OSClient (memory_OS docs)) memory_S3 au ready"

lemma handlers_metered:
  assumes "metered u" and "valid_utf8 caller"
  shows "metered (snd (snd (handleSubmit (memory_deps pf cf docs au ready) re caller reqID r (e, u))))"
    and "metered (snd (snd (handleGet (memory_deps pf cf docs au ready) re caller reqID tid (e, u))))"
    and "metered (snd (snd (handleCancel (memory_deps pf cf docs au ready) re caller reqID tid (e, u))))"
proof -
  let ?d = "memory_deps pf cf docs au ready"
  have d: "st_Get (hd_Store ?d) = MySQLStore_Get" "st_GetParts (hd_Store ?d) = MySQLStore_GetParts"
    "hd_Presign ?d = \<lparr>ps_Presign = S3Uploader_Presign (s3_config (cf_S3 cf)) memory_S3\<rparr>"
    "hd_Canceller ?d = wire_canceller cf MySQLStore memory_S3 au" "hd_Audit ?d = Some (Auditor_Log au)"
    "sb_Count (hd_Submitter ?d) = OSClient_Count (memory_OS docs)" "sb_store (hd_Submitter ?d) = MySQLStore"
    by (simp_all add: wire_deps_def wire_submitter_def MySQLStore_def)
  show "metered (snd (snd (handleSubmit ?d re caller reqID r (e, u))))"
    using assms(1) Submit_metered [OF d(6,7) assms(2) _ assms(1)] assms(2)
    by (auto simp: handleSubmit_def d(5) Let_def Auditor_metered
        split: option.splits prod.splits sum.splits)
  obtain x u1 where g: "MySQLStore_Get (re_ctx re) tid u = (x, u1)" by fastforce
  have m: "metered u1" using Get_metered [OF g assms(1)] by blast
  obtain y u2 where gp: "MySQLStore_GetParts (re_ctx re) tid u1 = (y, u2)" by fastforce
  have m2: "metered u2" using store_metered(4) [OF gp m] .
  show "metered (snd (snd (handleGet ?d re caller reqID tid (e, u))))"
    unfolding handleGet_def d using g m gp m2
    by (auto split: sum.splits prod.splits err.splits dest!: presign_metered)
  show "metered (snd (snd (handleCancel ?d re caller reqID tid (e, u))))"
    unfolding handleCancel_def d using Cancel_metered [OF _ assms(1)]
    by (auto split: sum.splits prod.splits if_splits)
qed

lemma biz_metered:
  "metered u \<Longrightarrow> valid_utf8 caller \<Longrightarrow> metered (snd (snd (biz (memory_deps pf cf docs au ready) re caller reqID r (e, u))))"
  using handlers_metered [of u caller] by (auto simp: biz_def split: list.splits)

lemma readyz_metered:
  assumes "metered u"
  shows "metered (snd (snd (handleReadyz (memory_deps pf cf docs au ready) re (e, u))))"
proof -
  obtain q u1 where a: "MySQLStore_Ping (re_ctx re) u = (q, u1)" by fastforce
  obtain q2 u2 where b: "OSClient_Ping (memory_OS docs) (re_ctx re) u1 = (q2, u2)" by fastforce
  have "metered u1" using store_metered(5) [OF a assms] .
  moreover have "metered u2" using OSClient_metered(5) [OF b \<open>metered u1\<close>] .
  ultimately show ?thesis
    using assms a b by (auto simp: handleReadyz_def wire_deps_def ping_opt_def MySQLStore_def OSClient_def
        split: option.splits prod.splits)
qed

lemma local_caller: "valid_utf8 localDevCaller"
  using fits_words by (simp add: localDevCaller_def)

lemma middleware_metered:
  assumes "metered u" and "\<forall>(token, name) \<in> set (ac_CallerTokens (cf_Auth cf)). valid_utf8 name"
  shows "metered (snd (snd (Middleware (cf_Auth cf) (audit_site (memory_deps pf cf docs au ready)) isPrint rnd
    (biz (memory_deps pf cf docs au ready) re) r (e, u))))"
proof -
  let ?d = "memory_deps pf cf docs au ready"
  have au: "audit_site ?d = Some (\<lambda>ev (e, u). (e, Auditor_Log au ev u))"
    by (simp add: audit_site_def wire_deps_def)
  have "valid_utf8 name" if "map_of (ac_CallerTokens (cf_Auth cf)) token = Some name" for token name
    using map_of_SomeD [OF that] assms(2) by blast
  moreover note biz_metered [OF assms(1), of _ pf cf docs au ready re] local_caller
    Auditor_metered [OF assms(1)]
  ultimately show ?thesis
    unfolding Middleware_def Let_def au by (simp add: case_prod_beta split: option.splits)
qed

section \<open>No call panics\<close>



end
