(* ===== verification/System_Calls.thy ===== *)
theory System_Calls
  imports System
begin

text \<open>
  The threads of the running service against the code: a worker's steps, undisturbed, compute
  \<open>process\<close>; and whole calls of \<open>Submit\<close>, \<open>Cancel\<close> and \<open>worker\<close> are sequences of steps.
\<close>

section \<open>A worker's steps are the code's \<open>process\<close>\<close>

definition work_move :: "nat \<Rightarrow> worker_pc \<times> 'a shared \<Rightarrow> worker_pc \<times> 'a shared \<Rightarrow> bool" where
  "work_move k x y \<longleftrightarrow> work_step k (fst x) (snd x) (fst y) (snd y)"

text \<open>After it has registered, a worker does not look at the number of the next context.\<close>

definition free_move :: "worker_pc \<times> 'a shared \<Rightarrow> worker_pc \<times> 'a shared \<Rightarrow> bool" where
  "free_move x y \<longleftrightarrow> (\<forall>k. work_move k x y)"

lemma free_moveI: "(\<And>k. work_step k pc sh pc' sh') \<Longrightarrow> free_move\<^sup>*\<^sup>* (pc, sh) (pc', sh')"
  by (simp add: free_move_def work_move_def r_into_rtranclp)

lemma free_work: "free_move\<^sup>*\<^sup>* x y \<Longrightarrow> (work_move k)\<^sup>*\<^sup>* x y"
  by (rule mono_rtranclp [rule_format, of free_move]) (simp_all add: free_move_def)

lemma process_end:
  "free_move\<^sup>*\<^sup>* (WUnregister tid k, (e, u))
     (WIdle, (e\<lparr>ex_cancels := (ex_cancels e)(tid := None), ex_gate := Release (ex_gate e)\<rparr>,
       cancel_ctx (TaskCtx k) u))"
proof -
  let ?e = "unregister tid e"
  have "free_move\<^sup>*\<^sup>* (WUnregister tid k, (e, u)) (WCancelCtx tid k, (?e, u))"
    by (intro free_moveI work_unregister)
  moreover have "free_move\<^sup>*\<^sup>* (WCancelCtx tid k, (?e, u)) (WRelease tid, (?e, cancel_ctx (TaskCtx k) u))"
    by (intro free_moveI work_cancel_ctx)
  moreover have "free_move\<^sup>*\<^sup>* (WRelease tid, (?e, cancel_ctx (TaskCtx k) u))
      (WIdle, (?e\<lparr>ex_gate := Release (ex_gate ?e)\<rparr>, cancel_ctx (TaskCtx k) u))"
    by (intro free_moveI work_release)
  ultimately show ?thesis by (simp add: unregister_def)
qed

lemma process_body_moves:
  "free_move\<^sup>*\<^sup>* (WGet tid k, (e, u)) (WUnregister tid k, (e, process_body e Parent (TaskCtx k) tid u))"
proof -
  obtain x u1 where g: "st_Get (ex_store e) (TaskCtx k) tid u = (x, u1)" by fastforce
  show ?thesis
  proof (cases x)
    case (Inl er)
    with g have "process_body e Parent (TaskCtx k) tid u = u1" by (simp add: process_body_def)
    with free_moveI [OF work_get_err [OF g [unfolded Inl]]] show ?thesis by metis
  next
    case (Inr t)
    note g = g [unfolded Inr]
    show ?thesis
    proof (cases "IsTerminal (t_Status t)")
      case True
      with g have "process_body e Parent (TaskCtx k) tid u = u1" by (simp add: process_body_def)
      with free_moveI [OF work_get_skip [OF g True]] show ?thesis by metis
    next
      case False
      note m1 = free_moveI [OF work_get [OF g False]]
      obtain q u2 where up: "st_UpdateStatus (ex_store e) (TaskCtx k) tid StatusRunning u1 = (q, u2)"
        by fastforce
      show ?thesis
      proof (cases q)
        case (Some er)
        obtain q3 u3 where fi: "st_Finalize (ex_store e) Parent tid StatusFailed 0 [] ''internal_error''
            ''update status running failed'' u2 = (q3, u3)" by fastforce
        have "process_body e Parent (TaskCtx k) tid u = u3"
          using g False up Some fi by (simp add: process_body_def)
        with rtranclp_trans [OF m1 rtranclp_trans [OF free_moveI [OF work_start_err [OF up [unfolded Some]]]
            free_moveI [OF work_abort [OF fi]]]] show ?thesis by metis
      next
        case None
        obtain r u3 where ru: "run e (TaskCtx k) t (set_inflight e u2) = (r, u3)" by fastforce
        have "process_body e Parent (TaskCtx k) tid u = finalize_task e Parent (TaskCtx k) tid t r u3"
          using g False up None ru by (simp add: process_body_def)
        with rtranclp_trans [OF m1 rtranclp_trans [OF free_moveI [OF work_start [OF up [unfolded None]]]
            rtranclp_trans [OF free_moveI [OF work_run [OF ru]] free_moveI [OF work_final]]]]
        show ?thesis by metis
      qed
    qed
  qed
qed

lemma process_moves:
  "(work_move k)\<^sup>*\<^sup>* (WTaken tid, (e, u)) (WIdle, process Parent k tid e u)"
proof -
  let ?e = "register tid (TaskCtx k) e"
  have "work_move k (WTaken tid, (e, u)) (WGet tid k, (?e, u))"
    by (simp add: work_move_def work_register)
  from converse_rtranclp_into_rtranclp [of "work_move k", OF this
      free_work [OF rtranclp_trans [OF process_body_moves process_end]]] show ?thesis
    by (simp add: process_def Let_def register_def unregister_def)
qed

section \<open>Whole calls as steps of the system\<close>

text \<open>The system with one thread somewhere else and another shared state.\<close>

definition at_sub :: "'a Sys \<Rightarrow> nat \<Rightarrow> submit_pc \<Rightarrow> 'a world_executor \<Rightarrow> 'a World_scheme \<Rightarrow> 'a Sys" where
  "at_sub s i pc e u = s\<lparr>sy_shared := (e, u), sy_subs := (sy_subs s)[i := pc]\<rparr>"

definition at_can :: "'a Sys \<Rightarrow> nat \<Rightarrow> cancel_pc \<Rightarrow> 'a world_executor \<Rightarrow> 'a World_scheme \<Rightarrow> 'a Sys" where
  "at_can s i pc e u = s\<lparr>sy_shared := (e, u), sy_cans := (sy_cans s)[i := pc]\<rparr>"

definition at_worker :: "'a Sys \<Rightarrow> nat \<Rightarrow> worker_pc \<Rightarrow> 'a shared \<Rightarrow> nat \<Rightarrow> 'a Sys" where
  "at_worker s i pc sh n = s\<lparr>sy_shared := sh, sy_workers := (sy_workers s)[i := pc], sy_next := n\<rparr>"

lemma sub_move:
  assumes "i < length (sy_subs s)" and "sub_step pc (e, u) pc' (e', u')"
  shows "(sys_step cn)\<^sup>*\<^sup>* (at_sub s i pc e u) (at_sub s i pc' e' u')"
proof -
  from assms(2) have "sub_step (sy_subs (at_sub s i pc e u) ! i) (sy_shared (at_sub s i pc e u)) pc' (e', u')"
    using assms(1) by (simp add: at_sub_def)
  from sys_sub [OF _ this, of cn] assms(1) show ?thesis
    by (simp add: at_sub_def r_into_rtranclp)
qed

lemma can_move:
  assumes "i < length (sy_cans s)" and "cancel_step cn pc (e, u) pc' (e', u')"
  shows "(sys_step cn)\<^sup>*\<^sup>* (at_can s i pc e u) (at_can s i pc' e' u')"
proof -
  from assms(2) have "cancel_step cn (sy_cans (at_can s i pc e u) ! i) (sy_shared (at_can s i pc e u)) pc' (e', u')"
    using assms(1) by (simp add: at_can_def)
  from sys_can [OF _ this] assms(1) show ?thesis
    by (simp add: at_can_def r_into_rtranclp)
qed

lemma work_moves:
  assumes "i < length (sy_workers s)" and "work_step n pc sh pc' sh'"
  shows "sys_step cn (at_worker s i pc sh n) (at_worker s i pc' sh' (Suc n))"
proof -
  from assms(2) have "work_step (sy_next (at_worker s i pc sh n)) (sy_workers (at_worker s i pc sh n) ! i)
      (sy_shared (at_worker s i pc sh n)) pc' sh'"
    using assms(1) by (simp add: at_worker_def)
  from sys_work [OF _ this, of cn] assms(1) show ?thesis by (simp add: at_worker_def)
qed

lemma free_moves:
  assumes "free_move\<^sup>*\<^sup>* x y" and "i < length (sy_workers s)"
  shows "\<exists>m. (sys_step cn)\<^sup>*\<^sup>* (at_worker s i (fst x) (snd x) n) (at_worker s i (fst y) (snd y) m)"
  using assms(1)
proof (induction rule: rtranclp_induct)
  case base
  then show ?case by blast
next
  case (step y z)
  then obtain m where m: "(sys_step cn)\<^sup>*\<^sup>* (at_worker s i (fst x) (snd x) n) (at_worker s i (fst y) (snd y) m)" by blast
  have "work_step m (fst y) (snd y) (fst z) (snd z)" using step(2) by (simp add: free_move_def work_move_def)
  from rtranclp.rtrancl_into_rtrancl [OF m work_moves [OF assms(2) this]] show ?case by blast
qed

lemma outer_move: "outer u u' \<Longrightarrow> (sys_step cn)\<^sup>*\<^sup>* (at_sub s i pc e u) (at_sub s i pc e u')"
  using sys_outer [of "at_sub s i pc e u" e u u' cn] by (cases s) (simp add: at_sub_def r_into_rtranclp)

text \<open>A request that is admitted: from the slot on.\<close>

lemma submit_admitted_moves:
  assumes i: "i < length (sy_subs s)" and st: "sb_store sb = ex_store e"
    and r: "submit_admitted sb rnd c caller requestID req tot e u = (r, e', u')"
  shows "(sys_step cn)\<^sup>*\<^sup>*
    (at_sub s i (SubAdmitted (new_task (NewTaskID (wd_clock u) rnd) caller requestID tot req)) e u)
    (at_sub s i SubIdle e' u')"
proof -
  let ?tid = "NewTaskID (wd_clock u) rnd" and ?t = "new_task (NewTaskID (wd_clock u) rnd) caller requestID tot req"
  note mv = sub_move [OF i, of _ _ _ _ _ _ cn] and out = outer_move [OF outer_emit, of cn s i]
  have id: "t_TaskID ?t = ?tid" by (simp add: new_task_def)
  obtain x u1 where cr: "st_Create (ex_store e) c ?t u = (x, u1)" by fastforce
  show ?thesis
  proof (cases x)
    case (Inl er)
    have "e' = e\<lparr>ex_gate := Release (ex_gate e)\<rparr>" "u' = emit (SubmitTotal caller ''store_err'') u1"
      using r cr Inl st by (simp_all add: submit_admitted_def)
    with rtranclp_trans [OF mv [OF sub_create_err [OF cr [unfolded Inl]]]
        rtranclp_trans [OF mv [OF sub_release] out]] show ?thesis by simp
  next
    case (Inr t')
    note m1 = mv [OF sub_create [OF cr [unfolded Inr]], unfolded id]
    obtain q e1 u2 where en: "Enqueue ?tid e u1 = (q, e1, u2)" by (metis prod.exhaust)
    show ?thesis
    proof (cases q)
      case None
      have "e' = e1" "u' = emit (SubmitTotal caller ''ok'') u2"
        using r cr Inr st en None by (simp_all add: submit_admitted_def)
      with rtranclp_trans [OF m1 rtranclp_trans [OF mv [OF sub_enqueue [OF en [unfolded None]]] out]]
      show ?thesis by simp
    next
      case (Some er)
      let ?e2 = "e1\<lparr>ex_gate := Release (ex_gate e1)\<rparr>"
      have es: "ex_store e1 = ex_store e" using en by (auto simp: Enqueue_def Let_def split: if_splits)
      obtain q3 u3 where f: "st_Finalize (ex_store e) c ?tid StatusFailed 0 [] ''service_degraded''
          ''queue full'' u2 = (q3, u3)" by fastforce
      then have fi: "st_Finalize (ex_store ?e2) c ?tid StatusFailed 0 [] ''service_degraded''
          ''queue full'' u2 = (q3, u3)" by (simp add: es)
      have "e' = ?e2" "u' = emit (SubmitTotal caller ''degraded'') (emit (ProtectionRejected ''queue_full'') u3)"
        using r cr Inr st en Some f by (simp_all add: submit_admitted_def Let_def)
      with rtranclp_trans [OF m1 rtranclp_trans [OF mv [OF sub_enqueue_full [OF en [unfolded Some]]]
          rtranclp_trans [OF mv [OF sub_full_release] rtranclp_trans [OF mv [OF sub_fail [OF fi]]
            rtranclp_trans [OF out out]]]]] show ?thesis by simp
    qed
  qed
qed

lemma outer_refl [simp]: "outer u u"
  unfolding outer_def
  by (intro exI [of _ "wd_faults u"] exI [of _ "wd_metrics u"] exI [of _ "wd_stdout u"]
      exI [of _ "wd_audit_file u"]) simp

lemma outer_emits: "outer u v \<Longrightarrow> outer u (emit m v)"
  using outer_trans outer_emit by blast

lemma count_outer:
  assumes "\<And>ch a b v x v'. sb_Count sb c (sb_index sb) ch a b v = (x, v') \<Longrightarrow> outer v v'"
  shows "count_channels sb c tr chs tot u = (r, u') \<Longrightarrow> outer u u'"
proof (induction chs arbitrary: tot u)
  case Nil
  then show ?case by simp
next
  case (Cons ch chs)
  obtain x u1 where q: "sb_Count sb c (sb_index sb) (ch_ChannelID ch) (tr_StartTS tr) (tr_EndTS tr) u = (x, u1)"
    by fastforce
  from assms [OF q] Cons q show ?case by (cases x) (auto intro: outer_trans)
qed

lemma Submit_moves:
  assumes i: "i < length (sy_subs s)" "sy_subs s ! i = SubIdle" and st: "sb_store sb = ex_store e"
    and ct: "\<And>ch a b v x v'. sb_Count sb c (sb_index sb) ch a b v = (x, v') \<Longrightarrow> outer v v'"
    and sc: "storable_scope (rq_Scope req)" and sh: "sy_shared s = (e, u)"
    and r: "Submit sb se rnd c caller requestID req e u = (r, e', u')"
  shows "(sys_step cn)\<^sup>*\<^sup>* s (s\<lparr>sy_shared := (e', u')\<rparr>)"
proof -
  have idle: "at_sub s i SubIdle v w = s\<lparr>sy_shared := (v, w)\<rparr>" for v w
    using list_update_same [OF i(2)] by (cases s) (simp add: at_sub_def)
  have start: "at_sub s i SubIdle e u = s" unfolding idle using sh by (cases s) simp
  obtain x u1 where cc: "count_channels sb c (rq_TimeRange req) (sc_Channels (rq_Scope req)) 0 u = (x, u1)"
    by fastforce
  let ?u2 = "emit (Observe ''batch_count_check_duration_seconds'' []) u1"
  have o: "outer u u1" "outer u ?u2" using count_outer [OF ct cc] by (simp_all add: outer_emits)
  note out = outer_move [of u, where e = e and cn = cn and s = s and i = i and pc = SubIdle, unfolded start]
  show ?thesis
  proof (cases "e' = e \<and> outer u u'")
    case True
    then show ?thesis using out [of u'] idle by simp
  next
    case False
    with r cc o obtain tot g where g: "x = Inr tot"
      "Acquire se (ctx_Err c ?u2) (pc_SubmitWait (sb_cfg sb)) (ex_gate e) = g"
      "fst g \<Longrightarrow> submit_admitted sb rnd c caller requestID req tot (e\<lparr>ex_gate := snd g\<rparr>) ?u2 = (r, e', u')"
      "\<not> fst g \<Longrightarrow> e' = e\<lparr>ex_gate := snd g\<rparr> \<and> outer ?u2 u'"
      by (auto simp: Submit_def Let_def outer_emits split: option.splits sum.splits prod.splits if_splits bool.splits)
    show ?thesis
    proof (cases "fst g")
      case True
      let ?e = "e\<lparr>ex_gate := snd g\<rparr>"
      have ac: "Acquire se (ctx_Err c ?u2) (pc_SubmitWait (sb_cfg sb)) (ex_gate e) = (True, snd g)"
        using g(2) True by (metis prod.collapse)
      have "sb_store sb = ex_store ?e" using st by simp
      note ad = submit_admitted_moves [OF i(1) this g(3) [OF True], of cn]
      from rtranclp_trans [OF out [OF o(2)] rtranclp_trans [OF sub_move [OF i(1) sub_admit [OF ac sc]] ad]]
      show ?thesis by (simp add: idle)
    next
      case nadm: False
      have ac: "Acquire se (ctx_Err c ?u2) (pc_SubmitWait (sb_cfg sb)) (ex_gate e) = (False, snd g)"
        using g(2) nadm by (metis prod.collapse)
      from rtranclp_trans [OF out [OF o(2)] rtranclp_trans [OF sub_move [OF i(1) sub_busy [OF ac]]
          outer_move [OF conjunct2 [OF g(4) [OF nadm]]]]] g(4) [OF nadm]
      show ?thesis by (simp add: idle)
    qed
  qed
qed

lemma Cancel_moves:
  assumes i: "i < length (sy_cans s)" "sy_cans s ! i = CanIdle" and sh: "sy_shared s = (e, u)"
    and r: "Cancel (cn e) c tid caller u = (r, u')"
  shows "(sys_step cn)\<^sup>*\<^sup>* s (s\<lparr>sy_shared := (e, u')\<rparr>)"
proof -
  have idle: "at_can s i CanIdle v w = s\<lparr>sy_shared := (v, w)\<rparr>" for v w
    using list_update_same [OF i(2)] by (cases s) (simp add: at_can_def)
  have start: "at_can s i CanIdle e u = s" unfolding idle using sh by (cases s) simp
  note mv = can_move [OF i(1), of cn]
  obtain x u1 where g: "st_Get (cc_store (cn e)) c tid u = (x, u1)" by fastforce
  show ?thesis
  proof (cases "case x of Inl _ \<Rightarrow> True | Inr t \<Rightarrow> t_CallerService t \<noteq> caller \<or> IsTerminal (t_Status t)")
    case True
    then have "u' = u1" using r g by (auto simp: Cancel_def split: sum.splits err.splits if_splits)
    then show ?thesis using mv [OF can_done [where cn = cn, OF g True], unfolded start] by (simp add: idle)
  next
    case False
    then obtain t where t: "x = Inr t" "t_CallerService t = caller" "\<not> IsTerminal (t_Status t)"
      by (cases x) auto
    note m1 = mv [OF can_get [where cn = cn, OF g [unfolded t(1)] t(2,3)], unfolded start]
    obtain y u2 where c2: "st_CancelCAS (cc_store (cn e)) c tid u1 = (y, u2)" by fastforce
    show ?thesis
    proof (cases "\<exists>st. y = Inr (True, st)")
      case True
      then obtain st where y: "y = Inr (True, st)" by blast
      have "u' = audit_cancel (cn e) tid caller (t_RequestID t) (clean (cn e) tid caller (signal (cn e) tid u2))"
        using r g t c2 y by (simp add: Cancel_def)
      with rtranclp_trans [OF m1 rtranclp_trans [OF mv [OF can_won [where cn = cn, OF c2 [unfolded y]]]
          rtranclp_trans [OF mv [OF can_signal] mv [OF can_clean]]]]
      show ?thesis by (simp add: idle)
    next
      case False
      then have lost: "case y of Inl _ \<Rightarrow> True | Inr (b, _) \<Rightarrow> \<not> b" by (auto split: sum.splits)
      have "u' = u2" using r g t c2 False by (auto simp: Cancel_def split: sum.splits bool.splits)
      with rtranclp_trans [OF m1 mv [OF can_lost [where cn = cn, OF c2 lost]]] show ?thesis by (simp add: idle)
    qed
  qed
qed

lemma worker_moves:
  assumes i: "i < length (sy_workers s)" "sy_workers s ! i = WIdle" and sh: "sy_shared s = (e, u)"
    and r: "worker_step Parent (Suc (sy_next s)) e u = Some sh'"
  shows "\<exists>n. (sys_step cn)\<^sup>*\<^sup>* s (s\<lparr>sy_shared := sh', sy_next := n\<rparr>)"
proof -
  have idle: "at_worker s i WIdle v n = s\<lparr>sy_shared := v, sy_next := n\<rparr>" for v n
    using list_update_same [OF i(2)] by (cases s) (simp add: at_worker_def)
  have start: "at_worker s i WIdle (e, u) (sy_next s) = s" unfolding idle using sh by (cases s) simp
  from r obtain tid q where q: "ex_queue e = tid # q"
    and p: "process Parent (Suc (sy_next s)) tid (e\<lparr>ex_queue := q\<rparr>) (set_queue_depth (e\<lparr>ex_queue := q\<rparr>) u) = sh'"
    by (auto simp: worker_step_def Let_def split: list.splits)
  let ?e = "e\<lparr>ex_queue := q\<rparr>" and ?u = "set_queue_depth (e\<lparr>ex_queue := q\<rparr>) u" and ?k = "Suc (sy_next s)"
  note m1 = work_moves [OF i(1) work_receive [where u = u and k = "sy_next s", OF q], of cn, unfolded start]
  note m2 = work_moves [OF i(1) work_register [of ?k tid ?e ?u], of cn]
  have fr: "free_move\<^sup>*\<^sup>* (WGet tid ?k, (register tid (TaskCtx ?k) ?e, ?u)) (WIdle, sh')"
    using rtranclp_trans [OF process_body_moves process_end, of tid ?k "register tid (TaskCtx ?k) ?e" ?u] p
    by (simp add: process_def Let_def register_def unregister_def)
  from free_moves [OF fr i(1), of cn "Suc ?k"] obtain m where
    "(sys_step cn)\<^sup>*\<^sup>* (at_worker s i (WGet tid ?k) (register tid (TaskCtx ?k) ?e, ?u) (Suc ?k)) (at_worker s i WIdle sh' m)"
    by auto
  with m1 m2 show ?thesis unfolding idle by (meson converse_rtranclp_into_rtranclp)
qed

end
