(* ===== verification/Call_Properties.thy ===== *)
theory Call_Properties
  imports System_Properties System_Calls
begin

text \<open>
  The properties that tie the threads of the running service to the code: their steps are the
  calls of \<open>Submit\<close>, \<open>Cancel\<close> and \<open>process\<close>, and every call ends.
\<close>

section \<open>Calls as steps\<close>

text \<open>
  A worker's small steps implement \<open>process\<close>. Undisturbed, a worker that has taken a task
  goes, one call at a time and on every outcome of every call, to exactly the state the
  function \<open>process\<close> computes, idle again with its slot, its registry entry and its context
  given back.
\<close>

theorem worker_implements_process:
  assumes "process Parent k tid e u = (e', u')"
  shows "(work_move k)\<^sup>*\<^sup>* (WTaken tid, (e, u)) (WIdle, (e', u')) \<and>
    e' = e\<lparr>ex_gate := Release (ex_gate e), ex_cancels := (ex_cancels e)(tid := None)\<rparr> \<and>
    ctx_Err (TaskCtx k) u'"
proof -
  have "ctx_Err (TaskCtx k) u'"
    using assms by (auto simp: process_def Let_def cancel_ctx_def ctx_Err_def)
  with process_moves [of k tid e u] assms process_executor [OF assms] show ?thesis by simp
qed

theorem worker_implements_process_witness:
  "\<exists>e' u'. (work_move 0)\<^sup>*\<^sup>* (WTaken ''s'', (demo_exec, queued_world)) (WIdle, (e', u')) \<and>
    ex_cancels e' ''s'' = None"
proof -
  obtain e' u' where "process Parent 0 ''s'' demo_exec queued_world = (e', u')" by fastforce
  from worker_implements_process [OF this] show ?thesis by auto
qed

text \<open>
  C15: The threads are the code. In any state in which a submit thread, a cancel thread and a
  worker are idle, a whole call of \<open>Submit\<close> (with any request, on every branch), of \<open>Cancel\<close>
  and of the receive branch of \<open>worker\<close> is a sequence of steps of the system that ends with
  these threads idle and with the executor and the world the call returns; so what holds in
  every reachable state holds before and after each call.
\<close>

theorem calls_are_steps:
  assumes "sy_shared s = (e, u)" and "i < length (sy_subs s)" and "sy_subs s ! i = SubIdle"
    and "j < length (sy_cans s)" and "sy_cans s ! j = CanIdle"
    and "l < length (sy_workers s)" and "sy_workers s ! l = WIdle"
    and "sb_store sb = ex_store e" and "storable_scope (rq_Scope req)"
    and "\<And>ch a b v x v'. sb_Count sb c (sb_index sb) ch a b v = (x, v') \<Longrightarrow> outer v v'"
  shows "(case Submit sb se rnd c caller requestID req e u of
      (_, sh') \<Rightarrow> (sys_step cn)\<^sup>*\<^sup>* s (s\<lparr>sy_shared := sh'\<rparr>)) \<and>
    (case Cancel (cn e) c tid caller u of
      (_, u') \<Rightarrow> (sys_step cn)\<^sup>*\<^sup>* s (s\<lparr>sy_shared := (e, u')\<rparr>)) \<and>
    (case worker_step Parent (Suc (sy_next s)) e u of
      None \<Rightarrow> ex_queue e = []
    | Some sh' \<Rightarrow> \<exists>n. (sys_step cn)\<^sup>*\<^sup>* s (s\<lparr>sy_shared := sh', sy_next := n\<rparr>))"
proof (intro conjI)
  show "case Submit sb se rnd c caller requestID req e u of
      (_, sh') \<Rightarrow> (sys_step cn)\<^sup>*\<^sup>* s (s\<lparr>sy_shared := sh'\<rparr>)"
    using Submit_moves [OF assms(2,3,8,10,9,1)] by (auto split: prod.splits)
  show "case Cancel (cn e) c tid caller u of
      (_, u') \<Rightarrow> (sys_step cn)\<^sup>*\<^sup>* s (s\<lparr>sy_shared := (e, u')\<rparr>)"
    using Cancel_moves [OF assms(4,5,1)] by (auto split: prod.splits)
  show "case worker_step Parent (Suc (sy_next s)) e u of
      None \<Rightarrow> ex_queue e = []
    | Some sh' \<Rightarrow> \<exists>n. (sys_step cn)\<^sup>*\<^sup>* s (s\<lparr>sy_shared := sh', sy_next := n\<rparr>)"
    using worker_moves [OF assms(6,7,1)]
    by (auto split: option.splits simp: worker_step_def Let_def split: list.splits)
qed

lemma outer_count: "OSClient_Count (memory_OS docs) c idx ch a b v = (x, v') \<Longrightarrow> outer v v'"
proof -
  have "outer v w" if "remote_query c f v = (y, w)" for f and y :: "'b res" and w
  proof -
    from that obtain fs where "w = v\<lparr>wd_faults := fs\<rparr>"
      by (elim remote_query_cases) (auto intro: that)
    then show ?thesis
      unfolding outer_def by (intro exI [of _ fs] exI [of _ "wd_metrics v"] exI [of _ "wd_stdout v"]
          exI [of _ "wd_audit_file v"]) simp
  qed
  then show "OSClient_Count (memory_OS docs) c idx ch a b v = (x, v') \<Longrightarrow> outer v v'"
    by (auto simp: OSClient_Count_def memory_OS_def Let_def intro!: outer_emits
        split: prod.splits sum.splits if_splits option.splits)
qed

definition sys_submitter :: "Services Submitter" where
  "sys_submitter = wire_submitter (read_config (\<lambda>_. None)) (OSClient (memory_OS demo_docs)) MySQLStore"

theorem calls_are_steps_witness:
  "\<exists>u'. (sys_step sys_cn)\<^sup>*\<^sup>* (demo_sys SubIdle WIdle sys_exec demo_world 0)
      ((demo_sys SubIdle WIdle sys_exec demo_world 0)\<lparr>sy_shared := (sys_exec, u')\<rparr>) \<and>
    u' = snd (Cancel (sys_cn sys_exec) Background ''t'' ''c'' demo_world)"
proof -
  let ?s = "demo_sys SubIdle WIdle sys_exec demo_world 0"
  have st: "sb_store sys_submitter = ex_store sys_exec" "sb_Count sys_submitter = OSClient_Count (memory_OS demo_docs)"
    by (simp_all add: sys_submitter_def wire_submitter_def)
  have sc: "storable_scope (rq_Scope \<lparr>rq_Scope = demo_scope, rq_TimeRange = demo_range\<rparr>)"
    using demo_storable by (simp add: demo_task_def)
  have ct: "outer v v'" if "sb_Count sys_submitter Background (sb_index sys_submitter) ch a b v = (x, v')"
    for ch a b v x v'
    using that unfolding st by (rule outer_count)
  have sh: "sy_shared ?s = (sys_exec, demo_world)" "0 < length (sy_subs ?s)" "sy_subs ?s ! 0 = SubIdle"
    "0 < length (sy_cans ?s)" "sy_cans ?s ! 0 = CanIdle" "0 < length (sy_workers ?s)" "sy_workers ?s ! 0 = WIdle"
    by simp_all
  have "case Cancel (sys_cn sys_exec) Background ''t'' ''c'' demo_world of
      (_, u') \<Rightarrow> (sys_step sys_cn)\<^sup>*\<^sup>* ?s (?s\<lparr>sy_shared := (sys_exec, u')\<rparr>)"
    by (rule calls_are_steps [THEN conjunct2, THEN conjunct1, OF sh st(1) sc]) (rule ct)
  then show ?thesis by (simp add: split_beta)
qed

section \<open>The end of every call\<close>

text \<open>
  How many own steps a thread is at most from the end of its call, and its own steps while it
  is in a call, whatever the others have made of the shared state in between.
\<close>

fun work_rank :: "worker_pc \<Rightarrow> nat" where
  "work_rank (WTaken _) = 8" | "work_rank (WGet _ _) = 7" | "work_rank (WStart _ _ _) = 6"
| "work_rank (WRun _ _ _) = 5" | "work_rank (WFinal _ _ _ _) = 4" | "work_rank (WAbort _ _) = 4"
| "work_rank (WUnregister _ _) = 3" | "work_rank (WCancelCtx _ _) = 2" | "work_rank (WRelease _) = 1"
| "work_rank _ = 0"

fun sub_rank :: "submit_pc \<Rightarrow> nat" where
  "sub_rank (SubAdmitted _) = 4" | "sub_rank (SubCreated _) = 3" | "sub_rank (SubFull _) = 2"
| "sub_rank SubIdle = 0" | "sub_rank _ = 1"

fun can_rank :: "cancel_pc \<Rightarrow> nat" where
  "can_rank (CanCAS _ _ _) = 3" | "can_rank (CanSignal _ _ _) = 2" | "can_rank (CanClean _ _ _) = 1"
| "can_rank CanIdle = 0"

definition own_work :: "'a itself \<Rightarrow> worker_pc \<Rightarrow> worker_pc \<Rightarrow> bool" where
  "own_work _ w w' \<longleftrightarrow> 0 < work_rank w \<and> (\<exists>k (sh :: 'a shared) sh'. work_step k w sh w' sh')"

definition own_sub :: "'a itself \<Rightarrow> submit_pc \<Rightarrow> submit_pc \<Rightarrow> bool" where
  "own_sub _ p p' \<longleftrightarrow> 0 < sub_rank p \<and> (\<exists>(sh :: 'a shared) sh'. sub_step p sh p' sh')"

definition own_cancel :: "('a world_executor \<Rightarrow> 'a World_scheme Canceller) \<Rightarrow> cancel_pc \<Rightarrow> cancel_pc \<Rightarrow> bool" where
  "own_cancel cn c c' \<longleftrightarrow> 0 < can_rank c \<and> (\<exists>sh sh'. cancel_step cn c sh c' sh')"

inductive_cases work_stepE: "work_step k w sh w' sh'"
inductive_cases sub_stepE: "sub_step p sh p' sh'"
inductive_cases cancel_stepE: "cancel_step cn c sh c' sh'"

lemma own_lower:
  "own_work TYPE('a) w w' \<Longrightarrow> work_rank w' < work_rank w"
  "own_sub TYPE('a) p p' \<Longrightarrow> sub_rank p' < sub_rank p"
  "own_cancel cn c c' \<Longrightarrow> can_rank c' < can_rank c"
  by (auto simp: own_work_def own_sub_def own_cancel_def elim: work_stepE sub_stepE cancel_stepE)

lemma work_progress:
  assumes "0 < work_rank w"
  shows "\<exists>w' sh'. work_step k w (e, u) w' sh'"
proof (cases w)
  case (WGet tid j)
  obtain x u1 where g: "st_Get (ex_store e) (TaskCtx j) tid u = (x, u1)" by fastforce
  show ?thesis
  proof (cases x)
    case (Inl er)
    with g WGet work_get_err show ?thesis by blast
  next
    case (Inr t)
    with g WGet work_get work_get_skip show ?thesis by blast
  qed
next
  case (WStart tid j t)
  obtain q u1 where "st_UpdateStatus (ex_store e) (TaskCtx j) tid StatusRunning u = (q, u1)" by fastforce
  with WStart work_start work_start_err show ?thesis by (cases q) blast+
next
  case (WAbort tid j)
  obtain q u1 where "st_Finalize (ex_store e) Parent tid StatusFailed 0 [] ''internal_error''
      ''update status running failed'' u = (q, u1)" by fastforce
  with WAbort work_abort show ?thesis by blast
next
  case (WRun tid j t)
  obtain r u1 where "run e (TaskCtx j) t u = (r, u1)" by fastforce
  with WRun work_run show ?thesis by blast
next
  case (WTaken tid)
  with work_register show ?thesis by blast
next
  case (WFinal tid j t r)
  with work_final show ?thesis by blast
next
  case (WUnregister tid j)
  with work_unregister show ?thesis by blast
next
  case (WCancelCtx tid j)
  with work_cancel_ctx show ?thesis by blast
next
  case (WRelease tid)
  with work_release show ?thesis by blast
qed (use assms in simp_all)

lemma sub_progress:
  assumes "0 < sub_rank p"
  shows "\<exists>p' sh'. sub_step p (e, u) p' sh'"
proof (cases p)
  case (SubAdmitted t)
  obtain x u1 where "st_Create (ex_store e) Parent t u = (x, u1)" by fastforce
  with SubAdmitted sub_create sub_create_err show ?thesis by (cases x) blast+
next
  case (SubCreated tid)
  obtain q e1 u1 where "Enqueue tid e u = (q, e1, u1)" by (metis prod.exhaust)
  with SubCreated sub_enqueue sub_enqueue_full show ?thesis by (cases q) blast+
next
  case (SubFailing tid)
  obtain q u1 where "st_Finalize (ex_store e) Parent tid StatusFailed 0 [] ''service_degraded'' ''queue full'' u
      = (q, u1)" by fastforce
  with SubFailing sub_fail show ?thesis by blast
next
  case SubRefused
  with sub_release show ?thesis by blast
next
  case (SubFull tid)
  with sub_full_release show ?thesis by blast
qed (use assms in simp_all)

lemma cancel_progress:
  assumes "0 < can_rank c"
  shows "\<exists>c' sh'. cancel_step cn c (e, u) c' sh'"
proof (cases c)
  case (CanCAS tid cl rid)
  obtain x u1 where x: "st_CancelCAS (cc_store (cn e)) Parent tid u = (x, u1)" by fastforce
  show ?thesis
  proof (cases "\<exists>st. x = Inr (True, st)")
    case True
    with x CanCAS can_won [of cn e Parent tid u] show ?thesis by blast
  next
    case False
    then have "case x of Inl _ \<Rightarrow> True | Inr (b, _) \<Rightarrow> \<not> b" by (auto split: sum.splits)
    with can_lost [of cn e Parent tid u, OF x] CanCAS show ?thesis by blast
  qed
next
  case (CanSignal tid cl rid)
  with can_signal show ?thesis by blast
next
  case (CanClean tid cl rid)
  with can_clean show ?thesis by blast
qed (use assms in simp_all)



end
