(* ===== verification/Spec2Isabelle.thy ===== *)
theory Spec2Isabelle
  imports Export_Properties System_Properties Storage_Properties Front_Properties Gateway_Properties Metric_Properties Call_Properties
begin

text \<open>
  Verification of the message export service \<open>octo-message-export-api\<close>.

  \<^bold>\<open>The program.\<close> A caller posts a list of channels and a time range
  (\<open>internal/handler\<close>, behind \<open>internal/auth\<close>). \<open>internal/submit\<close> validates the request, counts
  the hits in OpenSearch, takes a slot of the gate (\<open>internal/executor/gate.go\<close>), stores a queued
  task (\<open>internal/store\<close>) and puts its identifier into the executor's queue. A worker of
  \<open>internal/executor\<close> takes it, marks it running, pages through every channel over one
  point-in-time handle (\<open>internal/osclient\<close>), hands each hit to the result writer
  (\<open>internal/result/writer.go\<close>), which turns it into an NDJSON line, closes a part when a channel
  ends or a limit is crossed, compresses and uploads it (\<open>internal/result/s3.go\<close>); then the parts
  are recorded, the final status is stored and the slot is given back. GET lists the parts with
  signed URLs; DELETE cancels (\<open>internal/cancel\<close>). \<open>cmd/\<dots>/main.go\<close> reads the configuration
  (\<open>internal/config\<close>), applies the schema, wires the parts and shuts them down in order.

  \<^bold>\<open>Theories and sources.\<close>

  \<^item> \<open>Prelude\<close>: Go errors, results, metric calls, list facts. \<open>Go_Strings\<close>, \<open>Go_Json\<close>, \<open>Go_Time\<close>:
    what the sources use of \<open>strings\<close>, \<open>strconv\<close>, \<open>encoding/json\<close> and \<open>time\<close>. \<open>World\<close>: contexts,
    clock, metric calls, audit output and the script of faults.
  \<^item> \<open>Domain_Types\<close>: \<open>store/types.go\<close>. \<open>Store_Interface\<close>: the interface \<open>Store\<close> as a record and
    its contract, the locale \<open>task_store\<close>. \<open>MySQL_Store\<close>: \<open>store/mysql.go\<close> over the tables of
    \<open>migrations/schema.sql\<close>, which meets the contract. \<open>Part_Table\<close>: the table of parts.
  \<^item> \<open>Payload\<close>, \<open>Result_Writer\<close>: \<open>result/payload.go\<close>, \<open>result/writer.go\<close>. \<open>Writer_Spec\<close>: the
    abstract writer, the simulation and the locale \<open>part_store\<close>. \<open>S3_Uploader\<close>: \<open>result/s3.go\<close>
    and the contract of the SDK client, the locale \<open>object_store\<close>.
  \<^item> \<open>OS_Client\<close>: \<open>osclient/osclient.go\<close>; the locale \<open>opensearch\<close> is what the code relies on of the
    server (a page is the next hits after the cursor, in the requested order) and \<open>paged_search\<close>
    what the executor relies on of the client.
  \<^item> \<open>Gate\<close>, \<open>Executor\<close>: \<open>executor/gate.go\<close>, \<open>executor/executor.go\<close>. \<open>Executor_Frame\<close>: what a run
    leaves alone. \<open>Executor_Spec\<close>: the plan of a run and its refinement.
  \<^item> \<open>Config\<close>, \<open>Submitter\<close>, \<open>Canceller\<close>, \<open>Auth\<close>, \<open>Metrics_Audit\<close>, \<open>Handler\<close>, \<open>Service_Main\<close>: the
    packages of these names and \<open>main.go\<close>.
  \<^item> \<open>System\<close>: submit requests, cancel requests and workers as threads, one call at a time, in any
    interleaving, as an inductive step relation. \<open>System_Invariant\<close>: what every reachable state
    has. \<open>System_Calls\<close>: the functions \<open>Submit\<close>, \<open>Cancel\<close> and \<open>process\<close> as sequences of these
    steps. \<open>Services\<close>, \<open>Deployment\<close>, \<open>Examples\<close>: a bucket
    and an index in memory on which every locale is interpreted with the real store, client,
    uploader, submitter and canceller, and the inputs of the witnesses.
  \<^item> \<open>Export_Properties\<close>, \<open>Finished_Task\<close>, \<open>System_Properties\<close>, \<open>Storage_Properties\<close>,
    \<open>Front_Properties\<close>, \<open>Gateway_Properties\<close>, \<open>Metric_Properties\<close>, \<open>Call_Properties\<close> and this theory: the properties,
    each after a text with its number.

  \<^bold>\<open>Correspondence.\<close> Definitions keep the names of the functions; a method \<open>T.m\<close> is \<open>T_m\<close> where
  the bare name is taken, a loop inside a function has a name of its own, a struct is a record
  with the fields in order, an interface a record of functions. Effects are explicit: an
  operation takes the world (a record that the tables and the bucket extend) and returns it.
  An \<open>error\<close> result is \<open>err option\<close> or \<open>err + 'a\<close>. Every call that leaves the process takes the
  next entry of the fault script: no fault, a failure before the effect, or a failure reported
  after the effect took place; statements quantify over all scripts. Strings are byte
  strings. An \<open>int64\<close> is an \<open>int\<close> with the wrap-around written out (\<open>i64\<close>) where the code's
  arithmetic can leave the range, and request identifiers are computed on 8-bit words.

  \<^bold>\<open>What is shown.\<close> A run exports exactly the lines of its plan, on any store, client and bucket
  that meet the contracts (\<open>Export_Properties\<close> and below): the writer refines the grouping of
  lines into channel-pure parts, the paging loop reads the whole hit list, truncation keeps the newest and
  is reported, keys do not collide. The queue, the gate and the registry are right under every
  interleaving (\<open>System_Properties\<close>): slots are conserved, the queue always has room, one worker
  per task, settled states are final, the functions that model the code are runs of the threads
  (\<open>Call_Properties\<close>), and one theorem exhibits the interleaving in which a
  cancelled task is overwritten. Submission, cancellation, identifiers, the tables, signed
  listings, authentication, configuration, migration and shutdown have their functional
  properties in the other theories, and no call on a metric collector can panic.

  \<^bold>\<open>Termination and bounds.\<close> No model uses fuel. The paging loop \<open>drain_from\<close> terminates because
  each further page raises the number of hits seen, which the hard cap bounds (the measure is
  the distance to the cap), with no assumption on the server; a property states the bound.
  Each call of a thread ends after a fixed number of its own steps. That every queued task
  ends is shown for one worker while calls work. The counts of hits of an accepted request
  are assumed below \<open>2 ^ 58\<close>, so that thirty of them fit an
  \<open>int64\<close>. Identifiers are ordered within periods of \<open>2 ^ 40\<close> milliseconds.

  \<^bold>\<open>Parameters.\<close> Code outside the repository is an argument: the SQL driver, the OpenSearch
  transport, the S3 client, \<open>gzip\<close> and \<open>sha256\<close>, random bytes, the choice a Go \<open>select\<close> makes
  among ready cases, \<open>strconv.IsPrint\<close>, the text of the schema and of the metrics page. What a
  statement relies on of them is a hypothesis or a locale; \<open>gunzip\<close> inverting \<open>gzip\<close> is one.

  \<^bold>\<open>Not modelled.\<close> Deadlines of contexts and sleeping other than the shutdown's, log lines,
  connection pools and \<open>Close\<close>, TCP and the HTTP listener, response headers other than the
  request identifier and the protocol version, the syntax of JSON texts on input (requests and
  replies are decoded from JSON values; \<open>encoding/json\<close> parses them), data races on memory (a
  call is one step of a thread), and \<open>internal/store/migrations/embed.go\<close>, one embed directive.
\<close>

section \<open>The export\<close>



end
